(* ===== verification/Go_Prelude.thy ===== *)
theory Go_Prelude
  imports
    "HOL-Library.Finite_Map"
    "HOL-Library.State_Monad"
    "HOL-Library.Word"
begin

section \<open>Prelude: the fragment of Go the operator is written in\<close>

text \<open>
  Shared vocabulary of the development.  A Go \<open>map[string]V\<close> is a finite map
  \<open>(string, 'v) fmap\<close> (equality of finite maps is what \<open>reflect.DeepEqual\<close> computes on
  maps); a slice or a map whose nil-ness the code observes is an \<open>option\<close> around the list or
  the finite map; a pointer that may be nil is an \<open>option\<close>.  A computation with effects is a
  value of the library's state monad over the state of the outside world.  A run-time panic
  (nil dereference, explicit \<open>panic\<close>, slice bounds) is the value \<open>Panicked\<close> of \<open>'a go\<close>; a
  Go \<open>error\<close> result is a value of type \<open>go_error option\<close> with \<open>None\<close> for nil.
\<close>

subsection \<open>Values\<close>

type_synonym 'v gomap = "(string, 'v) fmap"

datatype 'a go = Panicked | Val 'a

text \<open>
  Errors.  What the operator observes of an error is whether \<open>errors.IsNotFound\<close> holds of it
  (through that function or through \<open>client.IgnoreNotFound\<close>), so the two constructors are
  exactly that classification; the string is the rest of the error.
\<close>

datatype go_error = NotFoundError string | OtherError string

fun IsNotFound :: "go_error \<Rightarrow> bool" where
  "IsNotFound (NotFoundError _) = True"
| "IsNotFound (OtherError _) = False"

fun IgnoreNotFound :: "go_error option \<Rightarrow> go_error option" where
  "IgnoreNotFound None = None"
| "IgnoreNotFound (Some e) = (if IsNotFound e then None else Some e)"

lemma IgnoreNotFound_None_iff:
  "IgnoreNotFound r = None \<longleftrightarrow> (\<forall>e. r = Some e \<longrightarrow> IsNotFound e)"
  by (cases r) auto

lemma IgnoreNotFound_Some_iff:
  "IgnoreNotFound r = Some e \<longleftrightarrow> r = Some e \<and> \<not> IsNotFound e"
  by (cases r) auto

text \<open>\<open>range\<close> over a nil slice makes no iteration; \<open>len\<close> of it is 0.\<close>

definition slice_items :: "'a list option \<Rightarrow> 'a list" where
  "slice_items s = (case s of None \<Rightarrow> [] | Some xs \<Rightarrow> xs)"

lemma slice_items_simps [simp]:
  "slice_items None = []" "slice_items (Some xs) = xs"
  by (simp_all add: slice_items_def)

text \<open>Indexing \<open>m[k]\<close> of a map whose values are pointers: nil for a missing key.\<close>

definition index_ptr :: "'v option gomap \<Rightarrow> string \<Rightarrow> 'v option" where
  "index_ptr m k = (case fmlookup m k of None \<Rightarrow> None | Some v \<Rightarrow> v)"

text \<open>Indexing \<open>m[k]\<close> of a \<open>map[string]string\<close>: the empty string for a missing key.\<close>

definition index_string :: "string gomap \<Rightarrow> string \<Rightarrow> string" where
  "index_string m k = (case fmlookup m k of None \<Rightarrow> [] | Some v \<Rightarrow> v)"

text \<open>\<open>strings.Join\<close> of the standard library.\<close>

fun join_strings :: "string list \<Rightarrow> string \<Rightarrow> string" where
  "join_strings [] sep = []"
| "join_strings [s] sep = s"
| "join_strings (s # t # ss) sep = s @ sep @ join_strings (t # ss) sep"

text \<open>Decimal printing of integers, as \<open>strconv\<close> and \<open>fmt\<close> do it.\<close>

definition digit_char :: "nat \<Rightarrow> char" where
  "digit_char d = char_of (48 + d)"

fun decimal_nat :: "nat \<Rightarrow> string" where
  "decimal_nat n = (if n < 10 then [digit_char n] else decimal_nat (n div 10) @ [digit_char (n mod 10)])"

declare decimal_nat.simps [simp del]

definition decimal_int :: "int \<Rightarrow> string" where
  "decimal_int i = (if i < 0 then CHR ''-'' # decimal_nat (nat (- i)) else decimal_nat (nat i))"

lemma decimal_nat_not_Nil [simp]: "decimal_nat n \<noteq> []"
  by (subst decimal_nat.simps) simp

text \<open>Reading a decimal number back.\<close>

definition is_digit :: "char \<Rightarrow> bool" where
  "is_digit c \<longleftrightarrow> 48 \<le> (of_char c :: nat) \<and> (of_char c :: nat) \<le> 57"

definition digit_value :: "char \<Rightarrow> nat" where
  "digit_value c = of_char c - 48"

definition read_decimal :: "string \<Rightarrow> nat" where
  "read_decimal s = foldl (\<lambda>n c. 10 * n + digit_value c) 0 s"

lemma digit_value_digit_char: "d < 10 \<Longrightarrow> digit_value (digit_char d) = d"
  by (simp add: digit_value_def digit_char_def of_char_of take_bit_nat_eq_self)

lemma is_digit_digit_char: "d < 10 \<Longrightarrow> is_digit (digit_char d)"
  by (simp add: is_digit_def digit_char_def of_char_of take_bit_nat_eq_self)

lemma read_decimal_append: "read_decimal (xs @ [c]) = 10 * read_decimal xs + digit_value c"
  by (simp add: read_decimal_def)

lemma read_decimal_nat: "read_decimal (decimal_nat n) = n"
proof (induction n rule: decimal_nat.induct)
  case (1 n)
  show ?case
  proof (cases "n < 10")
    case True
    then show ?thesis by (subst decimal_nat.simps) (simp add: read_decimal_def digit_value_digit_char)
  next
    case False
    with 1 show ?thesis
      by (subst decimal_nat.simps) (simp add: read_decimal_append digit_value_digit_char)
  qed
qed

lemma decimal_nat_digits: "list_all is_digit (decimal_nat n)"
proof (induction n rule: decimal_nat.induct)
  case (1 n)
  then show ?case by (subst decimal_nat.simps) (simp add: is_digit_digit_char)
qed

text \<open>The first digit is 0 for the number 0 only.\<close>

lemma hd_decimal_nat: "hd (decimal_nat n) = CHR ''0'' \<Longrightarrow> n = 0"
proof (induction n rule: decimal_nat.induct)
  case (1 n)
  show ?case
  proof (cases "n < 10")
    case True
    with "1.prems" have "digit_char n = CHR ''0''" by (simp add: decimal_nat.simps)
    with True digit_value_digit_char [of n] show ?thesis by (simp add: digit_value_def)
  next
    case False
    with "1.prems" have "hd (decimal_nat (n div 10)) = CHR ''0''"
      by (subst (asm) decimal_nat.simps) simp
    with "1.IH" False have "n div 10 = 0" by simp
    with False show ?thesis by simp
  qed
qed

subsection \<open>The state monad\<close>

abbreviation ret :: "'a \<Rightarrow> ('w, 'a) state" where
  "ret \<equiv> State_Monad.return"

text \<open>Sequencing after a computation that may panic: the rest does not run.\<close>

definition go_bind :: "('w, 'a go) state \<Rightarrow> ('a \<Rightarrow> ('w, 'b go) state) \<Rightarrow> ('w, 'b go) state" where
  "go_bind m f = do { r \<leftarrow> m; case r of Panicked \<Rightarrow> ret Panicked | Val a \<Rightarrow> f a }"

text \<open>
  \<open>for _, x := range xs { if err := body(x); err != nil { return err } }\<close>.
\<close>

fun for_each :: "('a \<Rightarrow> ('w, go_error option) state) \<Rightarrow> 'a list \<Rightarrow> ('w, go_error option) state" where
  "for_each body [] = ret None"
| "for_each body (x # xs) = do {
     err \<leftarrow> body x;
     case err of
       Some e \<Rightarrow> ret (Some e)
     | None \<Rightarrow> for_each body xs
   }"

lemma run_state_go_bind:
  "run_state (go_bind m f) w =
     (case run_state m w of
        (Panicked, w') \<Rightarrow> (Panicked, w')
      | (Val a, w') \<Rightarrow> run_state (f a) w')"
  by (auto simp: go_bind_def split: prod.splits go.splits)

lemma for_each_append:
  "for_each body (xs @ ys) = do {
     err \<leftarrow> for_each body xs;
     case err of Some e \<Rightarrow> ret (Some e) | None \<Rightarrow> for_each body ys }"
  by (rule state_ext, induction xs) (auto split: prod.splits option.splits)

text \<open>Looping over a mapped list is looping with the mapped body.\<close>

lemma for_each_map: "for_each body (map f xs) = for_each (\<lambda>x. body (f x)) xs"
  by (induction xs) simp_all

lemma for_each_cong [fundef_cong]:
  "xs = ys \<Longrightarrow> (\<And>x. x \<in> set ys \<Longrightarrow> f x = g x) \<Longrightarrow> for_each f xs = for_each g ys"
proof (induction ys arbitrary: xs)
  case Nil
  then show ?case by simp
next
  case (Cons y ys)
  then have "for_each f ys = for_each g ys" by simp
  with Cons.prems show ?case by (simp cong: option.case_cong)
qed

subsection \<open>Finite maps built from lists\<close>

text \<open>\<open>for i := range items { m[key(items[i])] = val(items[i]) }\<close> on a fresh map.\<close>

fun insert_all :: "('a \<Rightarrow> string) \<Rightarrow> ('a \<Rightarrow> 'v) \<Rightarrow> 'a list \<Rightarrow> 'v gomap \<Rightarrow> 'v gomap" where
  "insert_all key val [] m = m"
| "insert_all key val (x # xs) m = insert_all key val xs (fmupd (key x) (val x) m)"

lemma fmdom_insert_all:
  "fmdom (insert_all key val xs m) = fmdom m |\<union>| fset_of_list (map key xs)"
  by (induction xs arbitrary: m) auto

lemma fmlookup_insert_all_notin:
  "k \<notin> set (map key xs) \<Longrightarrow> fmlookup (insert_all key val xs m) k = fmlookup m k"
  by (induction xs arbitrary: m) auto

lemma fmlookup_insert_all:
  assumes "distinct (map key xs)" and "x \<in> set xs"
  shows "fmlookup (insert_all key val xs m) (key x) = Some (val x)"
  using assms
proof (induction xs arbitrary: m)
  case Nil
  then show ?case by simp
next
  case (Cons y ys)
  then show ?case
    by (cases "x = y") (auto simp: fmlookup_insert_all_notin)
qed

lemma fmlookup_insert_all_SomeD:
  "fmlookup (insert_all key val xs m) k = Some v \<Longrightarrow>
     (\<exists>x \<in> set xs. key x = k \<and> val x = v) \<or> fmlookup m k = Some v"
proof (induction xs arbitrary: m)
  case Nil
  then show ?case by simp
next
  case (Cons y ys)
  from Cons.IH [of "fmupd (key y) (val y) m"] Cons.prems show ?case
    by (auto split: if_splits)
qed

end
