(* ===== verification/Api_Types.thy ===== *)
theory Api_Types
  imports Go_Prelude
begin

section \<open>The data: the custom resource and the Kubernetes objects\<close>

text \<open>
  First the Kubernetes structs of the client libraries, restricted to the fields this operator
  reads or writes; then the types of \<open>api/v1alpha1/invokerdeployment_types.go\<close>, field by
  field.  Every record field carries a prefix for its struct, because record selectors share
  one name space.
\<close>

subsection \<open>Wall-clock times\<close>

text \<open>
  A \<open>time.Time\<close> as its broken-down local time and the zone offset in seconds: what
  \<open>Format(time.RFC3339)\<close> prints.
\<close>

record gotime =
  gtYear :: nat
  gtMonth :: nat
  gtDay :: nat
  gtHour :: nat
  gtMinute :: nat
  gtSecond :: nat
  gtOffset :: int

subsection \<open>Kubernetes metadata\<close>

record OwnerReference =
  orAPIVersion :: string
  orKind :: string
  orName :: string
  orUID :: string
  orController :: bool

record ObjectMeta =
  omName :: string
  omNamespace :: string
  omUID :: string
  omLabels :: "string gomap"
  omFinalizers :: "string list"
  omDeletionTimestamp :: "gotime option"
  omOwnerReferences :: "OwnerReference list"

text \<open>The zero value of \<open>metav1.ObjectMeta\<close>, which composite literals start from.\<close>

definition zero_meta :: ObjectMeta where
  "zero_meta = \<lparr>omName = [], omNamespace = [], omUID = [], omLabels = fmempty, omFinalizers = [],
     omDeletionTimestamp = None, omOwnerReferences = []\<rparr>"

record LocalObjectReference =
  lorName :: string

subsection \<open>Pods\<close>

text \<open>
  A \<open>resource.Quantity\<close> is a value of the client libraries whose inside the operator never
  looks at: it is compared by \<open>reflect.DeepEqual\<close> and serialised.  The constructor's argument
  stands for that inside, so equality of quantities is \<open>DeepEqual\<close> on them.
\<close>

datatype quantity = Quantity string

record ResourceRequirements =
  rrLimits :: "quantity gomap option"
  rrRequests :: "quantity gomap option"
  rrClaims :: "string list option"

definition zero_resources :: ResourceRequirements where
  "zero_resources = \<lparr>rrLimits = None, rrRequests = None, rrClaims = None\<rparr>"

record EnvVarSource =
  evsFieldPath :: "string option"
  evsConfigMapKeyRef :: "(string \<times> string) option"

record EnvVar =
  evName :: string
  evValueFrom :: "EnvVarSource option"

record VolumeMount =
  vmName :: string
  vmMountPath :: string

record Container =
  cnName :: string
  cnImage :: string
  cnImagePullPolicy :: string
  cnEnv :: "EnvVar list"
  cnVolumeMounts :: "VolumeMount list"
  cnResources :: ResourceRequirements

record Volume =
  vlName :: string
  vlConfigMap :: "LocalObjectReference option"
  vlEmptyDir :: bool

record PodSpec =
  psContainers :: "Container list"
  psVolumes :: "Volume list"
  psImagePullSecrets :: "LocalObjectReference list"

record Pod =
  podMeta :: ObjectMeta
  podSpec :: PodSpec
  podPhase :: string

subsection \<open>The other objects\<close>

record ConfigMap =
  cmMeta :: ObjectMeta
  cmData :: "string gomap"

record Secret =
  scMeta :: ObjectMeta
  scType :: string
  scData :: "string gomap"

text \<open>\<open>Revision\<close> is an \<open>int64\<close>; \<open>Data.Raw\<close> are the bytes of the recorded spec.\<close>

record ControllerRevision =
  rvMeta :: ObjectMeta
  rvDataRaw :: string
  rvRevision :: "64 word"

record PodTemplate =
  ptLabels :: "string gomap"
  ptSpec :: PodSpec

record Deployment =
  dpMeta :: ObjectMeta
  dpReplicas :: "32 word option"
  dpSelector :: "string gomap"
  dpTemplate :: PodTemplate
  dpReadyReplicas :: "32 word"

record StatefulSet =
  ssMeta :: ObjectMeta
  ssReplicas :: "32 word option"
  ssSelector :: "string gomap"
  ssServiceName :: string
  ssTemplate :: PodTemplate
  ssReadyReplicas :: "32 word"

record ServicePort =
  spPort :: "32 word"
  spTargetPort :: int
  spProtocol :: string

record Service =
  svMeta :: ObjectMeta
  svSelector :: "string gomap"
  svType :: string
  svPorts :: "ServicePort list"

record IngressPath =
  ipPath :: string
  ipPathType :: string
  ipServiceName :: string
  ipServicePort :: "32 word"

record IngressRule =
  irHost :: string
  irPaths :: "IngressPath list"

record Ingress =
  igMeta :: ObjectMeta
  igRules :: "IngressRule list"

text \<open>\<open>metav1.Condition\<close>; the transition time is \<open>None\<close> when it is the zero time.\<close>

record Condition =
  cdType :: string
  cdStatus :: string
  cdReason :: string
  cdMessage :: string
  cdLastTransitionTime :: "gotime option"

subsection \<open>api/v1alpha1: the states\<close>

definition ComponentStateNotReady :: string where "ComponentStateNotReady = ''NotReady''"
definition ComponentStateReady :: string where "ComponentStateReady = ''Ready''"
definition ComponentStateUpdating :: string where "ComponentStateUpdating = ''Updating''"
definition ComponentStateDeleted :: string where "ComponentStateDeleted = ''Deleted''"

definition StateCreating :: string where "StateCreating = ''Creating''"
definition StateRunning :: string where "StateRunning = ''Running''"
definition StateUpdating :: string where "StateUpdating = ''Updating''"
definition StateReconciling :: string where "StateReconciling = ''Reconciling''"
definition StateStopping :: string where "StateStopping = ''Stopping''"
definition StateStopped :: string where "StateStopped = ''Stopped''"

lemmas component_state_defs =
  ComponentStateNotReady_def ComponentStateReady_def ComponentStateUpdating_def
  ComponentStateDeleted_def

lemmas state_defs =
  StateCreating_def StateRunning_def StateUpdating_def StateReconciling_def
  StateStopping_def StateStopped_def

subsection \<open>api/v1alpha1: the custom resource\<close>

record PodConfig =
  pcName :: "string option"
  pcPartitions :: "string list option"
  pcResources :: ResourceRequirements

record StatefulEntity =
  seName :: "string option"
  seExecutorImage :: "string option"
  seIOImage :: "string option"
  seStateImage :: "string option"
  seIOAddress :: "string option"
  seInputTopic :: "string option"
  seOutputTopic :: "string option"
  sePods :: "PodConfig list option"

record InvokerDeploymentSpec =
  idVersion :: string
  idImagePullPolicy :: string
  idImagePullSecrets :: "LocalObjectReference list option"
  idStatefulEntities :: "StatefulEntity list option"
  idHistoryLimit :: "32 word option"

record ComponentsStatus =
  csConfigMap :: string
  csStatefulEntities :: string
  csSecret :: string

record InvokerDeploymentStatus =
  stConditions :: "Condition list"
  stComponents :: ComponentsStatus
  stState :: string
  stLastUpdateTime :: string
  stCurrentRevision :: string
  stNextRevision :: string

definition zero_status :: InvokerDeploymentStatus where
  "zero_status = \<lparr>stConditions = [],
     stComponents = \<lparr>csConfigMap = [], csStatefulEntities = [], csSecret = []\<rparr>,
     stState = [], stLastUpdateTime = [], stCurrentRevision = [], stNextRevision = []\<rparr>"

record InvokerDeployment =
  crAPIVersion :: string
  crKind :: string
  crMeta :: ObjectMeta
  crSpec :: InvokerDeploymentSpec
  crStatus :: InvokerDeploymentStatus

text \<open>The items \<open>range\<close> visits, nil slices included.\<close>

abbreviation spec_entities :: "InvokerDeploymentSpec \<Rightarrow> StatefulEntity list" where
  "spec_entities sp \<equiv> slice_items (idStatefulEntities sp)"

abbreviation entity_pods :: "StatefulEntity \<Rightarrow> PodConfig list" where
  "entity_pods se \<equiv> slice_items (sePods se)"

subsection \<open>Objects handed to the client\<close>

datatype k8s_object =
    ObjCR InvokerDeployment
  | ObjPod Pod
  | ObjConfigMap ConfigMap
  | ObjSecret Secret
  | ObjRevision ControllerRevision
  | ObjDeployment Deployment
  | ObjStatefulSet StatefulSet
  | ObjService Service
  | ObjIngress Ingress

primrec object_meta :: "k8s_object \<Rightarrow> ObjectMeta" where
  "object_meta (ObjCR o1) = crMeta o1"
| "object_meta (ObjPod o1) = podMeta o1"
| "object_meta (ObjConfigMap o1) = cmMeta o1"
| "object_meta (ObjSecret o1) = scMeta o1"
| "object_meta (ObjRevision o1) = rvMeta o1"
| "object_meta (ObjDeployment o1) = dpMeta o1"
| "object_meta (ObjStatefulSet o1) = ssMeta o1"
| "object_meta (ObjService o1) = svMeta o1"
| "object_meta (ObjIngress o1) = igMeta o1"

text \<open>
  A \<open>runtime.Object\<close>: the type assertion \<open>desired.(client.Object)\<close> succeeds on the first
  constructor only.
\<close>

datatype runtime_object = ClientObject k8s_object | NoClientObject

end
