(* ===== verification/Spec_Json.thy ===== *)
theory Spec_Json
  imports
    Api_Types
    "HOL-Library.Char_ord"
    "HOL-Library.List_Lexorder"
begin

section \<open>encoding/json on the resource's spec\<close>

text \<open>
  \<open>json.Marshal(observed.cr.Spec)\<close>: the standard library's encoder on the struct types of
  \<open>api/v1alpha1/invokerdeployment_types.go\<close>, following their \<open>json\<close> tags.  A field with
  \<open>omitempty\<close> is left out when it is the empty string, a nil pointer, or a slice or map of
  length 0; a struct field (\<open>resources\<close>) is never left out.  Map keys come out sorted.
  Strings are quoted with HTML escaping, as \<open>Marshal\<close> does.  The JSON form of a
  \<open>resource.Quantity\<close> is the client library's business and a parameter, \<open>qjson\<close>; it may fail,
  which is the only way \<open>Marshal\<close> fails on this type.
\<close>

subsection \<open>Strings\<close>

definition json_hex :: "nat \<Rightarrow> char" where
  "json_hex d = ''0123456789abcdef'' ! d"

text \<open>Escaping of one byte below \<open>utf8.RuneSelf\<close> (128).\<close>

definition json_escape_ascii :: "char \<Rightarrow> string" where
  "json_escape_ascii c =
     (let n = of_char c :: nat in
      if n = 92 \<or> n = 34 then [char_of (92 :: nat), c]
      else if n = 10 then [char_of (92 :: nat), CHR ''n'']
      else if n = 13 then [char_of (92 :: nat), CHR ''r'']
      else if n = 9 then [char_of (92 :: nat), CHR ''t'']
      else if n < 32 \<or> c = CHR ''<'' \<or> c = CHR ''>'' \<or> c = CHR ''&''
        then char_of (92 :: nat) # ''u00'' @ [json_hex (n div 16), json_hex (n mod 16)]
      else [c])"

text \<open>
  \<open>utf8.DecodeRuneInString\<close> as far as the encoder uses it: the number of bytes of the
  well-formed rune at the head of the string, 0 when the head byte starts none.
\<close>

definition cont_byte :: "nat \<Rightarrow> nat \<Rightarrow> char \<Rightarrow> bool" where
  "cont_byte lo hi c \<longleftrightarrow> lo \<le> (of_char c :: nat) \<and> (of_char c :: nat) \<le> hi"

fun rune_size :: "string \<Rightarrow> nat" where
  "rune_size [] = 0"
| "rune_size (c # s) =
     (let n = of_char c :: nat in
      if n < 128 then 1
      else if 0xC2 \<le> n \<and> n \<le> 0xDF then
        (case s of c1 # _ \<Rightarrow> if cont_byte 0x80 0xBF c1 then 2 else 0 | _ \<Rightarrow> 0)
      else if 0xE0 \<le> n \<and> n \<le> 0xEF then
        (case s of c1 # c2 # _ \<Rightarrow>
           if cont_byte (if n = 0xE0 then 0xA0 else 0x80) (if n = 0xED then 0x9F else 0xBF) c1
              \<and> cont_byte 0x80 0xBF c2 then 3 else 0
         | _ \<Rightarrow> 0)
      else if 0xF0 \<le> n \<and> n \<le> 0xF4 then
        (case s of c1 # c2 # c3 # _ \<Rightarrow>
           if cont_byte (if n = 0xF0 then 0x90 else 0x80) (if n = 0xF4 then 0x8F else 0xBF) c1
              \<and> cont_byte 0x80 0xBF c2 \<and> cont_byte 0x80 0xBF c3 then 4 else 0
         | _ \<Rightarrow> 0)
      else 0)"

text \<open>U+2028 and U+2029 are the bytes E2 80 A8 and E2 80 A9.\<close>

definition line_separator :: "string \<Rightarrow> char option" where
  "line_separator s =
     (let ns = map (of_char :: char \<Rightarrow> nat) (take 3 s) in
      if ns = [0xE2, 0x80, 0xA8] then Some (CHR ''8'')
      else if ns = [0xE2, 0x80, 0xA9] then Some (CHR ''9'')
      else None)"

function json_escape :: "string \<Rightarrow> string" where
  "json_escape [] = []"
| "json_escape (c # s) =
     (if (of_char c :: nat) < 128 then json_escape_ascii c @ json_escape s
      else if rune_size (c # s) = 0 then char_of (92 :: nat) # ''ufffd'' @ json_escape s
      else case line_separator (c # s) of
          Some d \<Rightarrow> char_of (92 :: nat) # ''u202'' @ [d] @ json_escape (drop 2 s)
        | None \<Rightarrow> take (rune_size (c # s)) (c # s) @ json_escape (drop (rune_size (c # s) - 1) s))"
  by pat_completeness auto
termination
  by (relation "measure length") auto

definition json_string :: "string \<Rightarrow> string" where
  "json_string s = char_of (34 :: nat) # json_escape s @ [char_of (34 :: nat)]"

subsection \<open>Structs and arrays\<close>

text \<open>
  A field is its name and, unless \<open>omitempty\<close> leaves it out, its value's JSON text.
\<close>

definition field_always :: "string \<Rightarrow> string \<Rightarrow> (string \<times> string) list" where
  "field_always name v = [(name, v)]"

definition field_string :: "string \<Rightarrow> string \<Rightarrow> (string \<times> string) list" where
  "field_string name s = (if s = [] then [] else [(name, json_string s)])"

definition field_pointer :: "string \<Rightarrow> ('a \<Rightarrow> string) \<Rightarrow> 'a option \<Rightarrow> (string \<times> string) list" where
  "field_pointer name enc p = (case p of None \<Rightarrow> [] | Some a \<Rightarrow> [(name, enc a)])"

definition json_array :: "string list \<Rightarrow> string" where
  "json_array vs = CHR ''['' # join_strings vs '','' @ '']''"

definition field_slice :: "string \<Rightarrow> string list \<Rightarrow> (string \<times> string) list" where
  "field_slice name vs = (if vs = [] then [] else [(name, json_array vs)])"

definition json_object :: "(string \<times> string) list \<Rightarrow> string" where
  "json_object fs =
     CHR ''{'' # join_strings (map (\<lambda>(k, v). json_string k @ '':'' @ v) fs) '','' @ ''}''"

text \<open>Encoding the elements of a slice in order; the first failure is the result.\<close>

fun marshal_all :: "('a \<Rightarrow> go_error + string) \<Rightarrow> 'a list \<Rightarrow> go_error + string list" where
  "marshal_all enc [] = Inr []"
| "marshal_all enc (x # xs) =
     (case enc x of
        Inl e \<Rightarrow> Inl e
      | Inr v \<Rightarrow> (case marshal_all enc xs of Inl e \<Rightarrow> Inl e | Inr vs \<Rightarrow> Inr (v # vs)))"

text \<open>
  A map: the library's linear order on strings is the order of the bytes, left to right, in
  which \<open>Marshal\<close> sorts the keys.
\<close>

fun marshal_entries ::
  "(quantity \<Rightarrow> go_error + string) \<Rightarrow> quantity gomap \<Rightarrow> string list \<Rightarrow> go_error + (string \<times> string) list"
where
  "marshal_entries qjson m [] = Inr []"
| "marshal_entries qjson m (k # ks) =
     (case fmlookup m k of
        None \<Rightarrow> marshal_entries qjson m ks
      | Some q \<Rightarrow>
        (case qjson q of
           Inl e \<Rightarrow> Inl e
         | Inr v \<Rightarrow>
           (case marshal_entries qjson m ks of Inl e \<Rightarrow> Inl e | Inr vs \<Rightarrow> Inr ((k, v) # vs))))"

definition marshal_resource_list ::
  "(quantity \<Rightarrow> go_error + string) \<Rightarrow> quantity gomap \<Rightarrow> go_error + string" where
  "marshal_resource_list qjson m =
     (case marshal_entries qjson m (sorted_list_of_fset (fmdom m)) of
        Inl e \<Rightarrow> Inl e
      | Inr es \<Rightarrow> Inr (json_object es))"

definition field_resource_list ::
  "(quantity \<Rightarrow> go_error + string) \<Rightarrow> string \<Rightarrow> quantity gomap option \<Rightarrow>
   go_error + (string \<times> string) list" where
  "field_resource_list qjson name om =
     (case om of
        None \<Rightarrow> Inr []
      | Some m \<Rightarrow>
        if m = fmempty then Inr []
        else (case marshal_resource_list qjson m of Inl e \<Rightarrow> Inl e | Inr v \<Rightarrow> Inr [(name, v)]))"

definition marshal_claim :: "string \<Rightarrow> string" where
  "marshal_claim c = json_object (field_always ''name'' (json_string c))"

definition marshalResources ::
  "(quantity \<Rightarrow> go_error + string) \<Rightarrow> ResourceRequirements \<Rightarrow> go_error + string" where
  "marshalResources qjson r =
     (case field_resource_list qjson ''limits'' (rrLimits r) of
        Inl e \<Rightarrow> Inl e
      | Inr ls \<Rightarrow>
        (case field_resource_list qjson ''requests'' (rrRequests r) of
           Inl e \<Rightarrow> Inl e
         | Inr rs \<Rightarrow>
           Inr (json_object
             (ls @ rs @ field_slice ''claims'' (map marshal_claim (slice_items (rrClaims r)))))))"

definition marshalPodConfig ::
  "(quantity \<Rightarrow> go_error + string) \<Rightarrow> PodConfig \<Rightarrow> go_error + string" where
  "marshalPodConfig qjson pc =
     (case marshalResources qjson (pcResources pc) of
        Inl e \<Rightarrow> Inl e
      | Inr r \<Rightarrow>
        Inr (json_object
          (field_pointer ''name'' json_string (pcName pc)
           @ field_slice ''partitions'' (map json_string (slice_items (pcPartitions pc)))
           @ field_always ''resources'' r)))"

definition marshalStatefulEntity ::
  "(quantity \<Rightarrow> go_error + string) \<Rightarrow> StatefulEntity \<Rightarrow> go_error + string" where
  "marshalStatefulEntity qjson se =
     (case marshal_all (marshalPodConfig qjson) (entity_pods se) of
        Inl e \<Rightarrow> Inl e
      | Inr pods \<Rightarrow>
        Inr (json_object
          (field_pointer ''name'' json_string (seName se)
           @ field_pointer ''executorImage'' json_string (seExecutorImage se)
           @ field_pointer ''ioImage'' json_string (seIOImage se)
           @ field_pointer ''stateImage'' json_string (seStateImage se)
           @ field_pointer ''ioAddress'' json_string (seIOAddress se)
           @ field_pointer ''inputTopic'' json_string (seInputTopic se)
           @ field_pointer ''outputTopic'' json_string (seOutputTopic se)
           @ field_slice ''pods'' pods)))"

definition marshal_secret_ref :: "LocalObjectReference \<Rightarrow> string" where
  "marshal_secret_ref r = json_object (field_string ''name'' (lorName r))"

definition marshalSpec ::
  "(quantity \<Rightarrow> go_error + string) \<Rightarrow> InvokerDeploymentSpec \<Rightarrow> go_error + string" where
  "marshalSpec qjson sp =
     (case marshal_all (marshalStatefulEntity qjson) (spec_entities sp) of
        Inl e \<Rightarrow> Inl e
      | Inr ses \<Rightarrow>
        Inr (json_object
          (field_string ''version'' (idVersion sp)
           @ field_string ''imagePullPolicy'' (idImagePullPolicy sp)
           @ field_slice ''imagePullSecrets''
               (map marshal_secret_ref (slice_items (idImagePullSecrets sp)))
           @ field_slice ''statefulEntities'' ses
           @ field_pointer ''historyLimit'' (\<lambda>w. decimal_int (sint w)) (idHistoryLimit sp))))"

subsection \<open>What the serialised form forgets\<close>

text \<open>
  Two specs with the same JSON form up to the nil or empty distinction: \<open>omitempty\<close> drops both.
\<close>

definition norm_slice :: "'a list option \<Rightarrow> 'a list option" where
  "norm_slice s = (if slice_items s = [] then None else s)"

definition norm_map :: "'v gomap option \<Rightarrow> 'v gomap option" where
  "norm_map m = (if m = Some fmempty then None else m)"

definition norm_resources :: "ResourceRequirements \<Rightarrow> ResourceRequirements" where
  "norm_resources r = r\<lparr>rrLimits := norm_map (rrLimits r), rrRequests := norm_map (rrRequests r),
     rrClaims := norm_slice (rrClaims r)\<rparr>"

definition norm_pod_config :: "PodConfig \<Rightarrow> PodConfig" where
  "norm_pod_config pc = pc\<lparr>pcPartitions := norm_slice (pcPartitions pc),
     pcResources := norm_resources (pcResources pc)\<rparr>"

definition norm_entity :: "StatefulEntity \<Rightarrow> StatefulEntity" where
  "norm_entity se = se\<lparr>sePods := map_option (map norm_pod_config) (norm_slice (sePods se))\<rparr>"

definition norm_spec :: "InvokerDeploymentSpec \<Rightarrow> InvokerDeploymentSpec" where
  "norm_spec sp = sp\<lparr>idImagePullSecrets := norm_slice (idImagePullSecrets sp),
     idStatefulEntities := map_option (map norm_entity) (norm_slice (idStatefulEntities sp))\<rparr>"

lemma slice_items_norm_slice [simp]: "slice_items (norm_slice s) = slice_items s"
  by (simp add: norm_slice_def split: option.splits)

lemma slice_items_map_option [simp]: "slice_items (map_option (map f) s) = map f (slice_items s)"
  by (cases s) simp_all

lemma field_resource_list_norm [simp]:
  "field_resource_list qjson name (norm_map om) = field_resource_list qjson name om"
  by (auto simp: field_resource_list_def norm_map_def split: option.splits)

lemma marshal_all_map: "marshal_all enc (map f xs) = marshal_all (\<lambda>x. enc (f x)) xs"
  by (induction xs) (simp_all cong: sum.case_cong)

lemma marshalPodConfig_norm [simp]: "marshalPodConfig qjson (norm_pod_config pc) = marshalPodConfig qjson pc"
  by (simp add: marshalPodConfig_def marshalResources_def norm_pod_config_def norm_resources_def
      cong: sum.case_cong)

lemma marshalStatefulEntity_norm [simp]:
  "marshalStatefulEntity qjson (norm_entity se) = marshalStatefulEntity qjson se"
  by (simp add: marshalStatefulEntity_def norm_entity_def marshal_all_map
      cong: sum.case_cong)

lemma marshalSpec_norm: "marshalSpec qjson (norm_spec sp) = marshalSpec qjson sp"
  by (simp add: marshalSpec_def norm_spec_def marshal_all_map cong: sum.case_cong)

text \<open>The encoder fails exactly when some quantity of the spec has no JSON form.\<close>

lemma marshal_all_Inr_iff:
  "(\<exists>vs. marshal_all enc xs = Inr vs) \<longleftrightarrow> (\<forall>x \<in> set xs. \<exists>v. enc x = Inr v)"
  by (induction xs) (auto split: sum.splits)

end
