(* ===== verification/Json_Parser.thy ===== *)
theory Json_Parser
  imports Spec_Json
begin

section \<open>encoding/json: reading a JSON text\<close>

text \<open>
  The standard library's reader, as \<open>json.Unmarshal\<close> uses it: a text is read as one JSON value
  with white space around its tokens, nested at most 10000 deep (\<open>maxNestingDepth\<close>).  A string
  is unquoted while it is read: surrogate escapes that form no pair and bytes that form no rune
  become U+FFFD, a control character is a syntax error.  A number keeps its text.  A member of
  an object keeps the text of its value beside the value, because a type with its own
  \<open>UnmarshalJSON\<close> is handed that text.  Texts are lists of bytes.
\<close>

datatype json =
    JNull
  | JBool bool
  | JNumber string
  | JString string
  | JArray "json list"
  | JObject "(string \<times> string \<times> json) list"

subsection \<open>White space, numbers, literals\<close>

definition is_ws :: "char \<Rightarrow> bool" where
  "is_ws c \<longleftrightarrow> c = CHR '' '' \<or> c = CHR 0x09 \<or> c = CHR 0x0A \<or> c = CHR 0x0D"

fun skip_ws :: "string \<Rightarrow> string" where
  "skip_ws [] = []"
| "skip_ws (c # s) = (if is_ws c then skip_ws s else c # s)"

lemma length_skip_ws: "length (skip_ws s) \<le> length s"
  by (induction s) auto

lemma skip_ws_ConsD: "skip_ws s = c # t \<Longrightarrow> length t < length s"
  using length_skip_ws [of s] by simp

text \<open>One or more digits.\<close>

definition read_digits :: "string \<Rightarrow> (string \<times> string) option" where
  "read_digits s =
     (let ds = takeWhile is_digit s in if ds = [] then None else Some (ds, dropWhile is_digit s))"

definition read_integer :: "string \<Rightarrow> (string \<times> string) option" where
  "read_integer s =
     (case s of
        [] \<Rightarrow> None
      | c # t \<Rightarrow> if c = CHR ''0'' then Some ([c], t) else read_digits s)"

definition read_fraction :: "string \<Rightarrow> (string \<times> string) option" where
  "read_fraction s =
     (case s of
        [] \<Rightarrow> Some ([], s)
      | c # t \<Rightarrow>
        if c = CHR ''.'' then map_option (\<lambda>(ds, u). (c # ds, u)) (read_digits t) else Some ([], s))"

definition read_exponent :: "string \<Rightarrow> (string \<times> string) option" where
  "read_exponent s =
     (case s of
        [] \<Rightarrow> Some ([], s)
      | c # t \<Rightarrow>
        if c = CHR ''e'' \<or> c = CHR ''E'' then
          (case t of
             [] \<Rightarrow> None
           | d # u \<Rightarrow>
             if d = CHR ''+'' \<or> d = CHR ''-'' then map_option (\<lambda>(ds, v). (c # d # ds, v)) (read_digits u)
             else map_option (\<lambda>(ds, v). (c # ds, v)) (read_digits t))
        else Some ([], s))"

definition read_number :: "string \<Rightarrow> (string \<times> string) option" where
  "read_number s =
     (let (sign, s1) = (case s of [] \<Rightarrow> ([], s) | c # t \<Rightarrow> if c = CHR ''-'' then ([c], t) else ([], s))
      in case read_integer s1 of
           None \<Rightarrow> None
         | Some (ds, s2) \<Rightarrow>
           (case read_fraction s2 of
              None \<Rightarrow> None
            | Some (fr, s3) \<Rightarrow>
              (case read_exponent s3 of
                 None \<Rightarrow> None
               | Some (ex, s4) \<Rightarrow> Some (sign @ ds @ fr @ ex, s4))))"

lemma read_digits_length: "read_digits s = Some (ds, r) \<Longrightarrow> length r < length s"
  using length_dropWhile_le [of is_digit s]
  by (cases s) (auto simp: read_digits_def Let_def split: if_splits intro: le_less_trans [OF length_dropWhile_le])

lemma read_integer_length: "read_integer s = Some (ds, r) \<Longrightarrow> length r < length s"
  by (auto simp: read_integer_def dest: read_digits_length split: list.splits if_splits)

lemma read_fraction_length: "read_fraction s = Some (ds, r) \<Longrightarrow> length r \<le> length s"
  by (auto simp: read_fraction_def dest!: read_digits_length split: list.splits if_splits)

lemma read_exponent_length: "read_exponent s = Some (ds, r) \<Longrightarrow> length r \<le> length s"
  by (auto simp: read_exponent_def dest!: read_digits_length split: list.splits if_splits)

lemma read_number_length:
  assumes "read_number s = Some (raw, r)"
  shows "length r < length s"
proof -
  define s1 where "s1 = (case s of [] \<Rightarrow> s | c # t \<Rightarrow> if c = CHR ''-'' then t else s)"
  have "length s1 \<le> length s" by (simp add: s1_def split: list.splits)
  moreover obtain ds s2 fr s3 ex where "read_integer s1 = Some (ds, s2)"
    and "read_fraction s2 = Some (fr, s3)" and "read_exponent s3 = Some (ex, r)"
    using assms by (auto simp: read_number_def s1_def Let_def split: list.splits if_splits option.splits)
  ultimately show ?thesis
    using read_integer_length read_fraction_length read_exponent_length by fastforce
qed

definition read_word :: "string \<Rightarrow> string \<Rightarrow> string option" where
  "read_word w s = (if take (length w) s = w then Some (drop (length w) s) else None)"

definition read_literal :: "string \<Rightarrow> (json \<times> string) option" where
  "read_literal s =
     (case read_word ''null'' s of
        Some r \<Rightarrow> Some (JNull, r)
      | None \<Rightarrow>
        (case read_word ''true'' s of
           Some r \<Rightarrow> Some (JBool True, r)
         | None \<Rightarrow>
           (case read_word ''false'' s of
              Some r \<Rightarrow> Some (JBool False, r)
            | None \<Rightarrow> map_option (map_prod JNumber id) (read_number s))))"

lemma read_word_length: "read_word w s = Some r \<Longrightarrow> length s = length w + length r"
proof -
  assume "read_word w s = Some r"
  then have "take (length w) s = w" and "drop (length w) s = r"
    by (auto simp: read_word_def split: if_splits)
  then have "s = w @ r" using append_take_drop_id [of "length w" s] by simp
  then show ?thesis by simp
qed

lemma read_literal_length: "read_literal s = Some (v, r) \<Longrightarrow> length r < length s"
  by (auto simp: read_literal_def dest: read_word_length read_number_length split: option.splits)

subsection \<open>Strings\<close>

definition hex_value :: "char \<Rightarrow> nat option" where
  "hex_value c =
     (let n = of_char c in
      if 48 \<le> n \<and> n \<le> 57 then Some (n - 48)
      else if 97 \<le> n \<and> n \<le> 102 then Some (n - 87)
      else if 65 \<le> n \<and> n \<le> 70 then Some (n - 55)
      else None)"

definition hex4 :: "char \<Rightarrow> char \<Rightarrow> char \<Rightarrow> char \<Rightarrow> nat option" where
  "hex4 a b c d =
     (case (hex_value a, hex_value b, hex_value c, hex_value d) of
        (Some x, Some y, Some z, Some w) \<Rightarrow> Some (((x * 16 + y) * 16 + z) * 16 + w)
      | _ \<Rightarrow> None)"

text \<open>\<open>utf8.EncodeRune\<close>, on the runes the escapes can name.\<close>

definition encode_rune :: "nat \<Rightarrow> string" where
  "encode_rune r =
     (if r < 0x80 then [char_of r]
      else if r < 0x800 then [char_of (0xC0 + r div 64), char_of (0x80 + r mod 64)]
      else if r < 0x10000 then
        [char_of (0xE0 + r div 4096), char_of (0x80 + r div 64 mod 64), char_of (0x80 + r mod 64)]
      else [char_of (0xF0 + r div 262144), char_of (0x80 + r div 4096 mod 64),
        char_of (0x80 + r div 64 mod 64), char_of (0x80 + r mod 64)])"

definition replacement :: string where
  "replacement = [CHR 0xEF, CHR 0xBF, CHR 0xBD]"

definition is_surrogate :: "nat \<Rightarrow> bool" where
  "is_surrogate r \<longleftrightarrow> 0xD800 \<le> r \<and> r < 0xE000"

text \<open>\<open>getu4\<close>: a \<open>\u\<close> escape at the head of the text, and the text behind it.\<close>

fun getu4 :: "string \<Rightarrow> (nat \<times> string) option" where
  "getu4 (x # y # a # b # c # d # s) =
     (if x = CHR 0x5C \<and> y = CHR ''u'' then map_option (\<lambda>r. (r, s)) (hex4 a b c d) else None)"
| "getu4 _ = None"

text \<open>\<open>utf16.DecodeRune\<close>: the rune of a surrogate pair.\<close>

definition surrogate_pair :: "nat \<Rightarrow> nat \<Rightarrow> nat option" where
  "surrogate_pair r1 r2 =
     (if 0xD800 \<le> r1 \<and> r1 < 0xDC00 \<and> 0xDC00 \<le> r2 \<and> r2 < 0xE000
      then Some ((r1 - 0xD800) * 1024 + (r2 - 0xDC00) + 0x10000) else None)"

text \<open>The bytes a \<open>\u\<close> escape stands for, and the text behind it.\<close>

definition unicode_escape :: "string \<Rightarrow> (string \<times> string) option" where
  "unicode_escape s =
     (case getu4 s of
        None \<Rightarrow> None
      | Some (r, t) \<Rightarrow>
        if \<not> is_surrogate r then Some (encode_rune r, t)
        else
          (case getu4 t of
             None \<Rightarrow> Some (replacement, t)
           | Some (r2, u) \<Rightarrow>
             (case surrogate_pair r r2 of
                None \<Rightarrow> Some (replacement, t)
              | Some p \<Rightarrow> Some (encode_rune p, u))))"

definition simple_escape :: "char \<Rightarrow> char option" where
  "simple_escape c =
     (if c = CHR 0x22 \<or> c = CHR 0x5C \<or> c = CHR ''/'' then Some c
      else if c = CHR ''b'' then Some (CHR 0x08)
      else if c = CHR ''f'' then Some (CHR 0x0C)
      else if c = CHR ''n'' then Some (CHR 0x0A)
      else if c = CHR ''r'' then Some (CHR 0x0D)
      else if c = CHR ''t'' then Some (CHR 0x09)
      else None)"

lemma getu4_length: "getu4 s = Some (r, t) \<Longrightarrow> length s = length t + 6"
  by (cases s rule: getu4.cases) (auto split: if_splits)

lemma unicode_escape_length: "unicode_escape s = Some (bs, t) \<Longrightarrow> length t < length s"
  by (fastforce simp: unicode_escape_def dest: getu4_length split: option.splits if_splits)

text \<open>
  One step of reading the inside of a string: the closing quote, or the bytes the next character
  or escape stands for; \<open>None\<close> is a syntax error.
\<close>

datatype string_step = Closed string | Bytes string string

definition string_step :: "string \<Rightarrow> string_step option" where
  "string_step s =
     (case s of
        [] \<Rightarrow> None
      | c # t \<Rightarrow>
        (let n = of_char c :: nat in
         if c = CHR 0x22 then Some (Closed t)
         else if c = CHR 0x5C then
           (case t of
              [] \<Rightarrow> None
            | e # u \<Rightarrow>
              if e = CHR ''u'' then map_option (\<lambda>(bs, r). Bytes bs r) (unicode_escape s)
              else map_option (\<lambda>b. Bytes [b] u) (simple_escape e))
         else if n < 32 then None
         else if n < 128 then Some (Bytes [c] t)
         else if rune_size s = 0 then Some (Bytes replacement t)
         else Some (Bytes (take (rune_size s) s) (drop (rune_size s) s))))"

lemma rune_size_bound: "rune_size s \<le> length s"
  by (cases s) (auto simp: Let_def split: list.splits)

lemma string_step_length:
  "string_step s = Some (Closed r) \<Longrightarrow> length r < length s"
  "string_step s = Some (Bytes bs r) \<Longrightarrow> length r < length s"
proof -
  show "length r < length s" if "string_step s = Some (Closed r)"
    using that by (auto simp: string_step_def Let_def split: list.splits if_splits)
  show "length r < length s" if step: "string_step s = Some (Bytes bs r)"
  proof (cases s)
    case Nil
    with step show ?thesis by (simp add: string_step_def)
  next
    case (Cons c t)
    from step show ?thesis
      unfolding string_step_def Cons list.case Let_def
      by (auto simp del: rune_size.simps simp: Cons [symmetric] split: if_splits list.splits)
        (auto simp: Cons dest: unicode_escape_length)
  qed
qed

function read_string :: "string \<Rightarrow> (string \<times> string) option" where
  "read_string s =
     (case string_step s of
        None \<Rightarrow> None
      | Some (Closed r) \<Rightarrow> Some ([], r)
      | Some (Bytes bs r) \<Rightarrow> map_option (\<lambda>(v, u). (bs @ v, u)) (read_string r))"
  by pat_completeness auto
termination
  by (relation "measure length") (auto dest: string_step_length)

declare read_string.simps [simp del]

lemma read_string_length: "read_string s = Some (v, r) \<Longrightarrow> length r < length s"
proof (induction s arbitrary: v rule: read_string.induct)
  case (1 s)
  then show ?case
    by (subst (asm) (2) read_string.simps)
      (fastforce dest: string_step_length split: option.splits string_step.splits)
qed

subsection \<open>Values\<close>

text \<open>The text of a value: what was read between two positions.\<close>

definition text_between :: "string \<Rightarrow> string \<Rightarrow> string" where
  "text_between s r = take (length s - length r) s"

text \<open>
  \<open>d\<close> is the number of levels that may still be opened.  The elements of an array and the
  members of an object are read from the position of the first one.
\<close>

function (sequential) parse_value :: "int \<Rightarrow> string \<Rightarrow> (json \<times> string) option"
  and parse_elements :: "int \<Rightarrow> string \<Rightarrow> (json list \<times> string) option"
  and parse_members :: "int \<Rightarrow> string \<Rightarrow> ((string \<times> string \<times> json) list \<times> string) option"
where
  "parse_value d s =
     (case skip_ws s of
        [] \<Rightarrow> None
      | c # t \<Rightarrow>
        if c = CHR 0x22 then
          (case read_string t of None \<Rightarrow> None | Some (v, r) \<Rightarrow> Some (JString v, r))
        else if c = CHR ''['' then
          if d \<le> 0 then None
          else if take 1 (skip_ws t) = '']'' then Some (JArray [], drop 1 (skip_ws t))
          else (case parse_elements (d - 1) t of None \<Rightarrow> None | Some (vs, r) \<Rightarrow> Some (JArray vs, r))
        else if c = CHR ''{'' then
          if d \<le> 0 then None
          else if take 1 (skip_ws t) = ''}'' then Some (JObject [], drop 1 (skip_ws t))
          else (case parse_members (d - 1) t of None \<Rightarrow> None | Some (ms, r) \<Rightarrow> Some (JObject ms, r))
        else read_literal (c # t))"
| "parse_elements d s =
     (case parse_value d s of
        None \<Rightarrow> None
      | Some (v, r) \<Rightarrow>
        (case skip_ws r of
           [] \<Rightarrow> None
         | c # t \<Rightarrow>
           if c = CHR '']'' then Some ([v], t)
           else if c = CHR '','' then
             (case parse_elements d t of None \<Rightarrow> None | Some (vs, u) \<Rightarrow> Some (v # vs, u))
           else None))"
| "parse_members d s =
     (case skip_ws s of
        [] \<Rightarrow> None
      | q # t \<Rightarrow>
        if q \<noteq> CHR 0x22 then None
        else
          (case read_string t of
             None \<Rightarrow> None
           | Some (k, r) \<Rightarrow>
             (case skip_ws r of
                [] \<Rightarrow> None
              | x # u \<Rightarrow>
                if x \<noteq> CHR '':'' then None
                else
                  (case parse_value d u of
                     None \<Rightarrow> None
                   | Some (v, r2) \<Rightarrow>
                     (case skip_ws r2 of
                        [] \<Rightarrow> None
                      | c # w \<Rightarrow>
                        (let m = (k, text_between (skip_ws u) r2, v) in
                         if c = CHR ''}'' then Some ([m], w)
                         else if c = CHR '','' then
                           (case parse_members d w of
                              None \<Rightarrow> None
                            | Some (ms, z) \<Rightarrow> Some (m # ms, z))
                         else None))))))"
  by pat_completeness auto

text \<open>
  Termination: whatever was read is shorter than the text, which is known for the recursive calls
  once it is known where the function is defined.
\<close>

lemma parse_shorter_dom:
  "parse_value_parse_elements_parse_members_dom (Inl (d, s)) \<Longrightarrow>
     parse_value d s = Some (v, r) \<Longrightarrow> length r < length s"
  "parse_value_parse_elements_parse_members_dom (Inr (Inl (d, s))) \<Longrightarrow>
     parse_elements d s = Some (vs, r) \<Longrightarrow> length r < length s"
  "parse_value_parse_elements_parse_members_dom (Inr (Inr (d, s))) \<Longrightarrow>
     parse_members d s = Some (ms, r) \<Longrightarrow> length r < length s"
proof (induction d s and d s and d s arbitrary: v r and vs r and ms r
    rule: parse_value_parse_elements_parse_members.pinduct)
  case (1 d s)
  show ?case
  proof (cases "skip_ws s")
    case Nil
    with "1.prems" show ?thesis by (simp add: parse_value.psimps [OF "1.hyps"])
  next
    case (Cons c t)
    have t: "length t < length s" "length (skip_ws t) \<le> length t"
      using skip_ws_ConsD [OF Cons] length_skip_ws by auto
    have lit: "read_literal (c # t) = Some (v, r) \<Longrightarrow> length r < length s"
      using read_literal_length [of "c # t" v r] length_skip_ws [of s] by (simp add: Cons)
    show ?thesis
    proof (cases "c = CHR ''['' \<and> \<not> d \<le> 0 \<and> take 1 (skip_ws t) \<noteq> '']'' \<or>
        c = CHR ''{'' \<and> \<not> d \<le> 0 \<and> take 1 (skip_ws t) \<noteq> ''}''")
      case True
      then show ?thesis
        using "1.prems" "1.IH" [OF Cons] t
        by (auto simp: parse_value.psimps [OF "1.hyps"] Cons split: option.splits)
    next
      case False
      then show ?thesis
        using "1.prems" t lit
        by (auto simp: parse_value.psimps [OF "1.hyps"] Cons dest!: read_string_length
            split: option.splits if_splits)
    qed
  qed
next
  case (2 d s)
  from "2.prems" obtain v q c t where v: "parse_value d s = Some (v, q)" and t: "skip_ws q = c # t"
    and rest: "(if c = CHR '']'' then Some ([v], t)
       else if c = CHR '','' then
         (case parse_elements d t of None \<Rightarrow> None | Some (vs, u) \<Rightarrow> Some (v # vs, u))
       else None) = Some (vs, r)"
    by (auto simp: parse_elements.psimps [OF "2.hyps"] split: option.splits list.splits)
  have "length q < length s" using "2.IH"(1) [OF v] .
  moreover have "length t < length q" using skip_ws_ConsD [OF t] .
  moreover have "length r \<le> length t"
    using rest "2.IH"(2) [OF v _ t] by (auto split: if_splits option.splits intro: less_imp_le)
  ultimately show ?case by simp
next
  case (3 d s)
  from "3.prems" obtain t k q u v z c w where t: "skip_ws s = CHR 0x22 # t"
    and k: "read_string t = Some (k, q)" and u: "skip_ws q = CHR '':'' # u"
    and v: "parse_value d u = Some (v, z)" and w: "skip_ws z = c # w"
    and rest: "(let m = (k, text_between (skip_ws u) z, v) in
       if c = CHR ''}'' then Some ([m], w)
       else if c = CHR '','' then
         (case parse_members d w of None \<Rightarrow> None | Some (ms, z) \<Rightarrow> Some (m # ms, z))
       else None) = Some (ms, r)"
    by (auto simp: parse_members.psimps [OF "3.hyps"] split: option.splits list.splits if_splits)
  have "length t < length s" "length q < length t" "length u < length q" "length w < length z"
    using skip_ws_ConsD [OF t] read_string_length [OF k] skip_ws_ConsD [OF u] skip_ws_ConsD [OF w] .
  moreover have "length z < length u" using "3.IH"(1) [OF t _ k _ u _ v] by simp
  moreover have "length r \<le> length w"
    using rest "3.IH"(2) [OF t _ k _ u _ v _ w] by (auto simp: Let_def split: if_splits option.splits intro: less_imp_le)
  ultimately show ?case by simp
qed

termination parse_value
proof (relation "measure (case_sum (\<lambda>(d, s). 2 * length s)
    (case_sum (\<lambda>(d, s). 2 * length s + 1) (\<lambda>(d, s). 2 * length s + 1)))", goal_cases)
  case 1
  show ?case by simp
next
  case (2 d s c t)
  with skip_ws_ConsD [of s c t] show ?case by simp
next
  case (3 d s c t)
  with skip_ws_ConsD [of s c t] show ?case by simp
next
  case (4 d s)
  show ?case by simp
next
  case (5 d s x v r c t)
  then show ?case
    using parse_shorter_dom(1) [of d s v r] skip_ws_ConsD [of r c t] by simp
next
  case (6 d s q t x k r y u)
  then show ?case 
    using skip_ws_ConsD [of s q t] read_string_length [of t k r] skip_ws_ConsD [of r y u] by simp
next
  case (7 d s q t x k r y u x' v z c w)
  then show ?case 
    using skip_ws_ConsD [of s q t] read_string_length [of t k r] skip_ws_ConsD [of r y u]
    parse_shorter_dom(1) [of d u v z] skip_ws_ConsD [of z c w] by simp
qed

lemmas parse_rec_simps = parse_value.simps parse_elements.simps parse_members.simps

declare parse_rec_simps [simp del]

text \<open>\<open>maxNestingDepth\<close> of the standard library; behind the value only white space may follow.\<close>

definition max_nesting_depth :: int where "max_nesting_depth = 10000"

definition parse_json :: "string \<Rightarrow> json option" where
  "parse_json s =
     (case parse_value max_nesting_depth s of
        None \<Rightarrow> None
      | Some (v, r) \<Rightarrow> if skip_ws r = [] then Some v else None)"

end
