(* ===== verification/Json_Roundtrip.thy ===== *)
theory Json_Roundtrip
  imports Json_Parser
begin

section \<open>Reading back what was written\<close>

text \<open>
  The reader of \<open>Json_Parser\<close> inverts the writer of \<open>Spec_Json\<close>: first for strings, where the
  writer's replacement of ill-formed bytes is the only loss, then for whole values.
\<close>

subsection \<open>UTF-8\<close>

text \<open>A string as it is read back: every byte that starts no rune becomes U+FFFD.\<close>

function clean_utf8 :: "string \<Rightarrow> string" where
  "clean_utf8 [] = []"
| "clean_utf8 (c # s) =
     (if rune_size (c # s) = 0 then replacement @ clean_utf8 s
      else take (rune_size (c # s)) (c # s) @ clean_utf8 (drop (rune_size (c # s) - 1) s))"
  by pat_completeness auto
termination
  by (relation "measure length") auto

function valid_utf8 :: "string \<Rightarrow> bool" where
  "valid_utf8 [] = True"
| "valid_utf8 (c # s) =
     (rune_size (c # s) \<noteq> 0 \<and> valid_utf8 (drop (rune_size (c # s) - 1) s))"
  by pat_completeness auto
termination
  by (relation "measure length") auto

declare rune_size.simps [simp del] clean_utf8.simps(2) [simp del] valid_utf8.simps(2) [simp del]

lemma clean_valid [simp]: "valid_utf8 s \<Longrightarrow> clean_utf8 s = s"
proof (induction s rule: valid_utf8.induct)
  case 1
  then show ?case by simp
next
  case (2 c s)
  from "2.prems" have n: "rune_size (c # s) \<noteq> 0" and "valid_utf8 (drop (rune_size (c # s) - 1) s)"
    by (simp_all add: valid_utf8.simps(2))
  with 2 have "clean_utf8 (drop (rune_size (c # s) - 1) s) = drop (rune_size (c # s) - 1) s" by blast
  moreover have "drop (rune_size (c # s) - 1) s = drop (rune_size (c # s)) (c # s)"
    using n by (cases "rune_size (c # s)") simp_all
  ultimately show ?case using n by (simp add: clean_utf8.simps(2))
qed

lemma rune_size_ascii: "(of_char c :: nat) < 128 \<Longrightarrow> rune_size (c # s) = 1"
  by (simp add: rune_size.simps)

lemma clean_ascii: "(of_char c :: nat) < 128 \<Longrightarrow> clean_utf8 (c # s) = c # clean_utf8 s"
  by (simp add: clean_utf8.simps(2) rune_size_ascii)

lemma valid_ascii: "list_all (\<lambda>c. (of_char c :: nat) < 128) s \<Longrightarrow> valid_utf8 s"
  by (induction s) (simp_all add: valid_utf8.simps(2) rune_size_ascii)

text \<open>A rune is recognised by its own bytes, whatever follows, and a text that ends in it too.\<close>

lemma rune_size_prefix:
  assumes "rune_size (c # s) \<noteq> 0"
  obtains bs t where "c # s = bs @ t" and "length bs = rune_size (c # s)"
    and "\<And>u. rune_size (bs @ u) = rune_size (c # s)" and "128 \<le> (of_char c :: nat) \<Longrightarrow> 2 \<le> length bs"
proof -
  let ?n = "of_char c :: nat"
  consider "?n < 128" | "0xC2 \<le> ?n" "?n \<le> 0xDF" | "0xE0 \<le> ?n" "?n \<le> 0xEF" | "0xF0 \<le> ?n" "?n \<le> 0xF4"
    using assms by (force simp: rune_size.simps Let_def)
  then show thesis
  proof cases
    case 1
    then show thesis by (intro that [of "[c]" s]) (simp_all add: rune_size.simps)
  next
    case 2
    with assms obtain c1 t where "s = c1 # t" and "cont_byte 0x80 0xBF c1"
      by (auto simp: rune_size.simps Let_def split: list.splits if_splits)
    with 2 show thesis by (intro that [of "[c, c1]" t]) (simp_all add: rune_size.simps)
  next
    case 3
    with assms obtain c1 c2 t where "s = c1 # c2 # t"
      and "cont_byte (if ?n = 0xE0 then 0xA0 else 0x80) (if ?n = 0xED then 0x9F else 0xBF) c1 \<and>
        cont_byte 0x80 0xBF c2"
      by (simp add: rune_size.simps Let_def split: list.splits if_split_asm)
    with 3 show thesis by (intro that [of "[c, c1, c2]" t]) (simp_all add: rune_size.simps Let_def)
  next
    case 4
    with assms obtain c1 c2 c3 t where "s = c1 # c2 # c3 # t"
      and "cont_byte (if ?n = 0xF0 then 0x90 else 0x80) (if ?n = 0xF4 then 0x8F else 0xBF) c1 \<and>
        cont_byte 0x80 0xBF c2 \<and> cont_byte 0x80 0xBF c3"
      by (simp add: rune_size.simps Let_def split: list.splits if_split_asm)
    with 4 show thesis by (intro that [of "[c, c1, c2, c3]" t]) (simp_all add: rune_size.simps Let_def)
  qed
qed

lemma rune_size_take:
  assumes "rune_size (c # s) \<noteq> 0"
  shows "rune_size (take (rune_size (c # s)) (c # s) @ t) = rune_size (c # s)"
  using rune_size_prefix [OF assms] by (metis append_eq_conv_conj)

subsection \<open>Strings\<close>

lemma char_of_quotes [simp]: "char_of (92 :: nat) = CHR 0x5C" "char_of (34 :: nat) = CHR 0x22"
  by code_simp+

lemma char_eq_iff_of_char: "c = d \<longleftrightarrow> (of_char c :: nat) = of_char d"
  by auto

lemma hex_value_json_hex: "d < 16 \<Longrightarrow> hex_value (json_hex d) = Some d"
proof -
  assume "d < 16"
  then have "d \<in> set [0..<16]" by simp
  moreover have "\<forall>d \<in> set [0..<16]. hex_value (json_hex d) = Some d" by code_simp
  ultimately show ?thesis by blast
qed

lemma hex4_low: "n < 256 \<Longrightarrow> hex4 (CHR ''0'') (CHR ''0'') (json_hex (n div 16)) (json_hex (n mod 16)) = Some n"
proof -
  assume "n < 256"
  moreover have "hex_value (CHR ''0'') = Some 0" by code_simp
  ultimately show ?thesis by (simp add: hex4_def hex_value_json_hex)
qed

lemma string_step_ascii:
  assumes "(of_char c :: nat) < 128"
  shows "string_step (json_escape_ascii c @ t) = Some (Bytes [c] t)"
proof -
  let ?n = "of_char c :: nat"
  have c: "c = char_of ?n" by simp
  consider "?n = 92" | "?n = 34" | "?n = 10" | "?n = 13" | "?n = 9"
    | "?n < 32 \<or> c = CHR ''<'' \<or> c = CHR ''>'' \<or> c = CHR ''&''" "?n \<notin> {92, 34, 10, 13, 9}"
    | "32 \<le> ?n" "?n \<notin> {92, 34, 60, 62, 38}"
    using linorder_not_less [of ?n 32] by (simp add: char_eq_iff_of_char) metis
  then show ?thesis
  proof cases
    case 6
    then have esc: "json_escape_ascii c @ t =
        CHR 0x5C # CHR ''u'' # CHR ''0'' # CHR ''0'' # json_hex (?n div 16) # json_hex (?n mod 16) # t"
      by (auto simp: json_escape_ascii_def Let_def)
    have "unicode_escape (json_escape_ascii c @ t) = Some ([c], t)"
      using assms hex4_low [of ?n]
      by (simp add: esc unicode_escape_def is_surrogate_def encode_rune_def)
    then show ?thesis by (simp add: string_step_def esc)
  next
    case 7
    then have "json_escape_ascii c = [c]" by (auto simp: json_escape_ascii_def Let_def char_eq_iff_of_char)
    with 7 assms show ?thesis by (auto simp: string_step_def Let_def char_eq_iff_of_char)
  qed (auto simp: json_escape_ascii_def string_step_def simple_escape_def Let_def char_eq_iff_of_char)
qed

lemma string_step_rune:
  assumes "128 \<le> (of_char c :: nat)" and "rune_size (c # s) \<noteq> 0"
  shows "string_step (take (rune_size (c # s)) (c # s) @ t) =
    Some (Bytes (take (rune_size (c # s)) (c # s)) t)"
proof -
  let ?k = "rune_size (c # s)" and ?u = "take (rune_size (c # s)) (c # s) @ t"
  obtain u where u: "?u = c # u" using assms(2) by (cases ?k) simp_all
  have size: "rune_size ?u = ?k" using rune_size_take [OF assms(2)] .
  have "length (take ?k (c # s)) = ?k" using rune_size_bound [of "c # s"] by simp
  then have "take ?k ?u = take ?k (c # s)" and "drop ?k ?u = t" by simp_all
  with size assms show ?thesis
    unfolding string_step_def u list.case by (auto simp: Let_def char_eq_iff_of_char)
qed

lemma string_step_separator:
  "string_step (CHR 0x5C # ''u2028'' @ t) = Some (Bytes [CHR 0xE2, CHR 0x80, CHR 0xA8] t)"
  "string_step (CHR 0x5C # ''u2029'' @ t) = Some (Bytes [CHR 0xE2, CHR 0x80, CHR 0xA9] t)"
  "string_step (CHR 0x5C # ''ufffd'' @ t) = Some (Bytes replacement t)"
proof -
  have "hex4 (CHR ''2'') (CHR ''0'') (CHR ''2'') (CHR ''8'') = Some 8232"
    "hex4 (CHR ''2'') (CHR ''0'') (CHR ''2'') (CHR ''9'') = Some 8233"
    "hex4 (CHR ''f'') (CHR ''f'') (CHR ''f'') (CHR ''d'') = Some 65533"
    by (simp_all add: hex4_def hex_value_def)
  moreover have "encode_rune 8232 = [CHR 0xE2, CHR 0x80, CHR 0xA8]"
    "encode_rune 8233 = [CHR 0xE2, CHR 0x80, CHR 0xA9]" "encode_rune 65533 = replacement"
    by (simp_all add: encode_rune_def replacement_def) code_simp+
  ultimately show "string_step (CHR 0x5C # ''u2028'' @ t) = Some (Bytes [CHR 0xE2, CHR 0x80, CHR 0xA8] t)"
    "string_step (CHR 0x5C # ''u2029'' @ t) = Some (Bytes [CHR 0xE2, CHR 0x80, CHR 0xA9] t)"
    "string_step (CHR 0x5C # ''ufffd'' @ t) = Some (Bytes replacement t)"
    by (simp_all add: string_step_def unicode_escape_def is_surrogate_def)
qed

lemma read_string_step:
  "string_step s = Some (Bytes bs r) \<Longrightarrow> read_string s = map_option (\<lambda>(v, u). (bs @ v, u)) (read_string r)"
  "string_step s = Some (Closed r) \<Longrightarrow> read_string s = Some ([], r)"
  by (simp_all add: read_string.simps [of s])

lemma line_separator_size:
  assumes "line_separator (c # s) = Some d"
  shows "rune_size (c # s) = 3" and "(d = CHR ''8'' \<and> take 3 (c # s) = [CHR 0xE2, CHR 0x80, CHR 0xA8])
    \<or> (d = CHR ''9'' \<and> take 3 (c # s) = [CHR 0xE2, CHR 0x80, CHR 0xA9])"
proof -
  have E2: "of_char (CHR 0xE2) = (0xE2 :: nat)" "of_char (CHR 0x80) = (0x80 :: nat)"
    "of_char (CHR 0xA8) = (0xA8 :: nat)" "of_char (CHR 0xA9) = (0xA9 :: nat)" by code_simp+
  obtain c1 c2 t where s: "s = c1 # c2 # t"
    using assms by (cases s rule: remdups_adj.cases) (auto simp: line_separator_def Let_def split: if_splits)
  with assms have "c = CHR 0xE2" and "c1 = CHR 0x80"
    and c2: "c2 = CHR 0xA8 \<and> d = CHR ''8'' \<or> c2 = CHR 0xA9 \<and> d = CHR ''9''"
    by (auto simp: line_separator_def Let_def char_eq_iff_of_char split: if_splits)
  with s show "rune_size (c # s) = 3"
    and "(d = CHR ''8'' \<and> take 3 (c # s) = [CHR 0xE2, CHR 0x80, CHR 0xA8])
      \<or> (d = CHR ''9'' \<and> take 3 (c # s) = [CHR 0xE2, CHR 0x80, CHR 0xA9])"
    by (auto simp: rune_size.simps cont_byte_def E2)
qed

theorem read_json_escape:
  "read_string (json_escape s @ CHR 0x22 # rest) = Some (clean_utf8 s, rest)"
proof (induction s rule: json_escape.induct)
  case 1
  have "string_step (CHR 0x22 # rest) = Some (Closed rest)" by (simp add: string_step_def)
  then show ?case by (simp add: read_string_step(2))
next
  case (2 c s)
  let ?n = "of_char c :: nat" and ?k = "rune_size (c # s)"
  show ?case
  proof (cases "?n < 128")
    case True
    with 2(1) show ?thesis by (simp add: read_string_step(1) [OF string_step_ascii] clean_ascii)
  next
    case high: False
    show ?thesis
    proof (cases "?k = 0")
      case True
      with high 2(2) show ?thesis
        using read_string_step(1) [OF string_step_separator(3)] by (simp add: clean_utf8.simps(2))
    next
      case k: False
      show ?thesis
      proof (cases "line_separator (c # s)")
        case None
        have "json_escape (c # s) = take ?k (c # s) @ json_escape (drop (?k - 1) s)"
          using high k None by simp
        with 2(3) [OF high k None] high k show ?thesis
          using read_string_step(1) [OF string_step_rune [of c s]]
          by (simp add: clean_utf8.simps(2) del: json_escape.simps)
      next
        case (Some d)
        with high k 2(4) [OF high k Some] show ?thesis
          using line_separator_size [OF Some]
            read_string_step(1) [OF string_step_separator(1)] read_string_step(1) [OF string_step_separator(2)]
          by (auto simp: clean_utf8.simps(2))
      qed
    qed
  qed
qed

subsection \<open>Numbers\<close>

text \<open>What may follow a value inside an array or an object, or at the end of the text.\<close>

definition ends_value :: "string \<Rightarrow> bool" where
  "ends_value r \<longleftrightarrow> r = [] \<or> hd r = CHR '','' \<or> hd r = CHR '']'' \<or> hd r = CHR ''}''"

lemma ends_value_simps [simp]:
  "ends_value []" "ends_value (c # r) \<longleftrightarrow> c = CHR '','' \<or> c = CHR '']'' \<or> c = CHR ''}''"
  by (simp_all add: ends_value_def)

lemma ends_value_cases:
  assumes "ends_value r"
  obtains "r = []" | c t where "r = c # t" and "\<not> is_digit c" and "c \<notin> {CHR ''.'', CHR ''e'', CHR ''E''}"
    and "\<not> is_ws c"
proof -
  have "\<forall>c \<in> set '',]}''. \<not> is_digit c \<and> c \<notin> {CHR ''.'', CHR ''e'', CHR ''E''} \<and> \<not> is_ws c"
    by code_simp
  with assms that show thesis by (cases r) auto
qed

lemma read_digits_decimal:
  "ends_value r \<Longrightarrow> read_digits (decimal_nat n @ r) = Some (decimal_nat n, r)"
  by (erule ends_value_cases)
    (use decimal_nat_digits [of n] in \<open>simp_all add: read_digits_def Let_def list_all_iff
      takeWhile_eq_all_conv [THEN iffD2] dropWhile_eq_Nil_conv [THEN iffD2]\<close>)

lemma read_integer_decimal:
  assumes "ends_value r"
  shows "read_integer (decimal_nat n @ r) = Some (decimal_nat n, r)"
proof (cases "n = 0")
  case True
  then show ?thesis by (simp add: read_integer_def decimal_nat.simps digit_char_def) code_simp
next
  case False
  obtain c t where ct: "decimal_nat n = c # t" by (cases "decimal_nat n") simp_all
  with False hd_decimal_nat [of n] have "c \<noteq> CHR ''0''" by auto
  then show ?thesis
    using read_digits_decimal [OF assms, of n] by (simp add: read_integer_def ct)
qed

lemma read_number_decimal:
  assumes r: "ends_value r"
  shows "read_number (decimal_int i @ r) = Some (decimal_int i, r)"
proof -
  have fr: "read_fraction r = Some ([], r)" and ex: "read_exponent r = Some ([], r)"
    using r by (auto elim!: ends_value_cases simp: read_fraction_def read_exponent_def split: if_splits)
  have int: "read_integer (decimal_nat n @ r) = Some (decimal_nat n, r)" for n
    by (rule read_integer_decimal [OF r])
  show ?thesis
  proof (cases "i < 0")
    case True
    then show ?thesis by (simp add: read_number_def decimal_int_def int fr ex)
  next
    case False
    have minus: "\<not> is_digit (CHR ''-'')" by code_simp
    obtain c t where ct: "decimal_nat (nat i) = c # t" by (cases "decimal_nat (nat i)") simp_all
    with decimal_nat_digits [of "nat i"] minus have "c \<noteq> CHR ''-''" by auto
    with False int [of "nat i"] show ?thesis by (simp add: read_number_def decimal_int_def ct fr ex)
  qed
qed

subsection \<open>Values\<close>

fun print_json :: "json \<Rightarrow> string" where
  "print_json JNull = ''null''"
| "print_json (JBool b) = (if b then ''true'' else ''false'')"
| "print_json (JNumber raw) = raw"
| "print_json (JString s) = json_string s"
| "print_json (JArray vs) = json_array (map print_json vs)"
| "print_json (JObject ms) = json_object (map (\<lambda>(k, raw, v). (k, raw)) ms)"

text \<open>\<open>strconv.ParseInt\<close> on the text of a JSON number.\<close>

definition parse_int :: "string \<Rightarrow> int option" where
  "parse_int s =
     (case s of
        [] \<Rightarrow> None
      | c # t \<Rightarrow>
        (let ds = (if c = CHR ''-'' then t else s);
             n = int (read_decimal ds)
         in if ds = [] \<or> \<not> list_all is_digit ds then None
            else Some (if c = CHR ''-'' then - n else n)))"

lemma parse_int_decimal [simp]: "parse_int (decimal_int i) = Some i"
proof -
  have minus: "\<not> is_digit (CHR ''-'')" by code_simp
  obtain c t where "decimal_nat (nat i) = c # t" by (cases "decimal_nat (nat i)") simp_all
  with decimal_nat_digits [of "nat i"] minus have "c \<noteq> CHR ''-''" by auto
  then show ?thesis
    using decimal_nat_digits [of "nat i"] decimal_nat_digits [of "nat (- i)"]
      read_decimal_nat [of "nat i"] \<open>decimal_nat (nat i) = c # t\<close>
    by (auto simp: parse_int_def decimal_int_def read_decimal_nat Let_def)
qed

text \<open>
  The values the writer produces: integers in their shortest form, well-formed UTF-8, members
  whose text is the printed value, at most \<open>d\<close> levels.
\<close>

fun printable :: "int \<Rightarrow> json \<Rightarrow> bool" where
  "printable d JNull = True"
| "printable d (JBool b) = True"
| "printable d (JNumber raw) = (case parse_int raw of None \<Rightarrow> False | Some i \<Rightarrow> raw = decimal_int i)"
| "printable d (JString s) = valid_utf8 s"
| "printable d (JArray vs) = (0 < d \<and> list_all (printable (d - 1)) vs)"
| "printable d (JObject ms) = (0 < d \<and>
     list_all (\<lambda>(k, raw, v). valid_utf8 k \<and> raw = print_json v \<and> printable (d - 1) v) ms)"

lemma skip_ws_not_ws: "\<not> is_ws c \<Longrightarrow> skip_ws (c # s) = c # s"
  by simp

lemma text_between_append [simp]: "text_between (s @ r) r = s"
  by (simp add: text_between_def)

lemma not_ws [simp]:
  "\<not> is_ws (CHR 0x22)" "\<not> is_ws (CHR ''['')" "\<not> is_ws (CHR ''{'')" "\<not> is_ws (CHR '']'')"
  "\<not> is_ws (CHR ''}'')" "\<not> is_ws (CHR '','')" "\<not> is_ws (CHR '':'')"
  by (simp_all add: is_ws_def)

lemma skip_ws_ends [simp]: "ends_value r \<Longrightarrow> skip_ws r = r"
  by (erule ends_value_cases) simp_all

text \<open>How a printed value begins.\<close>

definition starts_value :: "char \<Rightarrow> bool" where
  "starts_value c \<longleftrightarrow> \<not> is_ws c \<and> c \<noteq> CHR '']'' \<and> c \<noteq> CHR ''}''"

lemma decimal_int_starts:
  "\<exists>c t. decimal_int i = c # t \<and> starts_value c \<and> c \<noteq> CHR 0x22 \<and> c \<noteq> CHR ''['' \<and> c \<noteq> CHR ''{''
     \<and> c \<noteq> CHR ''n'' \<and> c \<noteq> CHR ''t'' \<and> c \<noteq> CHR ''f''"
proof -
  have digit: "is_digit c \<Longrightarrow> starts_value c \<and> c \<noteq> CHR 0x22 \<and> c \<noteq> CHR ''['' \<and> c \<noteq> CHR ''{''
      \<and> c \<noteq> CHR ''n'' \<and> c \<noteq> CHR ''t'' \<and> c \<noteq> CHR ''f''" for c
    by (auto simp: is_digit_def starts_value_def is_ws_def)
  obtain c t where "decimal_nat (nat i) = c # t" by (cases "decimal_nat (nat i)") simp_all
  with decimal_nat_digits [of "nat i"] digit [of c] show ?thesis
    by (auto simp: decimal_int_def starts_value_def is_ws_def)
qed

lemma print_json_starts: "printable d v \<Longrightarrow> \<exists>c t. print_json v = c # t \<and> starts_value c"
proof (cases v)
  case (JNumber raw)
  assume "printable d v"
  with JNumber obtain i where "raw = decimal_int i" by (auto split: option.splits)
  with JNumber decimal_int_starts [of i] show ?thesis by auto
qed (simp_all add: json_string_def json_array_def json_object_def starts_value_def is_ws_def)

lemma read_literal_decimal:
  assumes "ends_value r"
  shows "read_literal (decimal_int i @ r) = Some (JNumber (decimal_int i), r)"
proof -
  obtain c t where ct: "decimal_int i = c # t" and c: "c \<noteq> CHR ''n''" "c \<noteq> CHR ''t''" "c \<noteq> CHR ''f''"
    using decimal_int_starts [of i] by blast
  then have "read_word ''null'' (decimal_int i @ r) = None" "read_word ''true'' (decimal_int i @ r) = None"
    "read_word ''false'' (decimal_int i @ r) = None"
    by (simp_all add: read_word_def)
  then show ?thesis by (simp add: read_literal_def read_number_decimal [OF assms])
qed

lemma parse_value_literal:
  assumes "s = c # t" and "starts_value c" and "c \<noteq> CHR 0x22" "c \<noteq> CHR ''[''" "c \<noteq> CHR ''{''"
  shows "parse_value d s = read_literal s"
  using assms by (simp add: parse_value.simps [of d "c # t"] starts_value_def)

lemma read_literal_words:
  "read_literal (''null'' @ r) = Some (JNull, r)"
  "read_literal (''true'' @ r) = Some (JBool True, r)"
  "read_literal (''false'' @ r) = Some (JBool False, r)"
  by (simp_all add: read_literal_def read_word_def)

lemma parse_elements_print:
  assumes "\<And>v r. v \<in> set vs \<Longrightarrow> ends_value r \<Longrightarrow> parse_value d (print_json v @ r) = Some (v, r)"
    and "vs \<noteq> []"
  shows "parse_elements d (join_strings (map print_json vs) '','' @ CHR '']'' # r) = Some (vs, r)"
  using assms(2,1)
proof (induction vs rule: list_nonempty_induct)
  case (single v)
  then show ?case by (simp add: parse_elements.simps)
next
  case (cons v vs)
  obtain w us where vs: "vs = w # us" using cons(1) by (cases vs) simp_all
  with cons show ?case by (subst parse_elements.simps) (simp add: vs)
qed

abbreviation print_member :: "string \<times> string \<times> json \<Rightarrow> string" where
  "print_member m \<equiv> (case m of (k, raw, v) \<Rightarrow> json_string k @ CHR '':'' # raw)"

lemma parse_members_step:
  assumes "\<And>r. ends_value r \<Longrightarrow> parse_value d (print_json v @ r) = Some (v, r)"
    and "valid_utf8 k" and "print_json v = c # t" and "starts_value c" and "x = CHR '','' \<or> x = CHR ''}''"
  shows "parse_members d (json_string k @ CHR '':'' # print_json v @ x # r) =
    (if x = CHR ''}'' then Some ([(k, print_json v, v)], r)
     else case parse_members d r of None \<Rightarrow> None | Some (ms, z) \<Rightarrow> Some ((k, print_json v, v) # ms, z))"
proof -
  let ?u = "print_json v @ x # r"
  have key: "read_string (json_escape k @ CHR 0x22 # CHR '':'' # ?u) = Some (k, CHR '':'' # ?u)"
    using read_json_escape [of k] assms(2) by simp
  have val: "parse_value d ?u = Some (v, x # r)" using assms(1,5) by auto
  have raw: "text_between (skip_ws ?u) (x # r) = print_json v"
    using assms(3,4) text_between_append [of "print_json v" "x # r"] by (simp add: starts_value_def)
  have x: "skip_ws (x # r) = x # r" using assms(5) by auto
  show ?thesis
    using assms(5)
    by (subst parse_members.simps)
      (auto simp: json_string_def key val raw x skip_ws_not_ws simp del: skip_ws.simps(2))
qed

lemma parse_members_print:
  assumes "list_all (\<lambda>(k, raw, v). valid_utf8 k \<and> raw = print_json v \<and> printable d v \<and>
      (\<forall>r. ends_value r \<longrightarrow> parse_value d (print_json v @ r) = Some (v, r))) ms" and "ms \<noteq> []"
  shows "parse_members d (join_strings (map print_member ms) '','' @ CHR ''}'' # r) = Some (ms, r)"
  using assms(2,1)
proof (induction ms rule: list_nonempty_induct)
  case (single m)
  obtain k raw v where m: "m = (k, raw, v)" by (cases m)
  with single show ?case
    using parse_members_step [of d v k _ _ "CHR ''}''" r] print_json_starts [of d v] by auto
next
  case (cons m ms)
  obtain k raw v where m: "m = (k, raw, v)" by (cases m)
  obtain n ns where ms: "ms = n # ns" using cons(1) by (cases ms) simp_all
  have "parse_members d (join_strings (map print_member ms) '','' @ CHR ''}'' # r) = Some (ms, r)"
    using cons by simp
  then show ?case
    using cons(3) print_json_starts [of d v]
      parse_members_step [of d v k _ _ "CHR '',''" "join_strings (map print_member ms) '','' @ CHR ''}'' # r"]
    by (auto simp: m ms)
qed

theorem parse_print:
  "printable d v \<Longrightarrow> ends_value r \<Longrightarrow> parse_value d (print_json v @ r) = Some (v, r)"
proof (induction v arbitrary: d r)
  case JNull
  then show ?case
    using read_literal_words(1) [of r] by (subst parse_value_literal) (auto simp: starts_value_def is_ws_def)
next
  case (JBool b)
  then show ?case
    using read_literal_words(2,3) [of r]
    by (cases b; subst parse_value_literal) (auto simp: starts_value_def is_ws_def)
next
  case (JNumber raw)
  then obtain i where raw: "raw = decimal_int i" by (auto split: option.splits)
  obtain c t where "decimal_int i @ r = c # t @ r" and "starts_value c" "c \<noteq> CHR 0x22" "c \<noteq> CHR ''[''" "c \<noteq> CHR ''{''"
    using decimal_int_starts [of i] by auto
  then show ?case
    using parse_value_literal [of "decimal_int i @ r" c "t @ r" d] read_literal_decimal [OF JNumber(2), of i]
    by (simp add: raw)
next
  case (JString s)
  then show ?case
    using read_json_escape [of s r] by (simp add: json_string_def parse_value.simps)
next
  case (JArray vs)
  have elems: "parse_value (d - 1) (print_json v @ r) = Some (v, r)" if "v \<in> set vs" "ends_value r" for v r
    using JArray that by (auto simp: list_all_iff)
  show ?case
  proof (cases vs)
    case Nil
    with JArray(2) show ?thesis by (simp add: parse_value.simps json_array_def)
  next
    case (Cons v ws)
    obtain c t where "print_json v = c # t" and "starts_value c"
      using JArray(2) Cons print_json_starts [of "d - 1" v] by auto
    then obtain u where "join_strings (map print_json vs) '','' = c # u" by (cases ws) (auto simp: Cons)
    with \<open>starts_value c\<close> show ?thesis
      using parse_elements_print [OF elems, of vs r] JArray(2)
      by (simp add: parse_value.simps json_array_def Cons starts_value_def)
  qed
next
  case (JObject ms)
  have "(\<lambda>(k, raw, v). valid_utf8 k \<and> raw = print_json v \<and> printable (d - 1) v \<and>
      (\<forall>r. ends_value r \<longrightarrow> parse_value (d - 1) (print_json v @ r) = Some (v, r))) m" if "m \<in> set ms" for m
    using JObject(1) [OF that, of "snd m" "snd (snd m)" "d - 1"] JObject(2) that
    by (cases m) (auto simp: list_all_iff prod_set_simps)
  then have vals: "list_all (\<lambda>(k, raw, v). valid_utf8 k \<and> raw = print_json v \<and> printable (d - 1) v \<and>
      (\<forall>r. ends_value r \<longrightarrow> parse_value (d - 1) (print_json v @ r) = Some (v, r))) ms"
    by (simp add: list_all_iff)
  have print: "print_json (JObject ms) = CHR ''{'' # join_strings (map print_member ms) '','' @ ''}''"
    by (simp add: json_object_def comp_def case_prod_beta)
  show ?case
  proof (cases "ms = []")
    case True
    with JObject(2) show ?thesis by (simp add: parse_value.simps json_object_def)
  next
    case False
    then obtain u where u: "join_strings (map print_member ms) '','' = CHR 0x22 # u"
      by (cases "map print_member ms" rule: remdups_adj.cases) (auto simp: json_string_def split: prod.splits)
    show ?thesis
      using parse_members_print [OF vals False, of r] JObject(2) unfolding print u
      by (simp add: parse_value.simps)
  qed
qed

corollary parse_json_print: "printable max_nesting_depth v \<Longrightarrow> parse_json (print_json v) = Some v"
  using parse_print [of max_nesting_depth v "[]"] by (simp add: parse_json_def)

end
