(* ===== verification/Spec_Decoder.thy ===== *)
theory Spec_Decoder
  imports Json_Roundtrip
begin

section \<open>encoding/json: a recorded text as a spec\<close>

text \<open>
  \<open>json.Unmarshal(lastRevision.Data.Raw, &lastSpec)\<close> with \<open>lastSpec\<close> a nil
  \<open>*InvokerDeploymentSpec\<close>: the standard library's decoder on the struct types of
  \<open>api/v1alpha1/invokerdeployment_types.go\<close>.  A member belongs to a field when the names agree
  up to case; other members are skipped.  \<open>null\<close> leaves a string or a struct at its zero value
  and makes a pointer, slice or map nil; an empty array or object makes an empty one.  A value of
  the wrong kind is an error.  A \<open>resource.Quantity\<close> unmarshals itself from the text of its
  value: a parameter, \<open>qparse\<close>, with \<open>None\<close> for an error.

  An object that names one struct field twice makes the decoder merge the second value into what
  the first one left, down to the spare capacity of slices.  That corner is the answer
  \<open>Repeated\<close>, which \<open>unmarshal_spec\<close> hands to a parameter of its own.
\<close>

datatype 'a decoded = Malformed | Repeated | Decoded 'a

definition dec_bind :: "'a decoded \<Rightarrow> ('a \<Rightarrow> 'b decoded) \<Rightarrow> 'b decoded" where
  "dec_bind m f = (case m of Malformed \<Rightarrow> Malformed | Repeated \<Rightarrow> Repeated | Decoded a \<Rightarrow> f a)"

lemma dec_bind_simps [simp]:
  "dec_bind Malformed f = Malformed" "dec_bind Repeated f = Repeated" "dec_bind (Decoded a) f = f a"
  by (simp_all add: dec_bind_def)

fun dec_all :: "('a \<Rightarrow> 'b decoded) \<Rightarrow> 'a list \<Rightarrow> 'b list decoded" where
  "dec_all f [] = Decoded []"
| "dec_all f (x # xs) = dec_bind (f x) (\<lambda>y. dec_bind (dec_all f xs) (\<lambda>ys. Decoded (y # ys)))"

subsection \<open>Names of members\<close>

text \<open>
  \<open>bytes.EqualFold\<close> against an ASCII name: letters up to case, and the two runes outside ASCII
  that fold to a letter, U+017F to S and U+212A to K.
\<close>

definition fold_char :: "char \<Rightarrow> char" where
  "fold_char c = (let n = of_char c :: nat in if 97 \<le> n \<and> n \<le> 122 then char_of (n - 32) else c)"

fun fold_name :: "string \<Rightarrow> string" where
  "fold_name [] = []"
| "fold_name (c # s) =
     (if c = CHR 0xC5 \<and> take 1 s = [CHR 0xBF] then CHR ''S'' # fold_name (drop 1 s)
      else if c = CHR 0xE2 \<and> take 2 s = [CHR 0x84, CHR 0xAA] then CHR ''K'' # fold_name (drop 2 s)
      else fold_char c # fold_name s)"

type_synonym members = "(string \<times> string \<times> json) list"

text \<open>The value for a field, if the object has one.\<close>

definition field_value :: "string \<Rightarrow> members \<Rightarrow> json option decoded" where
  "field_value name ms =
     (case filter (\<lambda>m. fold_name (fst m) = fold_name name) ms of
        [] \<Rightarrow> Decoded None
      | [m] \<Rightarrow> Decoded (Some (snd (snd m)))
      | _ \<Rightarrow> Repeated)"

subsection \<open>By the type of the target\<close>

text \<open>The decoders take an absent member as \<open>None\<close>.\<close>

definition dec_field :: "(json \<Rightarrow> 'a decoded) \<Rightarrow> 'a \<Rightarrow> string \<Rightarrow> members \<Rightarrow> 'a decoded" where
  "dec_field dec zero name ms =
     dec_bind (field_value name ms) (\<lambda>ov. case ov of None \<Rightarrow> Decoded zero | Some v \<Rightarrow> dec v)"

definition dec_string :: "json \<Rightarrow> string decoded" where
  "dec_string v = (case v of JNull \<Rightarrow> Decoded [] | JString s \<Rightarrow> Decoded s | _ \<Rightarrow> Malformed)"

definition dec_pointer :: "(json \<Rightarrow> 'a decoded) \<Rightarrow> json \<Rightarrow> 'a option decoded" where
  "dec_pointer dec v = (if v = JNull then Decoded None else dec_bind (dec v) (\<lambda>a. Decoded (Some a)))"

definition dec_slice :: "(json \<Rightarrow> 'a decoded) \<Rightarrow> json \<Rightarrow> 'a list option decoded" where
  "dec_slice dec v =
     (case v of
        JNull \<Rightarrow> Decoded None
      | JArray vs \<Rightarrow> dec_bind (dec_all dec vs) (\<lambda>xs. Decoded (Some xs))
      | _ \<Rightarrow> Malformed)"

definition dec_struct :: "(members \<Rightarrow> 'a decoded) \<Rightarrow> 'a \<Rightarrow> json \<Rightarrow> 'a decoded" where
  "dec_struct dec zero v =
     (case v of JNull \<Rightarrow> Decoded zero | JObject ms \<Rightarrow> dec ms | _ \<Rightarrow> Malformed)"

definition dec_int32 :: "json \<Rightarrow> 32 word decoded" where
  "dec_int32 v =
     (case v of
        JNumber raw \<Rightarrow>
          (case parse_int raw of
             None \<Rightarrow> Malformed
           | Some i \<Rightarrow> if - (2 ^ 31) \<le> i \<and> i < 2 ^ 31 then Decoded (word_of_int i) else Malformed)
      | _ \<Rightarrow> Malformed)"

text \<open>A map: the entries in the order of the text, a later one over an earlier one.\<close>

fun dec_entries :: "(string \<Rightarrow> quantity option) \<Rightarrow> members \<Rightarrow> quantity gomap \<Rightarrow> quantity gomap decoded" where
  "dec_entries qparse [] m = Decoded m"
| "dec_entries qparse ((k, raw, v) # ms) m =
     (case qparse raw of None \<Rightarrow> Malformed | Some q \<Rightarrow> dec_entries qparse ms (fmupd k q m))"

definition dec_resource_list :: "(string \<Rightarrow> quantity option) \<Rightarrow> json \<Rightarrow> quantity gomap option decoded" where
  "dec_resource_list qparse v =
     (case v of
        JNull \<Rightarrow> Decoded None
      | JObject ms \<Rightarrow> dec_bind (dec_entries qparse ms fmempty) (\<lambda>m. Decoded (Some m))
      | _ \<Rightarrow> Malformed)"

subsection \<open>The types of the spec\<close>

definition dec_claim :: "json \<Rightarrow> string decoded" where
  "dec_claim = dec_struct (dec_field dec_string [] ''name'') []"

definition dec_resources :: "(string \<Rightarrow> quantity option) \<Rightarrow> json \<Rightarrow> ResourceRequirements decoded" where
  "dec_resources qparse = dec_struct (\<lambda>ms.
     dec_bind (dec_field (dec_resource_list qparse) None ''limits'' ms) (\<lambda>limits.
     dec_bind (dec_field (dec_resource_list qparse) None ''requests'' ms) (\<lambda>requests.
     dec_bind (dec_field (dec_slice dec_claim) None ''claims'' ms) (\<lambda>claims.
       Decoded \<lparr>rrLimits = limits, rrRequests = requests, rrClaims = claims\<rparr>)))) zero_resources"

definition zero_pod_config :: PodConfig where
  "zero_pod_config = \<lparr>pcName = None, pcPartitions = None, pcResources = zero_resources\<rparr>"

definition dec_pod_config :: "(string \<Rightarrow> quantity option) \<Rightarrow> json \<Rightarrow> PodConfig decoded" where
  "dec_pod_config qparse = dec_struct (\<lambda>ms.
     dec_bind (dec_field (dec_pointer dec_string) None ''name'' ms) (\<lambda>name.
     dec_bind (dec_field (dec_slice dec_string) None ''partitions'' ms) (\<lambda>partitions.
     dec_bind (dec_field (dec_resources qparse) zero_resources ''resources'' ms) (\<lambda>resources.
       Decoded \<lparr>pcName = name, pcPartitions = partitions, pcResources = resources\<rparr>)))) zero_pod_config"

definition zero_entity :: StatefulEntity where
  "zero_entity = \<lparr>seName = None, seExecutorImage = None, seIOImage = None, seStateImage = None,
     seIOAddress = None, seInputTopic = None, seOutputTopic = None, sePods = None\<rparr>"

definition dec_entity :: "(string \<Rightarrow> quantity option) \<Rightarrow> json \<Rightarrow> StatefulEntity decoded" where
  "dec_entity qparse = dec_struct (\<lambda>ms.
     dec_bind (dec_field (dec_pointer dec_string) None ''name'' ms) (\<lambda>name.
     dec_bind (dec_field (dec_pointer dec_string) None ''executorImage'' ms) (\<lambda>executorImage.
     dec_bind (dec_field (dec_pointer dec_string) None ''ioImage'' ms) (\<lambda>ioImage.
     dec_bind (dec_field (dec_pointer dec_string) None ''stateImage'' ms) (\<lambda>stateImage.
     dec_bind (dec_field (dec_pointer dec_string) None ''ioAddress'' ms) (\<lambda>ioAddress.
     dec_bind (dec_field (dec_pointer dec_string) None ''inputTopic'' ms) (\<lambda>inputTopic.
     dec_bind (dec_field (dec_pointer dec_string) None ''outputTopic'' ms) (\<lambda>outputTopic.
     dec_bind (dec_field (dec_slice (dec_pod_config qparse)) None ''pods'' ms) (\<lambda>pods.
       Decoded \<lparr>seName = name, seExecutorImage = executorImage, seIOImage = ioImage,
         seStateImage = stateImage, seIOAddress = ioAddress, seInputTopic = inputTopic,
         seOutputTopic = outputTopic, sePods = pods\<rparr>))))))))) zero_entity"

definition dec_secret_ref :: "json \<Rightarrow> LocalObjectReference decoded" where
  "dec_secret_ref = dec_struct (\<lambda>ms.
     dec_bind (dec_field dec_string [] ''name'' ms) (\<lambda>name. Decoded \<lparr>lorName = name\<rparr>)) \<lparr>lorName = []\<rparr>"

definition dec_spec_members :: "(string \<Rightarrow> quantity option) \<Rightarrow> members \<Rightarrow> InvokerDeploymentSpec decoded" where
  "dec_spec_members qparse ms =
     dec_bind (dec_field dec_string [] ''version'' ms) (\<lambda>version.
     dec_bind (dec_field dec_string [] ''imagePullPolicy'' ms) (\<lambda>imagePullPolicy.
     dec_bind (dec_field (dec_slice dec_secret_ref) None ''imagePullSecrets'' ms) (\<lambda>imagePullSecrets.
     dec_bind (dec_field (dec_slice (dec_entity qparse)) None ''statefulEntities'' ms) (\<lambda>statefulEntities.
     dec_bind (dec_field (dec_pointer dec_int32) None ''historyLimit'' ms) (\<lambda>historyLimit.
       Decoded \<lparr>idVersion = version, idImagePullPolicy = imagePullPolicy,
         idImagePullSecrets = imagePullSecrets, idStatefulEntities = statefulEntities,
         idHistoryLimit = historyLimit\<rparr>)))))"

text \<open>The target is a nil pointer to the struct.\<close>

definition dec_spec :: "(string \<Rightarrow> quantity option) \<Rightarrow> json \<Rightarrow> InvokerDeploymentSpec option decoded" where
  "dec_spec qparse v =
     (case v of
        JNull \<Rightarrow> Decoded None
      | JObject ms \<Rightarrow> dec_bind (dec_spec_members qparse ms) (\<lambda>sp. Decoded (Some sp))
      | _ \<Rightarrow> Malformed)"

text \<open>The text of an error is not modelled: syntax errors and ill-typed values are one error.\<close>

definition json_error :: go_error where
  "json_error = OtherError ''json: cannot unmarshal''"

definition unmarshal_spec ::
  "(string \<Rightarrow> quantity option) \<Rightarrow> (string \<Rightarrow> go_error + InvokerDeploymentSpec option) \<Rightarrow> string \<Rightarrow>
   go_error + InvokerDeploymentSpec option" where
  "unmarshal_spec qparse repeated s =
     (case parse_json s of
        None \<Rightarrow> Inl json_error
      | Some v \<Rightarrow>
        (case dec_spec qparse v of
           Malformed \<Rightarrow> Inl json_error
         | Repeated \<Rightarrow> repeated s
         | Decoded r \<Rightarrow> Inr r))"

subsection \<open>A spec as a JSON value\<close>

text \<open>
  The value whose printed form \<open>marshalSpec\<close> writes, when the quantities are written as the JSON
  strings \<open>qt\<close>.
\<close>

definition member :: "string \<Rightarrow> json \<Rightarrow> members" where
  "member name v = [(name, print_json v, v)]"

definition member_string :: "string \<Rightarrow> string \<Rightarrow> members" where
  "member_string name s = (if s = [] then [] else member name (JString s))"

definition member_pointer :: "string \<Rightarrow> ('a \<Rightarrow> json) \<Rightarrow> 'a option \<Rightarrow> members" where
  "member_pointer name enc p = (case p of None \<Rightarrow> [] | Some a \<Rightarrow> member name (enc a))"

definition member_slice :: "string \<Rightarrow> json list \<Rightarrow> members" where
  "member_slice name vs = (if vs = [] then [] else member name (JArray vs))"

definition resource_list_value :: "(quantity \<Rightarrow> string) \<Rightarrow> quantity gomap \<Rightarrow> json" where
  "resource_list_value qt m = JObject (List.map_filter
     (\<lambda>k. map_option (\<lambda>q. (k, json_string (qt q), JString (qt q))) (fmlookup m k))
     (sorted_list_of_fset (fmdom m)))"

definition member_resource_list :: "(quantity \<Rightarrow> string) \<Rightarrow> string \<Rightarrow> quantity gomap option \<Rightarrow> members" where
  "member_resource_list qt name om =
     (case om of None \<Rightarrow> [] | Some m \<Rightarrow> if m = fmempty then [] else member name (resource_list_value qt m))"

definition resources_value :: "(quantity \<Rightarrow> string) \<Rightarrow> ResourceRequirements \<Rightarrow> json" where
  "resources_value qt r = JObject
     (member_resource_list qt ''limits'' (rrLimits r)
      @ member_resource_list qt ''requests'' (rrRequests r)
      @ member_slice ''claims'' (map (\<lambda>c. JObject (member ''name'' (JString c))) (slice_items (rrClaims r))))"

definition pod_config_value :: "(quantity \<Rightarrow> string) \<Rightarrow> PodConfig \<Rightarrow> json" where
  "pod_config_value qt pc = JObject
     (member_pointer ''name'' JString (pcName pc)
      @ member_slice ''partitions'' (map JString (slice_items (pcPartitions pc)))
      @ member ''resources'' (resources_value qt (pcResources pc)))"

definition entity_value :: "(quantity \<Rightarrow> string) \<Rightarrow> StatefulEntity \<Rightarrow> json" where
  "entity_value qt se = JObject
     (member_pointer ''name'' JString (seName se)
      @ member_pointer ''executorImage'' JString (seExecutorImage se)
      @ member_pointer ''ioImage'' JString (seIOImage se)
      @ member_pointer ''stateImage'' JString (seStateImage se)
      @ member_pointer ''ioAddress'' JString (seIOAddress se)
      @ member_pointer ''inputTopic'' JString (seInputTopic se)
      @ member_pointer ''outputTopic'' JString (seOutputTopic se)
      @ member_slice ''pods'' (map (pod_config_value qt) (entity_pods se)))"

definition spec_value :: "(quantity \<Rightarrow> string) \<Rightarrow> InvokerDeploymentSpec \<Rightarrow> json" where
  "spec_value qt sp = JObject
     (member_string ''version'' (idVersion sp)
      @ member_string ''imagePullPolicy'' (idImagePullPolicy sp)
      @ member_slice ''imagePullSecrets''
          (map (\<lambda>r. JObject (member_string ''name'' (lorName r))) (slice_items (idImagePullSecrets sp)))
      @ member_slice ''statefulEntities'' (map (entity_value qt) (spec_entities sp))
      @ member_pointer ''historyLimit'' (\<lambda>w. JNumber (decimal_int (sint w))) (idHistoryLimit sp))"

end
