(* ===== verification/Spec_Roundtrip.thy ===== *)
theory Spec_Roundtrip
  imports Spec_Decoder
begin

section \<open>A recorded spec reads back as its normal form\<close>

text \<open>
  The writer \<open>marshalSpec\<close> against the reader \<open>unmarshal_spec\<close>, by way of the JSON value
  \<open>spec_value\<close> of a spec: the writer prints it, the parser of \<open>Json_Roundtrip\<close> reads it back, and
  the decoder turns it into \<open>norm_spec\<close> of the spec.
\<close>

subsection \<open>Specs that can be recorded\<close>

text \<open>
  A quantity is canonical when its JSON form is a string that is read back as the same quantity.
\<close>

definition quantity_text :: "(quantity \<Rightarrow> go_error + string) \<Rightarrow> quantity \<Rightarrow> string" where
  "quantity_text qjson q =
     (case qjson q of
        Inl _ \<Rightarrow> []
      | Inr s \<Rightarrow> (case parse_json s of Some (JString t) \<Rightarrow> t | _ \<Rightarrow> []))"

definition canonical_quantity ::
  "(quantity \<Rightarrow> go_error + string) \<Rightarrow> (string \<Rightarrow> quantity option) \<Rightarrow> quantity \<Rightarrow> bool" where
  "canonical_quantity qjson qparse q \<longleftrightarrow>
     (let t = quantity_text qjson q
      in qjson q = Inr (json_string t) \<and> valid_utf8 t \<and> qparse (json_string t) = Some q)"

definition utf8_option :: "string option \<Rightarrow> bool" where
  "utf8_option p = (case p of None \<Rightarrow> True | Some s \<Rightarrow> valid_utf8 s)"

definition canonical_list ::
  "(quantity \<Rightarrow> go_error + string) \<Rightarrow> (string \<Rightarrow> quantity option) \<Rightarrow> quantity gomap option \<Rightarrow> bool" where
  "canonical_list qjson qparse om =
     (case om of
        None \<Rightarrow> True
      | Some m \<Rightarrow> fmpred (\<lambda>k q. valid_utf8 k \<and> canonical_quantity qjson qparse q) m)"

definition canonical_resources ::
  "(quantity \<Rightarrow> go_error + string) \<Rightarrow> (string \<Rightarrow> quantity option) \<Rightarrow> ResourceRequirements \<Rightarrow> bool" where
  "canonical_resources qjson qparse r \<longleftrightarrow>
     canonical_list qjson qparse (rrLimits r) \<and> canonical_list qjson qparse (rrRequests r) \<and>
     list_all valid_utf8 (slice_items (rrClaims r))"

definition canonical_pod_config ::
  "(quantity \<Rightarrow> go_error + string) \<Rightarrow> (string \<Rightarrow> quantity option) \<Rightarrow> PodConfig \<Rightarrow> bool" where
  "canonical_pod_config qjson qparse pc \<longleftrightarrow>
     utf8_option (pcName pc) \<and> list_all valid_utf8 (slice_items (pcPartitions pc)) \<and>
     canonical_resources qjson qparse (pcResources pc)"

definition canonical_entity ::
  "(quantity \<Rightarrow> go_error + string) \<Rightarrow> (string \<Rightarrow> quantity option) \<Rightarrow> StatefulEntity \<Rightarrow> bool" where
  "canonical_entity qjson qparse se \<longleftrightarrow>
     utf8_option (seName se) \<and> utf8_option (seExecutorImage se) \<and> utf8_option (seIOImage se) \<and>
     utf8_option (seStateImage se) \<and> utf8_option (seIOAddress se) \<and> utf8_option (seInputTopic se) \<and>
     utf8_option (seOutputTopic se) \<and> list_all (canonical_pod_config qjson qparse) (entity_pods se)"

definition canonical_spec ::
  "(quantity \<Rightarrow> go_error + string) \<Rightarrow> (string \<Rightarrow> quantity option) \<Rightarrow> InvokerDeploymentSpec \<Rightarrow> bool" where
  "canonical_spec qjson qparse sp \<longleftrightarrow>
     valid_utf8 (idVersion sp) \<and> valid_utf8 (idImagePullPolicy sp) \<and>
     list_all (\<lambda>r. valid_utf8 (lorName r)) (slice_items (idImagePullSecrets sp)) \<and>
     list_all (canonical_entity qjson qparse) (spec_entities sp)"

lemmas canonical_defs = canonical_spec_def canonical_entity_def canonical_pod_config_def
  canonical_resources_def

subsection \<open>The writer prints the value\<close>

abbreviation texts :: "members \<Rightarrow> (string \<times> string) list" where
  "texts ms \<equiv> map (\<lambda>(k, raw, v). (k, raw)) ms"

lemma texts_member [simp]:
  "texts (member name v) = field_always name (print_json v)"
  "texts (member_string name s) = field_string name s"
  "texts (member_pointer name enc p) = field_pointer name (\<lambda>a. print_json (enc a)) p"
  "texts (member_slice name vs) = field_slice name (map print_json vs)"
  by (simp_all add: member_def member_string_def member_pointer_def member_slice_def
      field_always_def field_string_def field_pointer_def field_slice_def split: option.splits)

lemma marshal_entries_print:
  assumes "\<And>k q. k \<in> set ks \<Longrightarrow> fmlookup m k = Some q \<Longrightarrow> qjson q = Inr (json_string (qt q))"
  shows "marshal_entries qjson m ks = Inr (texts (List.map_filter
     (\<lambda>k. map_option (\<lambda>q. (k, json_string (qt q), JString (qt q))) (fmlookup m k)) ks))"
  using assms
proof (induction ks)
  case (Cons k ks)
  have "marshal_entries qjson m ks = Inr (texts (List.map_filter
     (\<lambda>k. map_option (\<lambda>q. (k, json_string (qt q), JString (qt q))) (fmlookup m k)) ks))"
    by (rule Cons.IH) (use Cons.prems in auto)
  moreover have "qjson q = Inr (json_string (qt q))" if "fmlookup m k = Some q" for q
    by (rule Cons.prems) (use that in auto)
  ultimately show ?case by (cases "fmlookup m k") (simp_all add: List.map_filter_simps)
qed (simp add: List.map_filter_simps)

lemma field_resource_list_print:
  assumes "canonical_list qjson qparse om"
  shows "field_resource_list qjson name om = Inr (texts (member_resource_list (quantity_text qjson) name om))"
proof (cases om)
  case None
  then show ?thesis by (simp add: field_resource_list_def member_resource_list_def)
next
  case (Some m)
  with assms have "qjson q = Inr (json_string (quantity_text qjson q))" if "fmlookup m k = Some q" for k q
    using that by (auto simp: canonical_list_def canonical_quantity_def fmpred_iff Let_def)
  then have "marshal_entries qjson m (sorted_list_of_fset (fmdom m)) = Inr (texts (List.map_filter
     (\<lambda>k. map_option (\<lambda>q. (k, json_string (quantity_text qjson q), JString (quantity_text qjson q))) (fmlookup m k))
     (sorted_list_of_fset (fmdom m))))" by (rule marshal_entries_print)
  with Some show ?thesis
    by (simp add: field_resource_list_def member_resource_list_def marshal_resource_list_def
        resource_list_value_def field_always_def)
qed

lemma marshal_all_print:
  assumes "list_all (\<lambda>x. enc x = Inr (f x)) xs"
  shows "marshal_all enc xs = Inr (map f xs)"
  using assms by (induction xs) simp_all

lemma marshalResources_print:
  "canonical_resources qjson qparse r \<Longrightarrow>
     marshalResources qjson r = Inr (print_json (resources_value (quantity_text qjson) r))"
  by (simp add: marshalResources_def resources_value_def canonical_resources_def
      field_resource_list_print [of qjson qparse] comp_def marshal_claim_def [abs_def])

lemma marshalPodConfig_print:
  "canonical_pod_config qjson qparse pc \<Longrightarrow>
     marshalPodConfig qjson pc = Inr (print_json (pod_config_value (quantity_text qjson) pc))"
  by (simp add: marshalPodConfig_def pod_config_value_def canonical_pod_config_def
      marshalResources_print [of qjson qparse] comp_def)

lemma marshalStatefulEntity_print:
  assumes "canonical_entity qjson qparse se"
  shows "marshalStatefulEntity qjson se = Inr (print_json (entity_value (quantity_text qjson) se))"
proof -
  have "list_all (\<lambda>pc. marshalPodConfig qjson pc =
      Inr (print_json (pod_config_value (quantity_text qjson) pc))) (entity_pods se)"
    using assms by (auto simp: canonical_entity_def list_all_iff marshalPodConfig_print)
  from marshal_all_print [OF this] show ?thesis
    by (simp add: marshalStatefulEntity_def entity_value_def comp_def)
qed

lemma marshalSpec_print:
  assumes "canonical_spec qjson qparse sp"
  shows "marshalSpec qjson sp = Inr (print_json (spec_value (quantity_text qjson) sp))"
proof -
  have "list_all (\<lambda>se. marshalStatefulEntity qjson se =
      Inr (print_json (entity_value (quantity_text qjson) se))) (spec_entities sp)"
    using assms by (auto simp: canonical_spec_def list_all_iff marshalStatefulEntity_print)
  from marshal_all_print [OF this] show ?thesis
    by (simp add: marshalSpec_def spec_value_def comp_def marshal_secret_ref_def [abs_def])
qed

subsection \<open>The value can be printed and read\<close>

definition printable_members :: "int \<Rightarrow> members \<Rightarrow> bool" where
  "printable_members d ms =
     list_all (\<lambda>m. valid_utf8 (fst m) \<and> fst (snd m) = print_json (snd (snd m)) \<and> printable d (snd (snd m))) ms"

lemma printable_object [simp]: "printable d (JObject ms) \<longleftrightarrow> 0 < d \<and> printable_members (d - 1) ms"
  by (simp add: printable_members_def case_prod_unfold)

declare printable.simps(6) [simp del]

lemma printable_members_simps [simp]:
  "printable_members d []"
  "printable_members d (m # ms) \<longleftrightarrow> valid_utf8 (fst m) \<and> fst (snd m) = print_json (snd (snd m)) \<and>
     printable d (snd (snd m)) \<and> printable_members d ms"
  "printable_members d (xs @ ys) \<longleftrightarrow> printable_members d xs \<and> printable_members d ys"
  by (auto simp: printable_members_def)

lemma printable_member [simp]:
  "printable_members d (member name v) \<longleftrightarrow> valid_utf8 name \<and> printable d v"
  "printable_members d (member_string name s) \<longleftrightarrow> s = [] \<or> valid_utf8 name \<and> valid_utf8 s"
  "printable_members d (member_slice name vs) \<longleftrightarrow>
     vs = [] \<or> valid_utf8 name \<and> 0 < d \<and> list_all (printable (d - 1)) vs"
  by (simp_all add: member_def member_string_def member_slice_def)

lemma printable_pointer:
  "printable_members d (member_pointer name enc p) \<longleftrightarrow>
     (case p of None \<Rightarrow> True | Some a \<Rightarrow> valid_utf8 name \<and> printable d (enc a))"
  by (simp add: member_pointer_def split: option.splits)

lemma printable_resource_list:
  assumes "canonical_list qjson qparse om" and "0 < d" and "valid_utf8 name"
  shows "printable_members d (member_resource_list (quantity_text qjson) name om)"
proof (cases om)
  case None
  then show ?thesis by (simp add: member_resource_list_def)
next
  case (Some m)
  with assms have "valid_utf8 k \<and> valid_utf8 (quantity_text qjson q)" if "fmlookup m k = Some q" for k q
    using that by (auto simp: canonical_list_def canonical_quantity_def fmpred_iff Let_def)
  then have "printable_members (d - 1) (List.map_filter
     (\<lambda>k. map_option (\<lambda>q. (k, json_string (quantity_text qjson q), JString (quantity_text qjson q))) (fmlookup m k))
     ks)" for ks by (induction ks) (auto simp: List.map_filter_simps split: option.splits)
  with Some assms(2,3) show ?thesis by (simp add: member_resource_list_def resource_list_value_def)
qed

lemma printable_utf8_option: "utf8_option p \<Longrightarrow> valid_utf8 name \<Longrightarrow> printable_members d (member_pointer name JString p)"
  by (auto simp: utf8_option_def printable_pointer split: option.splits)

lemma valid_names:
  "valid_utf8 ''name''" "valid_utf8 ''limits''" "valid_utf8 ''requests''" "valid_utf8 ''claims''"
  "valid_utf8 ''partitions''" "valid_utf8 ''resources''" "valid_utf8 ''executorImage''"
  "valid_utf8 ''ioImage''" "valid_utf8 ''stateImage''" "valid_utf8 ''ioAddress''"
  "valid_utf8 ''inputTopic''" "valid_utf8 ''outputTopic''" "valid_utf8 ''pods''" "valid_utf8 ''version''"
  "valid_utf8 ''imagePullPolicy''" "valid_utf8 ''imagePullSecrets''" "valid_utf8 ''statefulEntities''"
  "valid_utf8 ''historyLimit''"
  by (rule valid_ascii; simp)+

lemma printable_resources:
  "canonical_resources qjson qparse r \<Longrightarrow> 3 < d \<Longrightarrow> printable d (resources_value (quantity_text qjson) r)"
  by (auto simp: resources_value_def canonical_resources_def printable_resource_list list_all_iff valid_names)

lemma printable_pod_config:
  "canonical_pod_config qjson qparse pc \<Longrightarrow> 4 < d \<Longrightarrow> printable d (pod_config_value (quantity_text qjson) pc)"
  by (auto simp: pod_config_value_def canonical_pod_config_def printable_utf8_option printable_resources
      list_all_iff valid_names)

lemma printable_entity:
  "canonical_entity qjson qparse se \<Longrightarrow> 6 < d \<Longrightarrow> printable d (entity_value (quantity_text qjson) se)"
  by (auto simp: entity_value_def canonical_entity_def printable_utf8_option printable_pod_config
      list_all_iff valid_names)

lemma printable_spec:
  "canonical_spec qjson qparse sp \<Longrightarrow> 8 < d \<Longrightarrow> printable d (spec_value (quantity_text qjson) sp)"
  by (auto simp: spec_value_def canonical_spec_def printable_entity printable_pointer list_all_iff
      valid_names split: option.splits)

subsection \<open>The decoder reads the value\<close>

text \<open>No member for the field.\<close>

definition no_member :: "string \<Rightarrow> members \<Rightarrow> bool" where
  "no_member name ms = list_all (\<lambda>m. fold_name (fst m) \<noteq> fold_name name) ms"

lemma no_member_append [simp]: "no_member name (xs @ ys) \<longleftrightarrow> no_member name xs \<and> no_member name ys"
  by (simp add: no_member_def)

lemma no_member_other [simp]:
  "fold_name n \<noteq> fold_name name \<Longrightarrow> no_member name (member n v)"
  "fold_name n \<noteq> fold_name name \<Longrightarrow> no_member name (member_string n s)"
  "fold_name n \<noteq> fold_name name \<Longrightarrow> no_member name (member_pointer n enc p)"
  "fold_name n \<noteq> fold_name name \<Longrightarrow> no_member name (member_slice n vs)"
  "fold_name n \<noteq> fold_name name \<Longrightarrow> no_member name (member_resource_list qt n om)"
  by (simp_all add: no_member_def member_def member_string_def member_pointer_def member_slice_def
      member_resource_list_def split: option.splits)

lemma dec_field_skip [simp]:
  assumes "no_member name xs"
  shows "dec_field dec zero name (xs @ ys) = dec_field dec zero name ys"
    and "dec_field dec zero name (ys @ xs) = dec_field dec zero name ys"
proof -
  have "filter (\<lambda>m. fold_name (fst m) = fold_name name) xs = []"
    using assms by (auto simp: no_member_def list_all_iff filter_empty_conv)
  then show "dec_field dec zero name (xs @ ys) = dec_field dec zero name ys"
    and "dec_field dec zero name (ys @ xs) = dec_field dec zero name ys"
    by (simp_all add: dec_field_def field_value_def)
qed

lemma dec_field_absent [simp]: "dec_field dec zero name [] = Decoded zero"
  by (simp add: dec_field_def field_value_def)

lemma dec_field_member [simp]: "dec_field dec zero name (member name v) = dec v"
  by (simp add: dec_field_def field_value_def member_def)

lemma dec_field_string [simp]: "dec_field dec_string [] name (member_string name s) = Decoded s"
  by (simp add: member_string_def dec_string_def)

lemma dec_field_pointer [simp]:
  "dec_field (dec_pointer dec_string) None name (member_pointer name JString p) = Decoded p"
  by (cases p) (simp_all add: member_pointer_def dec_pointer_def dec_string_def)

lemma sint_int32: "- (2 ^ 31) \<le> sint (w :: 32 word)" "sint (w :: 32 word) < 2 ^ 31"
  using sint_range_size [of w] by (simp_all add: word_size)

lemma dec_field_int32 [simp]:
  "dec_field (dec_pointer dec_int32) None name (member_pointer name (\<lambda>w. JNumber (decimal_int (sint w))) p) =
   Decoded p"
proof (cases p)
  case (Some w)
  then show ?thesis
    using sint_int32 [of w] by (simp add: member_pointer_def dec_pointer_def dec_int32_def)
qed (simp add: member_pointer_def)

lemma dec_all_map: "list_all (\<lambda>x. dec (f x) = Decoded (g x)) xs \<Longrightarrow> dec_all dec (map f xs) = Decoded (map g xs)"
  by (induction xs) simp_all

lemma dec_field_slice:
  assumes "list_all (\<lambda>x. dec (f x) = Decoded (g x)) (slice_items s)"
  shows "dec_field (dec_slice dec) None name (member_slice name (map f (slice_items s))) =
    Decoded (map_option (map g) (norm_slice s))"
proof (cases s)
  case None
  then show ?thesis by (simp add: member_slice_def norm_slice_def)
next
  case (Some xs)
  with dec_all_map [of dec f g xs] assms show ?thesis by (simp add: member_slice_def norm_slice_def dec_slice_def)
qed

lemma dec_entries_values:
  assumes "\<And>k q. k \<in> set ks \<Longrightarrow> fmlookup m k = Some q \<Longrightarrow> qparse (json_string (qt q)) = Some q"
  shows "dec_entries qparse (List.map_filter
     (\<lambda>k. map_option (\<lambda>q. (k, json_string (qt q), JString (qt q))) (fmlookup m k)) ks) a =
   Decoded (a ++\<^sub>f fmfilter (\<lambda>k. k \<in> set ks) m)"
  using assms
proof (induction ks arbitrary: a)
  case Nil
  have "a ++\<^sub>f fmfilter (\<lambda>k. False) m = a" by (rule fmap_ext) simp
  then show ?case by (simp add: List.map_filter_simps)
next
  case (Cons k ks)
  have IH: "dec_entries qparse (List.map_filter
     (\<lambda>k. map_option (\<lambda>q. (k, json_string (qt q), JString (qt q))) (fmlookup m k)) ks) b =
   Decoded (b ++\<^sub>f fmfilter (\<lambda>k. k \<in> set ks) m)" for b
    by (rule Cons.IH) (use Cons.prems in auto)
  show ?case
  proof (cases "fmlookup m k")
    case None
    have "a ++\<^sub>f fmfilter (\<lambda>x. x \<in> set ks) m = a ++\<^sub>f fmfilter (\<lambda>x. x = k \<or> x \<in> set ks) m"
      using None by (intro fmap_ext) (auto simp: fmdom_notI)
    with None IH show ?thesis by (simp add: List.map_filter_simps)
  next
    case (Some q)
    have "fmupd k q a ++\<^sub>f fmfilter (\<lambda>x. x \<in> set ks) m = a ++\<^sub>f fmfilter (\<lambda>x. x = k \<or> x \<in> set ks) m"
      using Some by (intro fmap_ext) (auto intro: fmdomI)
    moreover have "qparse (json_string (qt q)) = Some q" by (rule Cons.prems) (use Some in auto)
    ultimately show ?thesis using Some IH by (simp add: List.map_filter_simps)
  qed
qed

lemma dec_field_resource_list:
  assumes "canonical_list qjson qparse om"
  shows "dec_field (dec_resource_list qparse) None name (member_resource_list (quantity_text qjson) name om) =
    Decoded (norm_map om)"
proof (cases om)
  case None
  then show ?thesis by (simp add: member_resource_list_def norm_map_def)
next
  case (Some m)
  with assms have "qparse (json_string (quantity_text qjson q)) = Some q" if "fmlookup m k = Some q" for k q
    using that by (auto simp: canonical_list_def canonical_quantity_def fmpred_iff Let_def)
  then have "dec_entries qparse (List.map_filter
     (\<lambda>k. map_option (\<lambda>q. (k, json_string (quantity_text qjson q), JString (quantity_text qjson q))) (fmlookup m k))
     (sorted_list_of_fset (fmdom m))) fmempty =
    Decoded (fmempty ++\<^sub>f fmfilter (\<lambda>k. k \<in> set (sorted_list_of_fset (fmdom m))) m)"
    by (rule dec_entries_values)
  moreover have "fmempty ++\<^sub>f fmfilter (\<lambda>k. k \<in> set (sorted_list_of_fset (fmdom m))) m = m"
    by (rule fmap_ext) (auto simp: sorted_list_of_fset.rep_eq fmdom_notD)
  ultimately show ?thesis using Some
    by (simp add: member_resource_list_def resource_list_value_def dec_resource_list_def norm_map_def)
qed

lemma dec_resources_value:
  assumes "canonical_resources qjson qparse r"
  shows "dec_resources qparse (resources_value (quantity_text qjson) r) = Decoded (norm_resources r)"
  using assms dec_field_slice [of dec_claim "\<lambda>c. JObject (member ''name'' (JString c))" id "rrClaims r" "''claims''"]
  by (simp add: dec_resources_def resources_value_def dec_struct_def canonical_resources_def
      dec_field_resource_list norm_resources_def dec_claim_def dec_string_def list_all_iff
      fold_char_def option.map_id)

lemma dec_pod_config_value:
  assumes "canonical_pod_config qjson qparse pc"
  shows "dec_pod_config qparse (pod_config_value (quantity_text qjson) pc) = Decoded (norm_pod_config pc)"
  using assms dec_field_slice [of dec_string JString id "pcPartitions pc" "''partitions''"]
  by (simp add: dec_pod_config_def pod_config_value_def dec_struct_def canonical_pod_config_def
      dec_resources_value norm_pod_config_def dec_string_def list_all_iff fold_char_def option.map_id)

lemma dec_entity_value:
  assumes "canonical_entity qjson qparse se"
  shows "dec_entity qparse (entity_value (quantity_text qjson) se) = Decoded (norm_entity se)"
proof -
  have "list_all (\<lambda>pc. dec_pod_config qparse (pod_config_value (quantity_text qjson) pc) =
      Decoded (norm_pod_config pc)) (entity_pods se)"
    using assms by (auto simp: canonical_entity_def list_all_iff dec_pod_config_value)
  from dec_field_slice [OF this, of "''pods''"] show ?thesis
    by (simp add: dec_entity_def entity_value_def dec_struct_def norm_entity_def fold_char_def)
qed

lemma dec_spec_value:
  assumes "canonical_spec qjson qparse sp"
  shows "dec_spec qparse (spec_value (quantity_text qjson) sp) = Decoded (Some (norm_spec sp))"
proof -
  have "list_all (\<lambda>se. dec_entity qparse (entity_value (quantity_text qjson) se) =
      Decoded (norm_entity se)) (spec_entities sp)"
    using assms by (auto simp: canonical_spec_def list_all_iff dec_entity_value)
  moreover have "list_all (\<lambda>r. dec_secret_ref (JObject (member_string ''name'' (lorName r))) = Decoded (id r))
      (slice_items (idImagePullSecrets sp))"
    by (simp add: list_all_iff dec_secret_ref_def dec_struct_def)
  ultimately show ?thesis
    using dec_field_slice [of "dec_entity qparse" _ norm_entity "idStatefulEntities sp" "''statefulEntities''"]
      dec_field_slice [of dec_secret_ref _ id "idImagePullSecrets sp" "''imagePullSecrets''"]
    by (simp add: dec_spec_def dec_spec_members_def spec_value_def norm_spec_def fold_char_def option.map_id)
qed

text \<open>What the operator records is read back as the normal form of the spec.\<close>

theorem unmarshal_marshal:
  assumes "canonical_spec qjson qparse sp" and "marshalSpec qjson sp = Inr bs"
  shows "unmarshal_spec qparse repeated bs = Inr (Some (norm_spec sp))"
proof -
  have "bs = print_json (spec_value (quantity_text qjson) sp)"
    using assms marshalSpec_print by fastforce
  moreover have "printable max_nesting_depth (spec_value (quantity_text qjson) sp)"
    by (rule printable_spec [OF assms(1)]) (simp add: max_nesting_depth_def)
  ultimately show ?thesis
    by (simp add: unmarshal_spec_def parse_json_print dec_spec_value [OF assms(1)])
qed

end
