(* ===== verification/Api_Client.thy ===== *)
theory Api_Client
  imports Spec_Decoder
begin

section \<open>The outside world: API server, client libraries, Go runtime\<close>

text \<open>
  The Kubernetes API server behind \<open>client.Client\<close>, the client libraries and the choices of
  the Go runtime are not part of the repository.  They are the fields of one record, an
  argument of every definition that uses them; a field that answers from or changes the state
  of the outside has that state, of type \<open>'s\<close>, as argument and result.  A theorem about all
  environments is a theorem about every API server, a faulty one included; where a theorem
  needs a documented behaviour, it says so in a hypothesis.
\<close>

record 's env =
  \<comment> \<open>\<open>client.Client.Get\<close>, by namespace and name\<close>
  sGetCR :: "string \<Rightarrow> string \<Rightarrow> 's \<Rightarrow> (go_error + InvokerDeployment) \<times> 's"
  sGetSecret :: "string \<Rightarrow> string \<Rightarrow> 's \<Rightarrow> (go_error + Secret) \<times> 's"
  sGetRevision :: "string \<Rightarrow> string \<Rightarrow> 's \<Rightarrow> (go_error + ControllerRevision) \<times> 's"
  sGetDeployment :: "string \<Rightarrow> string \<Rightarrow> 's \<Rightarrow> (go_error + Deployment) \<times> 's"
  sGetStatefulSet :: "string \<Rightarrow> string \<Rightarrow> 's \<Rightarrow> (go_error + StatefulSet) \<times> 's"
  sGetService :: "string \<Rightarrow> string \<Rightarrow> 's \<Rightarrow> (go_error + Service) \<times> 's"
  sGetIngress :: "string \<Rightarrow> string \<Rightarrow> 's \<Rightarrow> (go_error + Ingress) \<times> 's"
  \<comment> \<open>\<open>client.Client.List\<close>, by \<open>MatchingLabels\<close> and \<open>InNamespace\<close>\<close>
  sListConfigMaps :: "string gomap \<Rightarrow> string \<Rightarrow> 's \<Rightarrow> (go_error + ConfigMap list) \<times> 's"
  sListPods :: "string gomap \<Rightarrow> string \<Rightarrow> 's \<Rightarrow> (go_error + Pod list) \<times> 's"
  sListRevisions :: "string gomap \<Rightarrow> string \<Rightarrow> 's \<Rightarrow> (go_error + ControllerRevision list) \<times> 's"
  \<comment> \<open>the writes\<close>
  sCreate :: "k8s_object \<Rightarrow> 's \<Rightarrow> go_error option \<times> 's"
  sUpdate :: "k8s_object \<Rightarrow> 's \<Rightarrow> go_error option \<times> 's"
  sDelete :: "k8s_object \<Rightarrow> 's \<Rightarrow> go_error option \<times> 's"
  sStatusUpdate :: "InvokerDeployment \<Rightarrow> 's \<Rightarrow> go_error option \<times> 's"
  \<comment> \<open>\<open>time.Now\<close>; the order in which \<open>range\<close> visits the keys of a map; \<open>sort.Slice\<close> by
      increasing \<open>Revision\<close>, which leaves the order of equal elements open; the capacity of a slice
      that \<open>append\<close> has grown to a length; \<open>os.Getenv\<close>\<close>
  sNow :: "'s \<Rightarrow> gotime \<times> 's"
  sRange :: "string fset \<Rightarrow> 's \<Rightarrow> string list \<times> 's"
  eSortByRevision :: "ControllerRevision list \<Rightarrow> ControllerRevision list"
  eAppendCap :: "nat \<Rightarrow> nat"
  eGetenv :: "string \<Rightarrow> string"
  \<comment> \<open>\<open>controllerutil\<close>: the finalizer helpers and \<open>SetControllerReference\<close>, which edits the
      metadata of the owned object (and leaves it alone when it returns an error, which the
      operator ignores)\<close>
  eContainsFinalizer :: "InvokerDeployment \<Rightarrow> string \<Rightarrow> bool"
  eAddFinalizer :: "InvokerDeployment \<Rightarrow> string \<Rightarrow> InvokerDeployment \<times> bool"
  eRemoveFinalizer :: "InvokerDeployment \<Rightarrow> string \<Rightarrow> InvokerDeployment \<times> bool"
  eSetControllerReference :: "InvokerDeployment \<Rightarrow> ObjectMeta \<Rightarrow> ObjectMeta"
  \<comment> \<open>\<open>*metav1.NewControllerRef(cr, cr.GroupVersionKind())\<close>; \<open>meta.SetStatusCondition\<close>, which
      may read the clock\<close>
  eNewControllerRef :: "InvokerDeployment \<Rightarrow> OwnerReference"
  sSetStatusCondition :: "Condition list \<Rightarrow> Condition \<Rightarrow> 's \<Rightarrow> Condition list \<times> 's"
  \<comment> \<open>the JSON form of a quantity and its reading (\<open>None\<close> for an error); \<open>json.Unmarshal\<close> of a
      recorded spec in which an object names a field twice\<close>
  eQuantityJSON :: "quantity \<Rightarrow> go_error + string"
  eQuantityParse :: "string \<Rightarrow> quantity option"
  eUnmarshalRepeated :: "string \<Rightarrow> go_error + InvokerDeploymentSpec option"

text \<open>
  \<open>json.Unmarshal\<close> of a recorded spec into a nil \<open>*InvokerDeploymentSpec\<close>, which stays nil for
  the text \<open>null\<close>.
\<close>

definition UnmarshalSpec :: "'s env \<Rightarrow> string \<Rightarrow> go_error + InvokerDeploymentSpec option" where
  "UnmarshalSpec E = unmarshal_spec (eQuantityParse E) (eUnmarshalRepeated E)"

subsection \<open>Calls and their trace\<close>

text \<open>
  Every request to the API server, every event sent to the recorder and every increment of the
  upgrade counter is recorded in the order it is made, whatever its outcome.
\<close>

datatype api_call =
    GetCR string string
  | GetSecret string string
  | GetRevision string string
  | GetDeployment string string
  | GetStatefulSet string string
  | GetService string string
  | GetIngress string string
  | ListConfigMaps "string gomap" string
  | ListPods "string gomap" string
  | ListRevisions "string gomap" string
  | CreateCall k8s_object
  | UpdateCall k8s_object
  | DeleteCall k8s_object
  | StatusUpdateCall InvokerDeployment
  | EventCall InvokerDeployment string string string
  | IncUpgradeCounter

fun is_read :: "api_call \<Rightarrow> bool" where
  "is_read (CreateCall _) = False"
| "is_read (UpdateCall _) = False"
| "is_read (DeleteCall _) = False"
| "is_read (StatusUpdateCall _) = False"
| "is_read (EventCall _ _ _ _) = False"
| "is_read IncUpgradeCounter = False"
| "is_read _ = True"

record 's world =
  wTrace :: "api_call list"
  wServer :: 's

definition api :: "api_call \<Rightarrow> ('s \<Rightarrow> 'a \<times> 's) \<Rightarrow> ('s world, 'a) state" where
  "api c f = State (\<lambda>w. case f (wServer w) of (r, s) \<Rightarrow>
     (r, \<lparr>wTrace = wTrace w @ [c], wServer = s\<rparr>))"

definition outside :: "('s \<Rightarrow> 'a \<times> 's) \<Rightarrow> ('s world, 'a) state" where
  "outside f = State (\<lambda>w. case f (wServer w) of (r, s) \<Rightarrow> (r, w\<lparr>wServer := s\<rparr>))"

lemma run_state_api [simp]:
  "run_state (api c f) w =
     (fst (f (wServer w)), \<lparr>wTrace = wTrace w @ [c], wServer = snd (f (wServer w))\<rparr>)"
  by (simp add: api_def case_prod_beta)

lemma run_state_outside [simp]:
  "run_state (outside f) w = (fst (f (wServer w)), w\<lparr>wServer := snd (f (wServer w))\<rparr>)"
  by (simp add: outside_def case_prod_beta)

subsection \<open>The client\<close>

definition client_create :: "'s env \<Rightarrow> k8s_object \<Rightarrow> ('s world, go_error option) state" where
  "client_create E ob = api (CreateCall ob) (sCreate E ob)"

definition client_update :: "'s env \<Rightarrow> k8s_object \<Rightarrow> ('s world, go_error option) state" where
  "client_update E ob = api (UpdateCall ob) (sUpdate E ob)"

definition client_delete :: "'s env \<Rightarrow> k8s_object \<Rightarrow> ('s world, go_error option) state" where
  "client_delete E ob = api (DeleteCall ob) (sDelete E ob)"

definition client_status_update :: "'s env \<Rightarrow> InvokerDeployment \<Rightarrow> ('s world, go_error option) state" where
  "client_status_update E cr = api (StatusUpdateCall cr) (sStatusUpdate E cr)"

definition time_now :: "'s env \<Rightarrow> ('s world, gotime) state" where
  "time_now E = outside (sNow E)"

text \<open>\<open>for k, v := range m\<close>: the values in an order the runtime chooses.\<close>

definition range_values :: "'s env \<Rightarrow> 'v gomap \<Rightarrow> ('s world, 'v list) state" where
  "range_values E m = do {
     ks \<leftarrow> outside (sRange E (fmdom m));
     ret (List.map_filter (fmlookup m) ks)
   }"

definition range_entries :: "'s env \<Rightarrow> 'v gomap \<Rightarrow> ('s world, (string \<times> 'v) list) state" where
  "range_entries E m = do {
     ks \<leftarrow> outside (sRange E (fmdom m));
     ret (List.map_filter (\<lambda>k. map_option (Pair k) (fmlookup m k)) ks)
   }"

lemmas client_defs = client_create_def client_update_def client_delete_def client_status_update_def
  time_now_def range_values_def range_entries_def

subsection \<open>Reasoning about traces\<close>

text \<open>\<open>emits P m\<close>: every call that \<open>m\<close> makes satisfies \<open>P\<close>, whatever the server answers.\<close>

definition emits :: "(api_call \<Rightarrow> bool) \<Rightarrow> ('s world, 'a) state \<Rightarrow> bool" where
  "emits P m \<longleftrightarrow>
     (\<forall>w r w'. run_state m w = (r, w') \<longrightarrow> (\<exists>cs. wTrace w' = wTrace w @ cs \<and> list_all P cs))"

named_theorems emits_rules "introduction rules for the calls a computation makes"

lemma emitsI:
  "(\<And>w r w'. run_state m w = (r, w') \<Longrightarrow> \<exists>cs. wTrace w' = wTrace w @ cs \<and> list_all P cs) \<Longrightarrow> emits P m"
  by (auto simp: emits_def)

lemma emitsE:
  assumes "emits P m" and "run_state m w = (r, w')"
  obtains cs where "wTrace w' = wTrace w @ cs" and "list_all P cs"
  using assms unfolding emits_def by blast

lemma emits_mono: "emits P m \<Longrightarrow> (\<And>c. P c \<Longrightarrow> Q c) \<Longrightarrow> emits Q m"
  unfolding emits_def by (metis list.pred_mono_strong)

text \<open>A computation that makes no call leaves the trace alone.\<close>

lemma emits_silent: "emits (\<lambda>_. False) m \<Longrightarrow> run_state m w = (r, w') \<Longrightarrow> wTrace w' = wTrace w"
  by (erule (1) emitsE) (case_tac cs, simp_all)

lemma emits_ret [emits_rules]: "emits P (ret x)"
  by (auto simp: emits_def)

lemma emits_api [emits_rules]: "P c \<Longrightarrow> emits P (api c f)"
  by (auto simp: emits_def)

lemma emits_outside [emits_rules]: "emits P (outside f)"
  by (auto simp: emits_def)

lemma emits_bind_strong:
  assumes "emits P m" and "\<And>w r w'. run_state m w = (r, w') \<Longrightarrow> emits P (f r)"
  shows "emits P (State_Monad.bind m f)"
proof (rule emitsI)
  fix w r w' assume "run_state (State_Monad.bind m f) w = (r, w')"
  then obtain a v where m: "run_state m w = (a, v)" and f: "run_state (f a) v = (r, w')"
    by (auto split: prod.splits)
  from assms(1) m obtain cs where cs: "wTrace v = wTrace w @ cs" "list_all P cs" by (rule emitsE)
  from assms(2) [OF m] f obtain ds where ds: "wTrace w' = wTrace v @ ds" "list_all P ds" by (rule emitsE)
  from cs ds show "\<exists>cs. wTrace w' = wTrace w @ cs \<and> list_all P cs"
    by (intro exI [of _ "cs @ ds"]) simp
qed

lemma emits_bind [emits_rules]:
  "emits P m \<Longrightarrow> (\<And>r. emits P (f r)) \<Longrightarrow> emits P (State_Monad.bind m f)"
  by (rule emits_bind_strong)

lemma emits_option [emits_rules]:
  "(x = None \<Longrightarrow> emits P m) \<Longrightarrow> (\<And>a. x = Some a \<Longrightarrow> emits P (f a)) \<Longrightarrow>
   emits P (case x of None \<Rightarrow> m | Some a \<Rightarrow> f a)"
  by (cases x) auto

lemma emits_sum [emits_rules]:
  "(\<And>a. x = Inl a \<Longrightarrow> emits P (f a)) \<Longrightarrow> (\<And>b. x = Inr b \<Longrightarrow> emits P (g b)) \<Longrightarrow>
   emits P (case x of Inl a \<Rightarrow> f a | Inr b \<Rightarrow> g b)"
  by (cases x) auto

lemma emits_go [emits_rules]:
  "(x = Panicked \<Longrightarrow> emits P m) \<Longrightarrow> (\<And>a. x = Val a \<Longrightarrow> emits P (f a)) \<Longrightarrow>
   emits P (case x of Panicked \<Rightarrow> m | Val a \<Rightarrow> f a)"
  by (cases x) auto

lemma emits_prod [emits_rules]:
  "(\<And>a b. x = (a, b) \<Longrightarrow> emits P (f a b)) \<Longrightarrow> emits P (case x of (a, b) \<Rightarrow> f a b)"
  by (cases x) auto

lemma emits_if [emits_rules]:
  "(b \<Longrightarrow> emits P m) \<Longrightarrow> (\<not> b \<Longrightarrow> emits P n) \<Longrightarrow> emits P (if b then m else n)"
  by auto

lemma emits_go_bind [emits_rules]:
  "emits P m \<Longrightarrow> (\<And>r. emits P (f r)) \<Longrightarrow> emits P (go_bind m f)"
  unfolding go_bind_def by (intro emits_rules)

lemma emits_for_each:
  "(\<And>x. x \<in> set xs \<Longrightarrow> emits P (body x)) \<Longrightarrow> emits P (for_each body xs)"
  by (induction xs) (auto intro!: emits_rules)

lemma emits_client [emits_rules]:
  "P (CreateCall ob) \<Longrightarrow> emits P (client_create E ob)"
  "P (UpdateCall ob) \<Longrightarrow> emits P (client_update E ob)"
  "P (DeleteCall ob) \<Longrightarrow> emits P (client_delete E ob)"
  "P (StatusUpdateCall cr) \<Longrightarrow> emits P (client_status_update E cr)"
  "emits P (time_now E)"
  "emits P (range_values E m)"
  "emits P (range_entries E m)"
  by (simp_all add: client_defs emits_rules)

text \<open>The rules other than sequencing, for use with \<open>emits_bind_strong\<close>.\<close>

lemmas emits_leaf = emits_ret emits_api emits_outside emits_option emits_sum emits_go emits_prod
  emits_if emits_client

lemma range_trace:
  "run_state (range_values E m) w = (vs, w') \<Longrightarrow> wTrace w' = wTrace w"
  "run_state (range_entries E m) w = (es, w') \<Longrightarrow> wTrace w' = wTrace w"
  by (auto simp: range_values_def range_entries_def)

subsection \<open>The order of map iteration\<close>

text \<open>
  The language's guarantee for \<open>range\<close> over a map: each key exactly once, in any order.
\<close>

definition range_ok :: "'s env \<Rightarrow> bool" where
  "range_ok E \<longleftrightarrow>
     (\<forall>A s. distinct (fst (sRange E A s)) \<and> set (fst (sRange E A s)) = fset A)"

lemma set_map_filter_lookup:
  "set (List.map_filter (fmlookup m) ks) = {v. \<exists>k \<in> set ks. fmlookup m k = Some v}"
  by (force simp: List.map_filter_def)

lemma range_values_result:
  assumes "range_ok E"
  shows "set (fst (run_state (range_values E m) w)) = fmran' m"
  using assms
  by (auto simp: range_values_def range_ok_def set_map_filter_lookup fmlookup_ran'_iff)
    (metis fmdomI)

lemma range_entries_result:
  assumes "range_ok E"
  shows "set (fst (run_state (range_entries E m) w)) = {(k, v). fmlookup m k = Some v}"
proof -
  have "set (List.map_filter (\<lambda>k. map_option (Pair k) (fmlookup m k)) ks) =
        {(k, v). k \<in> set ks \<and> fmlookup m k = Some v}" for ks
    by (force simp: List.map_filter_def)
  with assms show ?thesis
    by (auto simp: range_entries_def range_ok_def fmlookup_dom_iff)
qed

lemma distinct_range_entries:
  assumes "range_ok E"
  shows "distinct (map fst (fst (run_state (range_entries E m) w)))"
proof -
  have "map fst (List.map_filter (\<lambda>k. map_option (Pair k) (fmlookup m k)) ks) =
        filter (\<lambda>k. fmlookup m k \<noteq> None) ks" for ks
    by (induction ks) (auto simp: List.map_filter_def)
  with assms show ?thesis
    by (auto simp: range_entries_def range_ok_def)
qed

end
