(* ===== verification/Common.thy ===== *)
theory Common
  imports Sha256 Api_Client
begin

section \<open>internal/controller/common.go: labels and names\<close>

definition labels :: "InvokerDeployment \<Rightarrow> string gomap" where
  "labels inst = fmupd ''app'' ''invoker'' fmempty"

definition getConfigMapName :: "string \<Rightarrow> string" where
  "getConfigMapName name = name @ ''-configmap''"

definition getExecutorDeploymentName :: "string \<Rightarrow> string" where
  "getExecutorDeploymentName name = name @ ''-executor''"

definition getStatefulSetName :: "string \<Rightarrow> string" where
  "getStatefulSetName name = name @ ''-statefulset''"

definition getEntryServiceName :: "string \<Rightarrow> string" where
  "getEntryServiceName name = name @ ''-entry''"

definition getIngressName :: "string \<Rightarrow> string" where
  "getIngressName name = name @ ''-ingress''"

definition getSecretName :: "LocalObjectReference list" where
  "getSecretName = [\<lparr>lorName = ''my-docker-registry-secret''\<rparr>]"

text \<open>
  \<open>hexHash[:8]\<close> is in range, because a SHA-256 sum has 64 hexadecimal digits
  (\<open>length_Sum256\<close>).
\<close>

definition generateRevisionName :: "string \<Rightarrow> string \<Rightarrow> string" where
  "generateRevisionName resourceName specBytes =
     (let hash = Sum256 specBytes;
          hexHash = hex_EncodeToString hash;
          shortHash = take 8 hexHash
      in resourceName @ ''-rev-'' @ shortHash)"

lemma getConfigMapName_inj [simp]: "getConfigMapName a = getConfigMapName b \<longleftrightarrow> a = b"
  by (simp add: getConfigMapName_def)

text \<open>The hash part of a revision name is eight lower-case hexadecimal digits.\<close>

lemma length_hexHash: "length (hex_EncodeToString (Sum256 s)) = 64"
  by (simp add: length_hex_EncodeToString length_Sum256)

lemma generateRevisionName_parts:
  obtains h where "generateRevisionName n bs = n @ ''-rev-'' @ h"
    and "length h = 8" and "set h \<subseteq> set hex_alphabet"
proof
  let ?h = "take 8 (hex_EncodeToString (Sum256 bs))"
  show "generateRevisionName n bs = n @ ''-rev-'' @ ?h"
    by (simp add: generateRevisionName_def)
  show "length ?h = 8" by (simp add: length_hexHash)
  show "set ?h \<subseteq> set hex_alphabet"
    using set_take_subset hex_EncodeToString_alphabet by (rule order_trans)
qed

lemma generateRevisionName_not_Nil [simp]: "generateRevisionName n bs \<noteq> []"
  by (simp add: generateRevisionName_def Let_def)

end
