(* ===== verification/Converter.thy ===== *)
theory Converter
  imports Common
begin

section \<open>invokerdeployment_converter.go: from the spec to the desired objects\<close>

text \<open>
  The functions dereference optional fields of the spec; \<open>None\<close> is the nil-pointer panic of
  such a dereference.  \<open>SetControllerReference\<close> edits the metadata of the new object
  (\<open>eSetControllerReference\<close>).  A label map shared by several objects is copied: nothing
  writes to it after the objects exist.
\<close>

record DesiredInvokerDeploymentState =
  dsConfigMaps :: "ConfigMap list option"
  dsSecret :: "Secret option"
  dsStatefulEntities :: "Pod list option"

definition zero_desired :: DesiredInvokerDeploymentState where
  "zero_desired = \<lparr>dsConfigMaps = None, dsSecret = None, dsStatefulEntities = None\<rparr>"

subsection \<open>Config maps\<close>

definition nl :: string where
  "nl = [char_of (10 :: nat)]"

definition main_config :: "string \<Rightarrow> string \<Rightarrow> string \<Rightarrow> string" where
  "main_config io inp out =
     nl @ ''kafka.broker='' @ io @ nl @ ''input.topic='' @ inp @ nl @ ''output.topic='' @ out @ nl"

fun add_partitions :: "PodConfig list \<Rightarrow> string gomap \<Rightarrow> string gomap option" where
  "add_partitions [] data = Some data"
| "add_partitions (podConfig # rest) data = do {
     podName \<leftarrow> pcName podConfig;
     let key = podName @ ''.partitions'';
     let value = join_strings (slice_items (pcPartitions podConfig)) '','';
     add_partitions rest (fmupd key value data)
   }"

definition entityConfigMap ::
  "'s env \<Rightarrow> InvokerDeployment \<Rightarrow> string gomap \<Rightarrow> StatefulEntity \<Rightarrow> ConfigMap option" where
  "entityConfigMap E inst lbls statefulEntity = do {
     name \<leftarrow> seName statefulEntity;
     io \<leftarrow> seIOAddress statefulEntity;
     inp \<leftarrow> seInputTopic statefulEntity;
     out \<leftarrow> seOutputTopic statefulEntity;
     data \<leftarrow> add_partitions (entity_pods statefulEntity)
       (fmupd ''main'' (main_config io inp out) fmempty);
     Some \<lparr>cmMeta = eSetControllerReference E inst
              (zero_meta\<lparr>omNamespace := omNamespace (crMeta inst),
                 omName := getConfigMapName name, omLabels := lbls\<rparr>),
            cmData = data\<rparr>
   }"

definition getDesiredConfigMaps :: "'s env \<Rightarrow> InvokerDeployment \<Rightarrow> ConfigMap list option" where
  "getDesiredConfigMaps E inst =
     (let lbls = fmupd ''type'' ''statefulEntity'' (labels inst)
      in those (map (entityConfigMap E inst lbls) (spec_entities (crSpec inst))))"

subsection \<open>The registry secret\<close>

definition tabs :: "nat \<Rightarrow> string" where
  "tabs n = replicate n (char_of (9 :: nat))"

definition quoted :: "string \<Rightarrow> string" where
  "quoted s = [char_of (34 :: nat)] @ s @ [char_of (34 :: nat)]"

definition dockerConfigJson :: "string \<Rightarrow> string \<Rightarrow> string \<Rightarrow> string" where
  "dockerConfigJson username password email =
     ''{'' @ nl
     @ tabs 3 @ quoted ''auths'' @ '': {'' @ nl
     @ tabs 4 @ quoted ''https://index.docker.io/v1/'' @ '': {'' @ nl
     @ tabs 5 @ quoted ''username'' @ '': '' @ quoted username @ '','' @ nl
     @ tabs 5 @ quoted ''password'' @ '': '' @ quoted password @ '','' @ nl
     @ tabs 5 @ quoted ''email'' @ '': '' @ quoted email @ nl
     @ tabs 4 @ ''}'' @ nl
     @ tabs 3 @ ''}'' @ nl
     @ tabs 2 @ ''}''"

definition getDesiredSecret :: "'s env \<Rightarrow> InvokerDeployment \<Rightarrow> Secret" where
  "getDesiredSecret E inst =
     (let dockerPassword = eGetenv E ''PASSWORD'';
          dockerUsername = eGetenv E ''USERNAME'';
          dockerEmail = eGetenv E ''EMAIL''
      in \<lparr>scMeta = eSetControllerReference E inst
             (zero_meta\<lparr>omName := lorName (getSecretName ! 0), omNamespace := omNamespace (crMeta inst)\<rparr>),
          scType = ''kubernetes.io/dockerconfigjson'',
          scData = fmupd ''.dockerconfigjson''
             (dockerConfigJson dockerUsername dockerPassword dockerEmail) fmempty\<rparr>)"

subsection \<open>Pods\<close>

definition config_volume_mount :: VolumeMount where
  "config_volume_mount = \<lparr>vmName = ''config-volume'', vmMountPath = ''/etc/config''\<rparr>"

definition uds_volume_mount :: VolumeMount where
  "uds_volume_mount = \<lparr>vmName = ''uds-volume'', vmMountPath = ''/tmp''\<rparr>"

definition entityPod ::
  "'s env \<Rightarrow> InvokerDeployment \<Rightarrow> string gomap \<Rightarrow> StatefulEntity \<Rightarrow> PodConfig \<Rightarrow> Pod option" where
  "entityPod E inst lbls statefulEntity podConfig = do {
     podName \<leftarrow> pcName podConfig;
     executorImage \<leftarrow> seExecutorImage statefulEntity;
     ioImage \<leftarrow> seIOImage statefulEntity;
     stateImage \<leftarrow> seStateImage statefulEntity;
     name \<leftarrow> seName statefulEntity;
     Some \<lparr>podMeta = eSetControllerReference E inst
              (zero_meta\<lparr>omName := podName, omNamespace := omNamespace (crMeta inst), omLabels := lbls\<rparr>),
            podSpec = \<lparr>
              psContainers = [
                \<lparr>cnName = ''executor-pod'', cnImage = executorImage,
                 cnImagePullPolicy = idImagePullPolicy (crSpec inst), cnEnv = [],
                 cnVolumeMounts = [config_volume_mount, uds_volume_mount],
                 cnResources = pcResources podConfig\<rparr>,
                \<lparr>cnName = ''io-sidecar'', cnImage = ioImage,
                 cnImagePullPolicy = idImagePullPolicy (crSpec inst),
                 cnEnv = [\<lparr>evName = ''POD_NAME'',
                    evValueFrom = Some \<lparr>evsFieldPath = Some ''metadata.name'', evsConfigMapKeyRef = None\<rparr>\<rparr>],
                 cnVolumeMounts = [config_volume_mount, uds_volume_mount],
                 cnResources = pcResources podConfig\<rparr>,
                \<lparr>cnName = ''state-sidecar'', cnImage = stateImage,
                 cnImagePullPolicy = idImagePullPolicy (crSpec inst), cnEnv = [],
                 cnVolumeMounts = [uds_volume_mount],
                 cnResources = zero_resources\<rparr>],
              psVolumes = [
                \<lparr>vlName = ''config-volume'', vlConfigMap = Some \<lparr>lorName = getConfigMapName name\<rparr>,
                 vlEmptyDir = False\<rparr>,
                \<lparr>vlName = ''uds-volume'', vlConfigMap = None, vlEmptyDir = True\<rparr>],
              psImagePullSecrets = []\<rparr>,
            podPhase = []\<rparr>
   }"

text \<open>The body of the outer loop: the label map of the entity, then one pod per pod config.\<close>

definition entityPods :: "'s env \<Rightarrow> InvokerDeployment \<Rightarrow> StatefulEntity \<Rightarrow> Pod list option" where
  "entityPods E inst statefulEntity = do {
     name \<leftarrow> seName statefulEntity;
     let lbls = fmupd ''statefulEntityName'' name (fmupd ''type'' ''statefulEntity'' (labels inst));
     those (map (entityPod E inst lbls statefulEntity) (entity_pods statefulEntity))
   }"

definition getDesiredStatefulEntities :: "'s env \<Rightarrow> InvokerDeployment \<Rightarrow> Pod list option" where
  "getDesiredStatefulEntities E inst =
     map_option concat (those (map (entityPods E inst) (spec_entities (crSpec inst))))"

subsection \<open>The desired state\<close>

definition getDesiredClusterState ::
  "'s env \<Rightarrow> InvokerDeployment option \<Rightarrow> DesiredInvokerDeploymentState option" where
  "getDesiredClusterState E cr =
     (case cr of
        None \<Rightarrow> Some zero_desired
      | Some invokerDeployment \<Rightarrow> do {
          cms \<leftarrow> getDesiredConfigMaps E invokerDeployment;
          pods \<leftarrow> getDesiredStatefulEntities E invokerDeployment;
          Some \<lparr>dsConfigMaps = Some cms,
                 dsSecret = Some (getDesiredSecret E invokerDeployment),
                 dsStatefulEntities = Some pods\<rparr>
        })"

subsection \<open>Objects of the earlier design, still in the file\<close>

definition executor_template :: "string gomap \<Rightarrow> string \<Rightarrow> InvokerDeployment \<Rightarrow> PodTemplate" where
  "executor_template lbls name inst = \<lparr>ptLabels = lbls,
     ptSpec = \<lparr>
       psContainers = [
         \<lparr>cnName = ''executor-pod'', cnImage = [],
          cnImagePullPolicy = idImagePullPolicy (crSpec inst),
          cnEnv = [\<lparr>evName = ''KAFKA_BROKER'',
             evValueFrom = Some \<lparr>evsFieldPath = None,
               evsConfigMapKeyRef = Some (getConfigMapName name, ''broker.address'')\<rparr>\<rparr>],
          cnVolumeMounts = [], cnResources = zero_resources\<rparr>],
       psVolumes = [],
       psImagePullSecrets = getSecretName\<rparr>\<rparr>"

definition getDesiredDeployment :: "'s env \<Rightarrow> InvokerDeployment \<Rightarrow> Deployment" where
  "getDesiredDeployment E inst =
     (let lbls = labels inst; name = omName (crMeta inst)
      in \<lparr>dpMeta = eSetControllerReference E inst
             (zero_meta\<lparr>omName := omName (crMeta inst), omNamespace := omNamespace (crMeta inst)\<rparr>),
          dpReplicas = None, dpSelector = lbls,
          dpTemplate = executor_template lbls name inst, dpReadyReplicas = 0\<rparr>)"

definition getDesiredEntryService :: "'s env \<Rightarrow> InvokerDeployment \<Rightarrow> Service" where
  "getDesiredEntryService E inst =
     (let namespace = omNamespace (crMeta inst);
          serviceName = getEntryServiceName (omName (crMeta inst));
          lbls = labels inst
      in \<lparr>svMeta = eSetControllerReference E inst
             (zero_meta\<lparr>omNamespace := namespace, omName := serviceName, omLabels := lbls\<rparr>),
          svSelector = lbls, svType = ''ClusterIP'',
          svPorts = [\<lparr>spPort = 80, spTargetPort = 8080, spProtocol = ''TCP''\<rparr>]\<rparr>)"

definition getDesiredIngress :: "'s env \<Rightarrow> InvokerDeployment \<Rightarrow> Ingress" where
  "getDesiredIngress E inst =
     (let namespace = omNamespace (crMeta inst);
          name = omName (crMeta inst);
          ingressName = getIngressName name;
          serviceName = getEntryServiceName name
      in \<lparr>igMeta = eSetControllerReference E inst
             (zero_meta\<lparr>omName := ingressName, omNamespace := namespace\<rparr>),
          igRules = [\<lparr>irHost = ''invoker.io'',
             irPaths = [\<lparr>ipPath = ''/'', ipPathType = ''Prefix'', ipServiceName = serviceName,
               ipServicePort = 80\<rparr>]\<rparr>]\<rparr>)"

definition getDesiredStatefulSet :: "'s env \<Rightarrow> InvokerDeployment \<Rightarrow> StatefulSet" where
  "getDesiredStatefulSet E inst =
     (let lbls = labels inst; name = omName (crMeta inst)
      in \<lparr>ssMeta = eSetControllerReference E inst
             (zero_meta\<lparr>omName := omName (crMeta inst), omNamespace := omNamespace (crMeta inst)\<rparr>),
          ssReplicas = None, ssSelector = lbls,
          ssServiceName = getStatefulSetName (omName (crMeta inst)),
          ssTemplate = executor_template lbls name inst, ssReadyReplicas = 0\<rparr>)"

end
