(* ===== verification/Observer.thy ===== *)
theory Observer
  imports Common
begin

section \<open>invokerdeployment_observer.go: reading the state of the cluster\<close>

subsection \<open>State\<close>

text \<open>
  \<open>ObservedInvokerDeploymentState\<close>.  The maps are only read through \<open>len\<close>, indexing and
  \<open>range\<close>, which treat nil as empty, so the outer maps are plain finite maps; the inner maps
  of \<open>statefulEntities\<close> are compared with nil and keep the option.  \<open>ctrl.Request\<close> is its
  namespace and name.
\<close>

record ObservedInvokerDeploymentState =
  obCR :: "InvokerDeployment option"
  obRevisions :: "ControllerRevision list"
  obConfigMaps :: "ConfigMap gomap"
  obSecret :: "Secret option"
  obObserveTime :: "gotime option"
  obStatefulEntities :: "Pod gomap option gomap"

definition zero_observed :: ObservedInvokerDeploymentState where
  "zero_observed = \<lparr>obCR = None, obRevisions = [], obConfigMaps = fmempty, obSecret = None,
     obObserveTime = None, obStatefulEntities = fmempty\<rparr>"

record Request =
  rqNamespace :: string
  rqName :: string

subsection \<open>The single reads\<close>

definition observeRevisions ::
  "'s env \<Rightarrow> Request \<Rightarrow> ('s world, go_error + ControllerRevision list) state" where
  "observeRevisions E req =
     (let selector = fmupd ''invoker.io/invokerDeployment'' (rqName req) fmempty
      in api (ListRevisions selector (rqNamespace req)) (sListRevisions E selector (rqNamespace req)))"

definition observeSpec ::
  "'s env \<Rightarrow> Request \<Rightarrow> ('s world, go_error + InvokerDeployment) state" where
  "observeSpec E req =
     api (GetCR (rqNamespace req) (rqName req)) (sGetCR E (rqNamespace req) (rqName req))"

definition observeConfigMaps ::
  "'s env \<Rightarrow> Request \<Rightarrow> ('s world, go_error + ConfigMap list) state" where
  "observeConfigMaps E req =
     (let namespace = rqNamespace req; labelSelector = fmupd ''type'' ''statefulEntity'' fmempty
      in api (ListConfigMaps labelSelector namespace) (sListConfigMaps E labelSelector namespace))"

definition observeSecret :: "'s env \<Rightarrow> Request \<Rightarrow> ('s world, go_error + Secret) state" where
  "observeSecret E req =
     (let clusterNamespace = rqNamespace req; name = lorName (getSecretName ! 0)
      in api (GetSecret clusterNamespace name) (sGetSecret E clusterNamespace name))"

definition observeStatefulEntities ::
  "'s env \<Rightarrow> Request \<Rightarrow> ('s world, go_error + Pod list) state" where
  "observeStatefulEntities E req =
     (let namespace = rqNamespace req; labelSelector = fmupd ''type'' ''statefulEntity'' fmempty
      in api (ListPods labelSelector namespace) (sListPods E labelSelector namespace))"

text \<open>Readers of the earlier design, which no caller reaches now.\<close>

definition observeDeployment ::
  "'s env \<Rightarrow> string \<Rightarrow> string \<Rightarrow> ('s world, go_error + Deployment) state" where
  "observeDeployment E namespace name = api (GetDeployment namespace name) (sGetDeployment E namespace name)"

definition observeStatefulSet ::
  "'s env \<Rightarrow> string \<Rightarrow> string \<Rightarrow> ('s world, go_error + StatefulSet) state" where
  "observeStatefulSet E namespace name =
     api (GetStatefulSet namespace name) (sGetStatefulSet E namespace name)"

definition observeInvokerDeploymentStatefulSet ::
  "'s env \<Rightarrow> Request \<Rightarrow> ('s world, go_error + StatefulSet) state" where
  "observeInvokerDeploymentStatefulSet E req = observeStatefulSet E (rqNamespace req) (rqName req)"

definition observeService ::
  "'s env \<Rightarrow> Request \<Rightarrow> string \<Rightarrow> ('s world, go_error + Service) state" where
  "observeService E req serviceName =
     api (GetService (rqNamespace req) serviceName) (sGetService E (rqNamespace req) serviceName)"

definition observeIngress :: "'s env \<Rightarrow> Request \<Rightarrow> ('s world, go_error + Ingress) state" where
  "observeIngress E req =
     (let name = getIngressName (rqName req)
      in api (GetIngress (rqNamespace req) name) (sGetIngress E (rqNamespace req) name))"

lemmas observe_read_defs = observeRevisions_def observeSpec_def observeConfigMaps_def
  observeSecret_def observeStatefulEntities_def

subsection \<open>Indexing what was listed\<close>

definition index_config_maps :: "ConfigMap list \<Rightarrow> ConfigMap gomap" where
  "index_config_maps items = insert_all (\<lambda>cm. omName (cmMeta cm)) (\<lambda>cm. cm) items fmempty"

definition entity_label :: "Pod \<Rightarrow> string" where
  "entity_label p = index_string (omLabels (podMeta p)) ''statefulEntityName''"

abbreviation pod_name :: "Pod \<Rightarrow> string" where
  "pod_name p \<equiv> omName (podMeta p)"

fun group_pods :: "Pod list \<Rightarrow> Pod gomap option gomap \<Rightarrow> Pod gomap option gomap" where
  "group_pods [] m = m"
| "group_pods (observedPod # rest) m =
     (let se = entity_label observedPod;
          inner = (case index_ptr m se of None \<Rightarrow> fmempty | Some inner \<Rightarrow> inner)
      in group_pods rest (fmupd se (Some (fmupd (pod_name observedPod) observedPod inner)) m))"

subsection \<open>The whole observation\<close>

text \<open>
  One stage: a read, after which a NotFound error leaves the observed state as it was, any
  other error is returned, and a result is stored.
\<close>

definition observe_stage ::
  "('w, go_error + 'x) state \<Rightarrow> ('x \<Rightarrow> ObservedInvokerDeploymentState \<Rightarrow> ObservedInvokerDeploymentState) \<Rightarrow>
   ObservedInvokerDeploymentState \<Rightarrow> ('w, go_error option \<times> ObservedInvokerDeploymentState) state" where
  "observe_stage m store observed = do {
     r \<leftarrow> m;
     case r of
       Inl e \<Rightarrow> ret (IgnoreNotFound (Some e), observed)
     | Inr x \<Rightarrow> ret (None, store x observed)
   }"

definition observe ::
  "'s env \<Rightarrow> Request \<Rightarrow> ObservedInvokerDeploymentState \<Rightarrow>
   ('s world, go_error option \<times> ObservedInvokerDeploymentState) state" where
  "observe E req observed = do {
     (err, observed) \<leftarrow> observe_stage (observeSpec E req) (\<lambda>cr. obCR_update (\<lambda>_. Some cr)) observed;
     if err \<noteq> None then ret (err, observed)
     else case obCR observed of
       None \<Rightarrow> ret (None, observed)
     | Some cr \<Rightarrow> do {
         (err, observed) \<leftarrow> observe_stage (observeSecret E req)
           (\<lambda>s. obSecret_update (\<lambda>_. Some s)) observed;
         if err \<noteq> None then ret (err, observed)
         else do {
           (err, observed) \<leftarrow> observe_stage (observeConfigMaps E req)
             (\<lambda>cms. obConfigMaps_update (\<lambda>_. index_config_maps cms)) observed;
           if err \<noteq> None then ret (err, observed)
           else do {
             (err, observed) \<leftarrow> observe_stage (observeStatefulEntities E req)
               (\<lambda>pods. obStatefulEntities_update (\<lambda>_. group_pods pods fmempty)) observed;
             if err \<noteq> None then ret (err, observed)
             else do {
               now \<leftarrow> time_now E;
               (err, observed) \<leftarrow> observe_stage (observeRevisions E req)
                 (\<lambda>rs. obRevisions_update (\<lambda>old. old @ rs)) (observed\<lparr>obObserveTime := Some now\<rparr>);
               if err \<noteq> None then ret (err, observed)
               else case marshalSpec (eQuantityJSON E) (crSpec cr) of
                 Inl e \<Rightarrow> ret (Some e, observed)
               | Inr specBytes \<Rightarrow>
                   (let revisionName = generateRevisionName (omName (crMeta cr)) specBytes
                    in ret (None, observed\<lparr>obCR :=
                         Some (cr\<lparr>crStatus := (crStatus cr)\<lparr>stNextRevision := revisionName\<rparr>\<rparr>)\<rparr>))
             }
           }
         }
       }
   }"

subsection \<open>Lemmas\<close>

lemma emits_observe_stage [emits_rules]: "emits P m \<Longrightarrow> emits P (observe_stage m store observed)"
  unfolding observe_stage_def by (intro emits_rules)

definition observe_calls :: "Request \<Rightarrow> api_call list" where
  "observe_calls req =
     [GetCR (rqNamespace req) (rqName req),
      GetSecret (rqNamespace req) ''my-docker-registry-secret'',
      ListConfigMaps (fmupd ''type'' ''statefulEntity'' fmempty) (rqNamespace req),
      ListPods (fmupd ''type'' ''statefulEntity'' fmempty) (rqNamespace req),
      ListRevisions (fmupd ''invoker.io/invokerDeployment'' (rqName req) fmempty) (rqNamespace req)]"

lemma run_observe_stage:
  "run_state (observe_stage m store observed) w =
     (case run_state m w of
        (Inl e, w') \<Rightarrow> ((IgnoreNotFound (Some e), observed), w')
      | (Inr x, w') \<Rightarrow> ((None, store x observed), w'))"
  by (auto simp: observe_stage_def split: prod.splits sum.splits)

lemma emits_observe: "emits (\<lambda>c. c \<in> set (observe_calls req)) (observe E req observed)"
  unfolding observe_def observe_read_defs Let_def
  by (intro emits_rules) (simp_all add: observe_calls_def getSecretName_def)

lemma set_observe_calls_read: "c \<in> set (observe_calls req) \<Longrightarrow> is_read c"
  by (auto simp: observe_calls_def)

lemma emits_observe_read [emits_rules]: "(\<And>c. is_read c \<Longrightarrow> P c) \<Longrightarrow> emits P (observe E req observed)"
  by (rule emits_mono [OF emits_observe]) (blast dest: set_observe_calls_read)

text \<open>Where a pod ends up in the two-level map.\<close>

lemma group_pods_lookup_preserved:
  assumes "n \<notin> pod_name ` set pods"
  shows "(case index_ptr (group_pods pods m) se of None \<Rightarrow> None | Some inner \<Rightarrow> fmlookup inner n) =
         (case index_ptr m se of None \<Rightarrow> None | Some inner \<Rightarrow> fmlookup inner n)"
  using assms
proof (induction pods arbitrary: m)
  case Nil
  then show ?case by simp
next
  case (Cons p ps)
  then show ?case
    by (simp add: Let_def) (auto simp: index_ptr_def split: option.splits)
qed

definition observed_pod :: "Pod gomap option gomap \<Rightarrow> string \<Rightarrow> string \<Rightarrow> Pod option" where
  "observed_pod m se n = (case index_ptr m se of None \<Rightarrow> None | Some inner \<Rightarrow> fmlookup inner n)"

lemma observed_pod_group_other:
  "n \<notin> pod_name ` set pods \<Longrightarrow> observed_pod (group_pods pods m) se n = observed_pod m se n"
  unfolding observed_pod_def by (rule group_pods_lookup_preserved)

lemma observed_pod_group_member:
  assumes "distinct (map pod_name pods)" and "p \<in> set pods"
  shows "observed_pod (group_pods pods m) (entity_label p) (pod_name p) = Some p"
  using assms
proof (induction pods arbitrary: m)
  case Nil
  then show ?case by simp
next
  case (Cons q qs)
  show ?case
  proof (cases "p = q")
    case True
    with Cons.prems show ?thesis
      by (simp add: Let_def observed_pod_group_other) (simp add: observed_pod_def index_ptr_def)
  next
    case False
    with Cons show ?thesis by (simp add: Let_def)
  qed
qed

lemma observed_pod_group_SomeD:
  "observed_pod (group_pods pods m) se n = Some p \<Longrightarrow>
     (p \<in> set pods \<and> entity_label p = se \<and> pod_name p = n) \<or> observed_pod m se n = Some p"
proof (induction pods arbitrary: m)
  case Nil
  then show ?case by simp
next
  case (Cons q qs)
  from Cons.prems have "observed_pod (group_pods qs
      (fmupd (entity_label q) (Some (fmupd (pod_name q) q
        (case index_ptr m (entity_label q) of None \<Rightarrow> fmempty | Some inner \<Rightarrow> inner))) m)) se n = Some p"
    by (simp add: Let_def)
  from Cons.IH [OF this] show ?case
    by (auto simp: observed_pod_def index_ptr_def split: if_splits option.splits)
qed

lemma observed_pod_group_iff:
  assumes "distinct (map pod_name pods)"
  shows "observed_pod (group_pods pods fmempty) se n = Some p \<longleftrightarrow>
         p \<in> set pods \<and> entity_label p = se \<and> pod_name p = n"
  using assms observed_pod_group_member observed_pod_group_SomeD [of pods fmempty se n p]
  by (auto simp: observed_pod_def index_ptr_def)

lemma observed_pod_Some_iff:
  "observed_pod m se n = Some p \<longleftrightarrow>
     (\<exists>inner. fmlookup m se = Some (Some inner) \<and> fmlookup inner n = Some p)"
  by (auto simp: observed_pod_def index_ptr_def split: option.splits)

text \<open>The inner maps are never nil.\<close>

lemma group_pods_no_nil_acc:
  "(\<forall>k. fmlookup m k \<noteq> Some None) \<Longrightarrow> fmlookup (group_pods pods m) k \<noteq> Some None"
  by (induction pods arbitrary: m) (auto simp: Let_def)

lemma group_pods_no_nil: "fmlookup (group_pods pods fmempty) k \<noteq> Some None"
  by (rule group_pods_no_nil_acc) simp

end
