(* ===== verification/Status_Updater.thy ===== *)
theory Status_Updater
  imports Observer
begin

section \<open>invokerdeployment_updater.go: the status of the resource\<close>

subsection \<open>Component states\<close>

text \<open>The dereference of a nil \<open>Spec.Replicas\<close> panics; the comparison is on \<open>int32\<close>.\<close>

definition replicas_state :: "32 word option \<Rightarrow> 32 word \<Rightarrow> string go" where
  "replicas_state replicas readyReplicas =
     (case replicas of
        None \<Rightarrow> Panicked
      | Some n \<Rightarrow> Val (if sint n \<le> sint readyReplicas then ComponentStateReady else ComponentStateNotReady))"

definition getDeploymentState :: "Deployment \<Rightarrow> string go" where
  "getDeploymentState d = replicas_state (dpReplicas d) (dpReadyReplicas d)"

definition getStatefulSetState :: "StatefulSet \<Rightarrow> string go" where
  "getStatefulSetState s = replicas_state (ssReplicas s) (ssReadyReplicas s)"

definition getPodState :: "Pod \<Rightarrow> string" where
  "getPodState pod = (if podPhase pod = ''Running'' then ComponentStateReady else ComponentStateNotReady)"

subsection \<open>\<open>time.RFC3339\<close>\<close>

definition pad_decimal :: "nat \<Rightarrow> nat \<Rightarrow> string" where
  "pad_decimal width n =
     (let s = decimal_nat n in replicate (width - length s) (CHR ''0'') @ s)"

definition timeToString :: "gotime \<Rightarrow> string" where
  "timeToString t =
     pad_decimal 4 (gtYear t) @ ''-'' @ pad_decimal 2 (gtMonth t) @ ''-'' @ pad_decimal 2 (gtDay t)
     @ ''T'' @ pad_decimal 2 (gtHour t) @ '':'' @ pad_decimal 2 (gtMinute t) @ '':''
     @ pad_decimal 2 (gtSecond t)
     @ (if gtOffset t = 0 then ''Z''
        else
          (let zone = sgn (gtOffset t) * (\<bar>gtOffset t\<bar> div 60); a = nat \<bar>zone\<bar>
           in (if zone < 0 then ''-'' else ''+'') @ pad_decimal 2 (a div 60) @ '':''
              @ pad_decimal 2 (a mod 60)))"

subsection \<open>Deriving the status\<close>

definition typeAvailable :: string where "typeAvailable = ''Available''"
definition typeDegraded :: string where "typeDegraded = ''Degraded''"

definition starting_condition :: Condition where
  "starting_condition = \<lparr>cdType = typeAvailable, cdStatus = ''Unknown'', cdReason = ''Reconciling'',
     cdMessage = ''Starting reconciliation'', cdLastTransitionTime = None\<rparr>"

text \<open>
  The two counters \<open>runningSE\<close> and \<open>runningComponents\<close> start at 0 and are incremented
  together, so one number stands for both.
\<close>

fun all_ready :: "Pod list \<Rightarrow> bool \<Rightarrow> bool" where
  "all_ready [] allReady = allReady"
| "all_ready (p # ps) allReady =
     all_ready ps (if getPodState p \<noteq> ComponentStateReady then False else allReady)"

fun count_running :: "'s env \<Rightarrow> Pod gomap option list \<Rightarrow> nat \<Rightarrow> ('s world, nat) state" where
  "count_running E [] n = ret n"
| "count_running E (None # ses) n = count_running E ses n"
| "count_running E (Some se # ses) n = do {
     pods \<leftarrow> range_values E se;
     count_running E ses (if all_ready pods True then n + 1 else n)
   }"

text \<open>
  The \<open>switch\<close> on the recorded state: the new state, and whether the upgrade counter is
  incremented; \<open>None\<close> is the explicit \<open>panic\<close>.  In the branches for \<open>Stopping\<close> and
  \<open>Stopped\<close> the code assigns nothing, so the state stays empty.
\<close>

definition next_state :: "string \<Rightarrow> bool \<Rightarrow> nat \<Rightarrow> nat \<Rightarrow> (string \<times> bool) option" where
  "next_state recorded isClusterStateUpdating runningComponents totalComponents =
     (if recorded = [] \<or> recorded = StateCreating then
        Some (if runningComponents < totalComponents then StateCreating else StateRunning, False)
      else if recorded = StateRunning \<or> recorded = StateReconciling \<or> recorded = StateUpdating then
        (if isClusterStateUpdating then Some (StateUpdating, True)
         else if runningComponents < totalComponents then Some (StateReconciling, False)
         else Some (StateRunning, False))
      else if recorded = StateStopping \<or> recorded = StateStopped then Some ([], False)
      else None)"

definition deriveInvokerDeploymentStatus ::
  "'s env \<Rightarrow> InvokerDeploymentStatus \<Rightarrow> ObservedInvokerDeploymentState \<Rightarrow>
   ('s world, InvokerDeploymentStatus go) state" where
  "deriveInvokerDeploymentStatus E recorded observed = do {
     conditions \<leftarrow> (if stConditions recorded = []
        then outside (sSetStatusCondition E [] starting_condition)
        else ret (stConditions recorded));
     case obCR observed of
       None \<Rightarrow> ret Panicked
     | Some cr \<Rightarrow> do {
         let totalComponents = length (spec_entities (crSpec cr));
         let configMapState =
           (if fmdom (obConfigMaps observed) \<noteq> {||} then ComponentStateReady
            else if csConfigMap (stComponents recorded) \<noteq> [] then ComponentStateDeleted else []);
         let secretState =
           (if obSecret observed \<noteq> None then ComponentStateReady
            else if csSecret (stComponents recorded) \<noteq> [] then ComponentStateDeleted else []);
         let totalStatefulEntities = fcard (fmdom (obStatefulEntities observed));
         ses \<leftarrow> range_values E (obStatefulEntities observed);
         running \<leftarrow> count_running E ses 0;
         let entitiesState =
           (if running < totalStatefulEntities then ComponentStateNotReady else ComponentStateReady);
         let isClusterStateUpdating =
           (stCurrentRevision (crStatus cr) \<noteq> stNextRevision (crStatus cr));
         case next_state (stState recorded) isClusterStateUpdating running totalComponents of
           None \<Rightarrow> ret Panicked
         | Some (newState, upgraded) \<Rightarrow> do {
             _ \<leftarrow> (if upgraded then api IncUpgradeCounter (Pair ()) else ret ());
             ret (Val \<lparr>stConditions = conditions,
               stComponents = \<lparr>csConfigMap = configMapState, csStatefulEntities = entitiesState,
                 csSecret = secretState\<rparr>,
               stState = newState, stLastUpdateTime = [],
               stCurrentRevision = stCurrentRevision (crStatus cr),
               stNextRevision = stNextRevision (crStatus cr)\<rparr>)
           }
       }
   }"

subsection \<open>Updating it\<close>

definition isStatusChanged :: "InvokerDeploymentStatus \<Rightarrow> InvokerDeploymentStatus \<Rightarrow> bool" where
  "isStatusChanged currentStatus newStatus \<longleftrightarrow>
     stState newStatus \<noteq> stState currentStatus
     \<or> length (stConditions currentStatus) \<noteq> length (stConditions newStatus)
     \<or> csConfigMap (stComponents newStatus) \<noteq> csConfigMap (stComponents currentStatus)
     \<or> csStatefulEntities (stComponents newStatus) \<noteq> csStatefulEntities (stComponents currentStatus)"

text \<open>\<open>DeepCopyInto\<close> of the observed resource, then \<open>Status().Update\<close> of the copy.\<close>

definition updateClusterStatus ::
  "'s env \<Rightarrow> InvokerDeployment \<Rightarrow> InvokerDeploymentStatus \<Rightarrow> ('s world, go_error option) state" where
  "updateClusterStatus E cr status = client_status_update E (cr\<lparr>crStatus := status\<rparr>)"

definition updateStatusIfChanged ::
  "'s env \<Rightarrow> ObservedInvokerDeploymentState \<Rightarrow> ('s world, (bool \<times> go_error option) go) state" where
  "updateStatusIfChanged E observed =
     (case obCR observed of
        None \<Rightarrow> ret (Val (False, None))
      | Some cr \<Rightarrow>
          go_bind (deriveInvokerDeploymentStatus E (crStatus cr) observed) (\<lambda>newStatus.
            (let oldStatus = (crStatus cr)\<lparr>stLastUpdateTime := []\<rparr>
             in if isStatusChanged oldStatus newStatus then do {
                  now \<leftarrow> time_now E;
                  err \<leftarrow> updateClusterStatus E cr (newStatus\<lparr>stLastUpdateTime := timeToString now\<rparr>);
                  ret (Val (True, err))
                }
                else ret (Val (False, None)))))"

text \<open>
  \<open>updateCondition\<close>, which has no caller: \<open>newStatus.DeepCopyInto(&observed.cr.Status)\<close> copies
  the fresh, empty status over the observed one, not the other way round.
\<close>

definition updateCondition ::
  "'s env \<Rightarrow> ObservedInvokerDeploymentState \<Rightarrow> Condition \<Rightarrow>
   ('s world, (go_error option \<times> ObservedInvokerDeploymentState) go) state" where
  "updateCondition E observed condition =
     (case obCR observed of
        None \<Rightarrow> ret Panicked
      | Some cr \<Rightarrow> do {
          let cr = cr\<lparr>crStatus := zero_status\<rparr>;
          conditions \<leftarrow> outside (sSetStatusCondition E (stConditions zero_status) condition);
          err \<leftarrow> updateClusterStatus E cr (zero_status\<lparr>stConditions := conditions\<rparr>);
          ret (Val (err, observed\<lparr>obCR := Some cr\<rparr>))
        })"

subsection \<open>Revisions\<close>

text \<open>
  The new revision number is an \<open>int\<close>, 64 bits wide, converted to the \<open>int64\<close> of the object.
\<close>

definition new_revision ::
  "'s env \<Rightarrow> InvokerDeployment \<Rightarrow> string \<Rightarrow> 64 word \<Rightarrow> ControllerRevision" where
  "new_revision E cr specBytes revisionNum =
     \<lparr>rvMeta = zero_meta\<lparr>omName := generateRevisionName (omName (crMeta cr)) specBytes,
        omNamespace := omNamespace (crMeta cr),
        omLabels := fmupd ''invoker.io/invokerdeployment'' (omName (crMeta cr)) fmempty,
        omOwnerReferences := [eNewControllerRef E cr]\<rparr>,
      rvDataRaw = specBytes, rvRevision = revisionNum\<rparr>"

definition createControllerRevision ::
  "'s env \<Rightarrow> InvokerDeployment \<Rightarrow> 64 word \<Rightarrow> ('s world, go_error option \<times> InvokerDeployment) state" where
  "createControllerRevision E cr revisionNum =
     (case marshalSpec (eQuantityJSON E) (crSpec cr) of
        Inl e \<Rightarrow> ret (Some e, cr)
      | Inr specBytes \<Rightarrow> do {
          let revisionName = generateRevisionName (omName (crMeta cr)) specBytes;
          let cr = cr\<lparr>crStatus := (crStatus cr)\<lparr>stNextRevision := revisionName\<rparr>\<rparr>;
          let revision = new_revision E cr specBytes revisionNum;
          found \<leftarrow> api (GetRevision (omNamespace (crMeta cr)) revisionName)
            (sGetRevision E (omNamespace (crMeta cr)) revisionName);
          case found of
            Inl e \<Rightarrow>
              if \<not> IsNotFound e then ret (Some e, cr)
              else do {
                err \<leftarrow> client_create E (ObjRevision revision);
                ret (err, cr)
              }
          | Inr _ \<Rightarrow> do {
              err \<leftarrow> client_update E (ObjRevision revision);
              ret (err, cr)
            }
        })"

text \<open>
  \<open>syncRevisions\<close>: the result is the error and the observed resource, whose \<open>NextRevision\<close>
  \<open>createControllerRevision\<close> writes through the shared pointer.  A recorded text \<open>null\<close>
  leaves \<open>lastSpec\<close> nil, and \<open>*lastSpec\<close> panics.
\<close>

definition syncRevisions ::
  "'s env \<Rightarrow> InvokerDeployment option \<Rightarrow>
   ('s world, (go_error option \<times> InvokerDeployment option) go) state" where
  "syncRevisions E ocr =
     (case ocr of
        None \<Rightarrow> ret (Val (None, None))
      | Some cr \<Rightarrow>
        if stCurrentRevision (crStatus cr) = [] then do {
          (err, cr) \<leftarrow> createControllerRevision E cr 1;
          ret (Val (err, Some cr))
        }
        else do {
          let currentRevisionName = stCurrentRevision (crStatus cr);
          got \<leftarrow> api (GetRevision (omNamespace (crMeta cr)) currentRevisionName)
            (sGetRevision E (omNamespace (crMeta cr)) currentRevisionName);
          case got of
            Inl e \<Rightarrow> ret (Val (Some e, Some cr))
          | Inr lastRevision \<Rightarrow>
            (case UnmarshalSpec E (rvDataRaw lastRevision) of
               Inl e \<Rightarrow> ret (Val (Some e, Some cr))
             | Inr None \<Rightarrow> ret Panicked
             | Inr (Some lastSpec) \<Rightarrow>
               if crSpec cr \<noteq> lastSpec then do {
                 (err, cr) \<leftarrow> createControllerRevision E cr (rvRevision lastRevision + 1);
                 ret (Val (err, Some cr))
               }
               else ret (Val (None, Some cr)))
        })"

end
