(* ===== verification/Component_Contract.thy ===== *)
theory Component_Contract
  imports Common
begin

section \<open>The contract of a component reconciler\<close>

text \<open>
  Every component reconciler of \<open>invokerdeployment_reconciler.go\<close> (stateful set, deployment,
  service, config map, secret, pod) takes the desired and the observed object, either of which
  may be nil, and makes at most one request.  This theory states that contract once: the
  requests as values (\<open>action\<close>), how a request is carried out (\<open>perform\<close>), which request the
  two arguments call for (\<open>planned_action\<close>), and, in the locale, what follows for a single
  call and for a loop over many objects.
\<close>

datatype action = Create k8s_object | Update k8s_object | Delete k8s_object

fun action_call :: "action \<Rightarrow> api_call" where
  "action_call (Create ob) = CreateCall ob"
| "action_call (Update ob) = UpdateCall ob"
| "action_call (Delete ob) = DeleteCall ob"

text \<open>A deletion forgives NotFound.\<close>

fun perform :: "'s env \<Rightarrow> action option \<Rightarrow> ('s world, go_error option) state" where
  "perform E None = ret None"
| "perform E (Some (Create ob)) = client_create E ob"
| "perform E (Some (Update ob)) = client_update E ob"
| "perform E (Some (Delete ob)) = do { err \<leftarrow> client_delete E ob; ret (IgnoreNotFound err) }"

definition planned_action ::
  "('o \<Rightarrow> k8s_object) \<Rightarrow> ('o \<Rightarrow> 'o \<Rightarrow> action option) \<Rightarrow> 'o option \<Rightarrow> 'o option \<Rightarrow> action option" where
  "planned_action obj present desired observed =
     (case (desired, observed) of
        (Some d, None) \<Rightarrow> Some (Create (obj d))
      | (Some d, Some x) \<Rightarrow> present d x
      | (None, Some x) \<Rightarrow> Some (Delete (obj x))
      | (None, None) \<Rightarrow> None)"

lemma planned_action_simps [simp]:
  "planned_action obj present (Some d) None = Some (Create (obj d))"
  "planned_action obj present (Some d) (Some x) = present d x"
  "planned_action obj present None (Some x) = Some (Delete (obj x))"
  "planned_action obj present None None = None"
  by (simp_all add: planned_action_def)

lemma set_map_filter: "set (List.map_filter f xs) = {y. \<exists>x \<in> set xs. f x = Some y}"
  by (force simp: List.map_filter_def)

subsection \<open>Carrying out actions\<close>

text \<open>Whatever the server answers, the trace grows by the action's request.\<close>

lemma perform_trace:
  "run_state (perform E a) w = (r, w') \<Longrightarrow>
     wTrace w' = wTrace w @ (case a of None \<Rightarrow> [] | Some x \<Rightarrow> [action_call x])"
  by (induction E a rule: perform.induct) (auto simp: client_defs)

lemma emits_perform: "(\<And>x. a = Some x \<Longrightarrow> P (action_call x)) \<Longrightarrow> emits P (perform E a)"
  by (induction E a rule: perform.induct) (auto intro!: emits_rules)

text \<open>A loop that performs one optional action per element, up to the first error.\<close>

lemma for_each_perform_success:
  "run_state (for_each (\<lambda>x. perform E (f x)) xs) w = (None, w') \<Longrightarrow>
     wTrace w' = wTrace w @ map action_call (List.map_filter f xs)"
proof (induction xs arbitrary: w)
  case Nil
  then show ?case by (simp add: List.map_filter_def)
next
  case (Cons x xs)
  from Cons.prems obtain v where v: "run_state (perform E (f x)) w = (None, v)"
    and rest: "run_state (for_each (\<lambda>x. perform E (f x)) xs) v = (None, w')"
    by (auto split: prod.splits option.splits)
  from perform_trace [OF v] Cons.IH [OF rest] show ?case
    by (auto simp: List.map_filter_def split: option.splits)
qed

lemma for_each_perform_prefix:
  "run_state (for_each (\<lambda>x. perform E (f x)) xs) w = (r, w') \<Longrightarrow>
     \<exists>ys zs. xs = ys @ zs \<and> wTrace w' = wTrace w @ map action_call (List.map_filter f ys) \<and>
       (r = None \<longrightarrow> zs = [])"
proof (induction xs arbitrary: w)
  case Nil
  then show ?case by (auto simp: List.map_filter_def)
next
  case (Cons x xs)
  obtain e v where v: "run_state (perform E (f x)) w = (e, v)" by fastforce
  have x: "wTrace v = wTrace w @ map action_call (List.map_filter f [x])"
    using perform_trace [OF v] by (simp add: List.map_filter_def split: option.splits)
  show ?case
  proof (cases e)
    case (Some err)
    with Cons.prems v x show ?thesis
      by (intro exI [of _ "[x]"] exI [of _ xs]) auto
  next
    case None
    with Cons.prems v have "run_state (for_each (\<lambda>x. perform E (f x)) xs) v = (r, w')" by simp
    from Cons.IH [OF this] obtain ys zs where "xs = ys @ zs"
      and "wTrace w' = wTrace v @ map action_call (List.map_filter f ys)"
      and "r = None \<longrightarrow> zs = []" by blast
    with x show ?thesis
      by (intro exI [of _ "x # ys"] exI [of _ zs]) (auto simp: List.map_filter_def)
  qed
qed

subsection \<open>The contract\<close>

locale component_contract =
  fixes E :: "'s env"
    and reconcileOne :: "'o option \<Rightarrow> 'o option \<Rightarrow> ('s world, go_error option) state"
    and obj :: "'o \<Rightarrow> k8s_object"
    and present :: "'o \<Rightarrow> 'o \<Rightarrow> action option"
  assumes create_missing: "reconcileOne (Some d) None = perform E (Some (Create (obj d)))"
    and delete_extra: "reconcileOne None (Some x) = perform E (Some (Delete (obj x)))"
    and nothing_to_do: "reconcileOne None None = perform E None"
    and handle_present: "reconcileOne (Some d) (Some x) = perform E (present d x)"
    and present_touches_desired: "present d x = Some a \<Longrightarrow> a = Update (obj d) \<or> a = Delete (obj d)"
begin

lemma reconcileOne_eq: "reconcileOne d x = perform E (planned_action obj present d x)"
  by (cases d; cases x) (simp_all add: create_missing delete_extra nothing_to_do handle_present)

lemma one_call:
  "run_state (reconcileOne d x) w = (r, w') \<Longrightarrow>
     wTrace w' = wTrace w @ (case planned_action obj present d x of None \<Rightarrow> [] | Some a \<Rightarrow> [action_call a])"
  unfolding reconcileOne_eq by (rule perform_trace)

lemma at_most_one_call:
  assumes "run_state (reconcileOne d x) w = (r, w')"
  shows "length (wTrace w') \<le> length (wTrace w) + 1"
  using one_call [OF assms] by (simp split: option.splits)

lemma idle: "planned_action obj present d x = None \<Longrightarrow> reconcileOne d x = ret None"
  by (simp add: reconcileOne_eq)

lemma emits_one:
  "(\<And>a. planned_action obj present d x = Some a \<Longrightarrow> P (action_call a)) \<Longrightarrow> emits P (reconcileOne d x)"
  unfolding reconcileOne_eq by (rule emits_perform)

text \<open>Only objects of this component's kind are named: the desired one or the observed one.\<close>

lemma action_objects:
  assumes "planned_action obj present d x = Some a"
  shows "(\<exists>y. d = Some y \<and> a \<in> {Create (obj y), Update (obj y), Delete (obj y)}) \<or>
         (\<exists>y. d = None \<and> x = Some y \<and> a = Delete (obj y))"
  using assms present_touches_desired by (cases d; cases x) auto

lemma loop_success:
  assumes "run_state (for_each (\<lambda>(d, x). reconcileOne d x) ps) w = (None, w')"
  shows "wTrace w' = wTrace w @
    map action_call (List.map_filter (\<lambda>(d, x). planned_action obj present d x) ps)"
proof -
  have "for_each (\<lambda>(d, x). reconcileOne d x) ps =
        for_each (\<lambda>p. perform E (case p of (d, x) \<Rightarrow> planned_action obj present d x)) ps"
    by (rule for_each_cong) (auto simp: reconcileOne_eq)
  with assms show ?thesis by (simp add: for_each_perform_success)
qed

end

end
