(* ===== verification/Resource_Reconciler.thy ===== *)
theory Resource_Reconciler
  imports Converter Status_Updater Component_Contract
begin

section \<open>invokerdeployment_reconciler.go: acting on the cluster\<close>

record Result =
  rsRequeue :: bool
  rsRequeueAfter :: int

definition zero_result :: Result where
  "zero_result = \<lparr>rsRequeue = False, rsRequeueAfter = 0\<rparr>"

text \<open>A \<open>time.Duration\<close> counts nanoseconds.\<close>

definition Second :: int where "Second = 1000000000"

definition requeueResult :: Result where
  "requeueResult = \<lparr>rsRequeue = True, rsRequeueAfter = 10 * Second\<rparr>"

text \<open>The test all the component reconcilers share.\<close>

definition revision_changed :: "InvokerDeployment \<Rightarrow> bool" where
  "revision_changed cr \<longleftrightarrow> stCurrentRevision (crStatus cr) \<noteq> stNextRevision (crStatus cr)"

subsection \<open>Create, update, delete\<close>

text \<open>\<open>err = k8sClient.Delete(...); err = client.IgnoreNotFound(err)\<close>.\<close>

definition delete_if_found :: "'s env \<Rightarrow> k8s_object \<Rightarrow> ('s world, go_error option) state" where
  "delete_if_found E ob = do { err \<leftarrow> client_delete E ob; ret (IgnoreNotFound err) }"

definition not_a_client_object :: go_error where
  "not_a_client_object = OtherError ''the desired object does not implement client.Object''"

definition updateComponent :: "'s env \<Rightarrow> runtime_object \<Rightarrow> ('s world, go_error option) state" where
  "updateComponent E desired =
     (case desired of
        NoClientObject \<Rightarrow> ret (Some not_a_client_object)
      | ClientObject desiredObj \<Rightarrow> client_update E desiredObj)"

definition deleteOldComponent ::
  "'s env \<Rightarrow> runtime_object \<Rightarrow> runtime_object \<Rightarrow> ('s world, go_error option) state" where
  "deleteOldComponent E desired observed =
     (case desired of
        NoClientObject \<Rightarrow> ret (Some not_a_client_object)
      | ClientObject desiredObj \<Rightarrow> client_delete E desiredObj)"

definition createStatefulSet :: "'s env \<Rightarrow> StatefulSet \<Rightarrow> ('s world, go_error option) state" where
  "createStatefulSet E statefulSet = client_create E (ObjStatefulSet statefulSet)"

definition deleteStatefulSet :: "'s env \<Rightarrow> StatefulSet \<Rightarrow> ('s world, go_error option) state" where
  "deleteStatefulSet E statefulSet = delete_if_found E (ObjStatefulSet statefulSet)"

definition createDeployment :: "'s env \<Rightarrow> Deployment \<Rightarrow> ('s world, go_error option) state" where
  "createDeployment E deployment = client_create E (ObjDeployment deployment)"

definition deleteDeployment :: "'s env \<Rightarrow> Deployment \<Rightarrow> ('s world, go_error option) state" where
  "deleteDeployment E deployment = delete_if_found E (ObjDeployment deployment)"

definition createService :: "'s env \<Rightarrow> Service \<Rightarrow> ('s world, go_error option) state" where
  "createService E service = client_create E (ObjService service)"

definition deleteService :: "'s env \<Rightarrow> Service \<Rightarrow> ('s world, go_error option) state" where
  "deleteService E service = delete_if_found E (ObjService service)"

definition createConfigMap :: "'s env \<Rightarrow> ConfigMap \<Rightarrow> ('s world, go_error option) state" where
  "createConfigMap E cm = client_create E (ObjConfigMap cm)"

definition deleteConfigMap :: "'s env \<Rightarrow> ConfigMap \<Rightarrow> ('s world, go_error option) state" where
  "deleteConfigMap E cm = delete_if_found E (ObjConfigMap cm)"

definition createSecret :: "'s env \<Rightarrow> Secret \<Rightarrow> ('s world, go_error option) state" where
  "createSecret E secret = client_create E (ObjSecret secret)"

definition deleteSecret :: "'s env \<Rightarrow> Secret \<Rightarrow> ('s world, go_error option) state" where
  "deleteSecret E secret = delete_if_found E (ObjSecret secret)"

definition createIngress :: "'s env \<Rightarrow> Ingress \<Rightarrow> ('s world, go_error option) state" where
  "createIngress E ingress = client_create E (ObjIngress ingress)"

definition deleteIngress :: "'s env \<Rightarrow> Ingress \<Rightarrow> ('s world, go_error option) state" where
  "deleteIngress E ingress = delete_if_found E (ObjIngress ingress)"

definition createPod :: "'s env \<Rightarrow> Pod \<Rightarrow> ('s world, go_error option) state" where
  "createPod E pod = client_create E (ObjPod pod)"

definition deletePod :: "'s env \<Rightarrow> Pod \<Rightarrow> ('s world, go_error option) state" where
  "deletePod E pod = delete_if_found E (ObjPod pod)"

subsection \<open>One component: desired against observed\<close>

definition reconcileStatefulSet ::
  "'s env \<Rightarrow> InvokerDeployment \<Rightarrow> StatefulSet option \<Rightarrow> StatefulSet option \<Rightarrow> ('s world, go_error option) state" where
  "reconcileStatefulSet E cr desired observed =
     (case (desired, observed) of
        (Some d, None) \<Rightarrow> createStatefulSet E d
      | (Some d, Some _) \<Rightarrow>
          (if revision_changed cr then updateComponent E (ClientObject (ObjStatefulSet d)) else ret None)
      | (None, Some ob) \<Rightarrow> deleteStatefulSet E ob
      | (None, None) \<Rightarrow> ret None)"

definition reconcileDeployment ::
  "'s env \<Rightarrow> InvokerDeployment \<Rightarrow> Deployment option \<Rightarrow> Deployment option \<Rightarrow> ('s world, go_error option) state" where
  "reconcileDeployment E cr desired observed =
     (case (desired, observed) of
        (Some d, None) \<Rightarrow> createDeployment E d
      | (Some d, Some _) \<Rightarrow>
          (if revision_changed cr then updateComponent E (ClientObject (ObjDeployment d)) else ret None)
      | (None, Some ob) \<Rightarrow> deleteDeployment E ob
      | (None, None) \<Rightarrow> ret None)"

definition reconcileService ::
  "'s env \<Rightarrow> InvokerDeployment \<Rightarrow> Service option \<Rightarrow> Service option \<Rightarrow> ('s world, go_error option) state" where
  "reconcileService E cr desired observed =
     (case (desired, observed) of
        (Some d, None) \<Rightarrow> createService E d
      | (Some d, Some _) \<Rightarrow>
          (if revision_changed cr then updateComponent E (ClientObject (ObjService d)) else ret None)
      | (None, Some ob) \<Rightarrow> deleteService E ob
      | (None, None) \<Rightarrow> ret None)"

definition reconcileConfigMap ::
  "'s env \<Rightarrow> InvokerDeployment \<Rightarrow> ConfigMap option \<Rightarrow> ConfigMap option \<Rightarrow> ('s world, go_error option) state" where
  "reconcileConfigMap E cr desired observed =
     (case (desired, observed) of
        (Some d, None) \<Rightarrow> createConfigMap E d
      | (Some d, Some _) \<Rightarrow>
          (if revision_changed cr then updateComponent E (ClientObject (ObjConfigMap d)) else ret None)
      | (None, Some ob) \<Rightarrow> deleteConfigMap E ob
      | (None, None) \<Rightarrow> ret None)"

definition reconcileSecret ::
  "'s env \<Rightarrow> Secret option \<Rightarrow> Secret option \<Rightarrow> ('s world, go_error option) state" where
  "reconcileSecret E desired observed =
     (case (desired, observed) of
        (Some d, None) \<Rightarrow> createSecret E d
      | (Some d, Some _) \<Rightarrow> ret None
      | (None, Some ob) \<Rightarrow> deleteSecret E ob
      | (None, None) \<Rightarrow> ret None)"

subsection \<open>When a pod is replaced\<close>

text \<open>
  The loop variable is a copy, so defaulting the requests changes the map entry only.
\<close>

definition default_requests :: "ResourceRequirements \<Rightarrow> ResourceRequirements" where
  "default_requests r = (if rrRequests r = None then r\<lparr>rrRequests := rrLimits r\<rparr> else r)"

definition pod_resources :: "Pod \<Rightarrow> ResourceRequirements gomap" where
  "pod_resources pod =
     insert_all cnName (\<lambda>c. default_requests (cnResources c)) (psContainers (podSpec pod)) fmempty"

definition needToRestartPod :: "Pod \<Rightarrow> Pod \<Rightarrow> bool" where
  "needToRestartPod desiredPod observedPod \<longleftrightarrow> pod_resources desiredPod \<noteq> pod_resources observedPod"

definition reconcilePod ::
  "'s env \<Rightarrow> InvokerDeployment \<Rightarrow> Pod option \<Rightarrow> Pod option \<Rightarrow> ('s world, go_error option) state" where
  "reconcilePod E cr desired observed =
     (case (desired, observed) of
        (Some d, None) \<Rightarrow> createPod E d
      | (Some d, Some ob) \<Rightarrow>
          (if revision_changed cr \<and> needToRestartPod d ob then deletePod E d else ret None)
      | (None, Some ob) \<Rightarrow> deletePod E ob
      | (None, None) \<Rightarrow> ret None)"

subsection \<open>The loops of \<open>reconcile\<close>\<close>

abbreviation cm_name :: "ConfigMap \<Rightarrow> string" where
  "cm_name cm \<equiv> omName (cmMeta cm)"

fun reconcileDesiredConfigMaps ::
  "'s env \<Rightarrow> InvokerDeployment \<Rightarrow> ConfigMap gomap \<Rightarrow> ConfigMap list \<Rightarrow> bool gomap \<Rightarrow>
   ('s world, go_error option \<times> bool gomap) state" where
  "reconcileDesiredConfigMaps E cr observed [] configMapDesired = ret (None, configMapDesired)"
| "reconcileDesiredConfigMaps E cr observed (desired # rest) configMapDesired = do {
     let configMapDesired = fmupd (cm_name desired) True configMapDesired;
     err \<leftarrow> reconcileConfigMap E cr (Some desired) (fmlookup observed (cm_name desired));
     case err of
       Some e \<Rightarrow> ret (Some e, configMapDesired)
     | None \<Rightarrow> reconcileDesiredConfigMaps E cr observed rest configMapDesired
   }"

definition reconcileObservedConfigMaps ::
  "'s env \<Rightarrow> InvokerDeployment \<Rightarrow> bool gomap \<Rightarrow> (string \<times> ConfigMap) list \<Rightarrow> ('s world, go_error option) state" where
  "reconcileObservedConfigMaps E cr configMapDesired entries =
     for_each (\<lambda>(name, observed).
       if fmlookup configMapDesired name = None then reconcileConfigMap E cr None (Some observed)
       else ret None) entries"

text \<open>The observed pod a desired pod is compared with: by the entity in its label, then by name.\<close>

fun reconcileDesiredPods ::
  "'s env \<Rightarrow> InvokerDeployment \<Rightarrow> Pod gomap option gomap \<Rightarrow> Pod list \<Rightarrow> bool gomap \<Rightarrow>
   ('s world, go_error option \<times> bool gomap) state" where
  "reconcileDesiredPods E cr observed [] podDesired = ret (None, podDesired)"
| "reconcileDesiredPods E cr observed (desired # rest) podDesired = do {
     let seName = entity_label desired;
     let observedSE = index_ptr observed seName;
     let observedPod = (case observedSE of None \<Rightarrow> None | Some se \<Rightarrow> fmlookup se (pod_name desired));
     let podDesired = fmupd (pod_name desired) True podDesired;
     err \<leftarrow> reconcilePod E cr (Some desired) observedPod;
     case err of
       Some e \<Rightarrow> ret (Some e, podDesired)
     | None \<Rightarrow> reconcileDesiredPods E cr observed rest podDesired
   }"

definition reconcileObservedPod ::
  "'s env \<Rightarrow> InvokerDeployment \<Rightarrow> bool gomap \<Rightarrow> Pod \<Rightarrow> ('s world, go_error option) state" where
  "reconcileObservedPod E cr podDesired pod =
     (if fmlookup podDesired (pod_name pod) = None then reconcilePod E cr None (Some pod) else ret None)"

definition reconcileObservedEntity ::
  "'s env \<Rightarrow> InvokerDeployment \<Rightarrow> bool gomap \<Rightarrow> Pod gomap option \<Rightarrow> ('s world, go_error option) state" where
  "reconcileObservedEntity E cr podDesired observedSE =
     (case observedSE of
        None \<Rightarrow> ret None
      | Some se \<Rightarrow> do {
          pods \<leftarrow> range_values E se;
          for_each (reconcileObservedPod E cr podDesired) pods
        })"

text \<open>\<open>reconcile\<close> itself.\<close>

definition reconcileResources ::
  "'s env \<Rightarrow> ObservedInvokerDeploymentState \<Rightarrow> DesiredInvokerDeploymentState \<Rightarrow>
   ('s world, Result \<times> go_error option) state" where
  "reconcileResources E observed desired =
     (case obCR observed of
        None \<Rightarrow> ret (zero_result, None)
      | Some cr \<Rightarrow> do {
          (err, configMapDesired) \<leftarrow> reconcileDesiredConfigMaps E cr (obConfigMaps observed)
            (slice_items (dsConfigMaps desired)) fmempty;
          if err \<noteq> None then ret (zero_result, err)
          else do {
            entries \<leftarrow> range_entries E (obConfigMaps observed);
            err \<leftarrow> reconcileObservedConfigMaps E cr configMapDesired entries;
            if err \<noteq> None then ret (zero_result, err)
            else do {
              (err, podDesired) \<leftarrow> reconcileDesiredPods E cr (obStatefulEntities observed)
                (slice_items (dsStatefulEntities desired)) fmempty;
              if err \<noteq> None then ret (zero_result, err)
              else do {
                ses \<leftarrow> range_values E (obStatefulEntities observed);
                err \<leftarrow> for_each (reconcileObservedEntity E cr podDesired) ses;
                if err \<noteq> None then ret (zero_result, err)
                else do {
                  let cluster = cr\<lparr>crStatus := (crStatus cr)\<lparr>stCurrentRevision :=
                    stNextRevision (crStatus cr)\<rparr>\<rparr>;
                  err \<leftarrow> client_status_update E cluster;
                  ret (zero_result, err)
                }
              }
            }
          }
        })"

subsection \<open>Old revisions\<close>

text \<open>
  \<open>revisions[:excess]\<close> with a negative limit reaches past the length.  The slice expression panics
  beyond the capacity; within it the revisions are deleted one by one, and the nil pointers behind
  the last one panic.  The resource's validation keeps the limit at 1 or more.
\<close>

definition cleanupOldRevisions ::
  "'s env \<Rightarrow> ObservedInvokerDeploymentState \<Rightarrow> ('s world, go_error option go) state" where
  "cleanupOldRevisions E observed =
     (case obCR observed of
        None \<Rightarrow> ret (Val None)
      | Some cr \<Rightarrow>
        (case idHistoryLimit (crSpec cr) of
           None \<Rightarrow> ret Panicked
         | Some limit \<Rightarrow>
           (let revisions = obRevisions observed
            in if int (length revisions) \<le> sint limit then ret (Val None)
               else
                 (let sortedRevisions = eSortByRevision E revisions;
                      excess = int (length revisions) - sint limit
                  in if excess > int (length revisions) then
                       (if excess > int (eAppendCap E (length revisions)) then ret Panicked
                        else do {
                          err \<leftarrow> for_each (\<lambda>oldRevision. client_delete E (ObjRevision oldRevision)) sortedRevisions;
                          case err of Some e \<Rightarrow> ret (Val (Some e)) | None \<Rightarrow> ret Panicked
                        })
                     else do {
                       err \<leftarrow> for_each (\<lambda>oldRevision. client_delete E (ObjRevision oldRevision))
                         (take (nat excess) sortedRevisions);
                       ret (Val err)
                     }))))"

subsection \<open>The component reconcilers keep the contract\<close>

definition update_present ::
  "('o \<Rightarrow> k8s_object) \<Rightarrow> InvokerDeployment \<Rightarrow> 'o \<Rightarrow> 'o \<Rightarrow> action option" where
  "update_present obj cr d x = (if revision_changed cr then Some (Update (obj d)) else None)"

definition restart_present :: "InvokerDeployment \<Rightarrow> Pod \<Rightarrow> Pod \<Rightarrow> action option" where
  "restart_present cr d x =
     (if revision_changed cr \<and> needToRestartPod d x then Some (Delete (ObjPod d)) else None)"

lemmas create_defs = createStatefulSet_def createDeployment_def createService_def
  createConfigMap_def createSecret_def createIngress_def createPod_def

lemmas delete_defs = deleteStatefulSet_def deleteDeployment_def deleteService_def
  deleteConfigMap_def deleteSecret_def deleteIngress_def deletePod_def delete_if_found_def

lemmas reconcile_component_defs = reconcileStatefulSet_def reconcileDeployment_def
  reconcileService_def reconcileConfigMap_def reconcileSecret_def reconcilePod_def
  updateComponent_def update_present_def restart_present_def

interpretation stateful_sets:
  component_contract E "reconcileStatefulSet E cr" ObjStatefulSet "update_present ObjStatefulSet cr"
  for E :: "'s env" and cr
  by unfold_locales (auto simp: reconcile_component_defs create_defs delete_defs split: if_splits)

interpretation deployments:
  component_contract E "reconcileDeployment E cr" ObjDeployment "update_present ObjDeployment cr"
  for E :: "'s env" and cr
  by unfold_locales (auto simp: reconcile_component_defs create_defs delete_defs split: if_splits)

interpretation services:
  component_contract E "reconcileService E cr" ObjService "update_present ObjService cr"
  for E :: "'s env" and cr
  by unfold_locales (auto simp: reconcile_component_defs create_defs delete_defs split: if_splits)

interpretation config_maps:
  component_contract E "reconcileConfigMap E cr" ObjConfigMap "update_present ObjConfigMap cr"
  for E :: "'s env" and cr
  by unfold_locales (auto simp: reconcile_component_defs create_defs delete_defs split: if_splits)

interpretation secrets:
  component_contract E "reconcileSecret E" ObjSecret "\<lambda>_ _. None"
  for E :: "'s env"
  by unfold_locales (auto simp: reconcile_component_defs create_defs delete_defs)

interpretation pods:
  component_contract E "reconcilePod E cr" ObjPod "restart_present cr"
  for E :: "'s env" and cr
  by unfold_locales (auto simp: reconcile_component_defs create_defs delete_defs split: if_splits)

text \<open>
  All component reconcilers follow one plan: for every server, each of the six carries out
  exactly the action that its two arguments call for: create what is desired and missing,
  delete what is observed and not desired, do nothing when both are nil, and when both are
  there update it (stateful set, deployment, service, config map) or delete it (pod) only if the
  revision changed, or leave it alone (secret).
\<close>

theorem component_reconcilers_plan:
  "reconcileStatefulSet E cr ss ss' =
     perform E (planned_action ObjStatefulSet (update_present ObjStatefulSet cr) ss ss') \<and>
   reconcileDeployment E cr dp dp' =
     perform E (planned_action ObjDeployment (update_present ObjDeployment cr) dp dp') \<and>
   reconcileService E cr sv sv' =
     perform E (planned_action ObjService (update_present ObjService cr) sv sv') \<and>
   reconcileConfigMap E cr cm cm' =
     perform E (planned_action ObjConfigMap (update_present ObjConfigMap cr) cm cm') \<and>
   reconcileSecret E sc sc' = perform E (planned_action ObjSecret (\<lambda>_ _. None) sc sc') \<and>
   reconcilePod E cr p p' = perform E (planned_action ObjPod (restart_present cr) p p')"
  by (intro conjI stateful_sets.reconcileOne_eq deployments.reconcileOne_eq services.reconcileOne_eq
      config_maps.reconcileOne_eq secrets.reconcileOne_eq pods.reconcileOne_eq)

subsection \<open>The loops as plans\<close>

definition cm_plan :: "InvokerDeployment \<Rightarrow> ConfigMap gomap \<Rightarrow> ConfigMap \<Rightarrow> action option" where
  "cm_plan cr observed d =
     planned_action ObjConfigMap (update_present ObjConfigMap cr) (Some d) (fmlookup observed (cm_name d))"

definition pod_plan :: "InvokerDeployment \<Rightarrow> Pod gomap option gomap \<Rightarrow> Pod \<Rightarrow> action option" where
  "pod_plan cr observed d =
     planned_action ObjPod (restart_present cr) (Some d)
       (observed_pod observed (entity_label d) (pod_name d))"

lemma run_reconcileDesiredConfigMaps:
  "run_state (reconcileDesiredConfigMaps E cr observed ds des) w = ((r, des'), w') \<Longrightarrow>
     run_state (for_each (\<lambda>d. perform E (cm_plan cr observed d)) ds) w = (r, w') \<and>
     (r = None \<longrightarrow> des' = insert_all cm_name (\<lambda>_. True) ds des)"
proof (induction ds arbitrary: des w)
  case Nil
  then show ?case by auto
next
  case (Cons d ds)
  then show ?case
    by (auto simp: config_maps.reconcileOne_eq cm_plan_def Let_def split: prod.splits option.splits)
qed

lemma run_reconcileDesiredPods:
  "run_state (reconcileDesiredPods E cr observed ds des) w = ((r, des'), w') \<Longrightarrow>
     run_state (for_each (\<lambda>d. perform E (pod_plan cr observed d)) ds) w = (r, w') \<and>
     (r = None \<longrightarrow> des' = insert_all pod_name (\<lambda>_. True) ds des)"
proof (induction ds arbitrary: des w)
  case Nil
  then show ?case by auto
next
  case (Cons d ds)
  then show ?case
    by (auto simp: pods.reconcileOne_eq pod_plan_def observed_pod_def Let_def
        split: prod.splits option.splits)
qed

lemma reconcileObservedConfigMaps_eq:
  "reconcileObservedConfigMaps E cr des entries =
     for_each (\<lambda>e. perform E
       (if fmlookup des (fst e) = None then Some (Delete (ObjConfigMap (snd e))) else None)) entries"
  unfolding reconcileObservedConfigMaps_def
  by (rule for_each_cong) (auto simp: config_maps.delete_extra)

lemma reconcileObservedPod_eq:
  "reconcileObservedPod E cr des p =
     perform E (if fmlookup des (pod_name p) = None then Some (Delete (ObjPod p)) else None)"
  by (simp add: reconcileObservedPod_def pods.delete_extra)

text \<open>The desired names, as the code collects them.\<close>

lemma lookup_desired_names:
  "fmlookup (insert_all key (\<lambda>_. True) ds fmempty) n = None \<longleftrightarrow> n \<notin> key ` set ds"
proof -
  have "n |\<in>| fmdom (insert_all key (\<lambda>_. True) ds fmempty) \<longleftrightarrow> n \<in> key ` set ds"
    by (auto simp: fmdom_insert_all fset_of_list.rep_eq)
  then show ?thesis by (auto simp: fmlookup_dom_iff)
qed

end
