(* ===== verification/Mem_Server.thy ===== *)
theory Mem_Server
  imports
    Common
    Spec_Roundtrip
    "HOL-Library.Product_Lexorder"
begin

section \<open>An in-memory environment\<close>

text \<open>
  One concrete environment: an API server that keeps its objects in a map from kind, namespace
  and name, answers \<open>List\<close> by namespace and labels, refuses a second \<open>Create\<close> of a name, and
  reports NotFound for a missing object; the helper functions of the client libraries after
  their documentation.  It shows that the hypotheses of the theorems about servers can hold
  together, and the witnesses run on it.  The theorems themselves are about every environment.
  A deletion takes effect at once here, and a resource whose last finalizer is removed while it
  is being deleted disappears.
\<close>

type_synonym store = "(string \<times> string \<times> string, k8s_object) fmap"

primrec object_kind :: "k8s_object \<Rightarrow> string" where
  "object_kind (ObjCR o1) = ''InvokerDeployment''"
| "object_kind (ObjPod o1) = ''Pod''"
| "object_kind (ObjConfigMap o1) = ''ConfigMap''"
| "object_kind (ObjSecret o1) = ''Secret''"
| "object_kind (ObjRevision o1) = ''ControllerRevision''"
| "object_kind (ObjDeployment o1) = ''Deployment''"
| "object_kind (ObjStatefulSet o1) = ''StatefulSet''"
| "object_kind (ObjService o1) = ''Service''"
| "object_kind (ObjIngress o1) = ''Ingress''"

definition object_key :: "k8s_object \<Rightarrow> string \<times> string \<times> string" where
  "object_key ob = (object_kind ob, omNamespace (object_meta ob), omName (object_meta ob))"

fun as_cr :: "k8s_object \<Rightarrow> InvokerDeployment option" where
  "as_cr (ObjCR x) = Some x" | "as_cr _ = None"

fun as_pod :: "k8s_object \<Rightarrow> Pod option" where
  "as_pod (ObjPod x) = Some x" | "as_pod _ = None"

fun as_config_map :: "k8s_object \<Rightarrow> ConfigMap option" where
  "as_config_map (ObjConfigMap x) = Some x" | "as_config_map _ = None"

fun as_secret :: "k8s_object \<Rightarrow> Secret option" where
  "as_secret (ObjSecret x) = Some x" | "as_secret _ = None"

fun as_revision :: "k8s_object \<Rightarrow> ControllerRevision option" where
  "as_revision (ObjRevision x) = Some x" | "as_revision _ = None"

fun as_deployment :: "k8s_object \<Rightarrow> Deployment option" where
  "as_deployment (ObjDeployment x) = Some x" | "as_deployment _ = None"

fun as_stateful_set :: "k8s_object \<Rightarrow> StatefulSet option" where
  "as_stateful_set (ObjStatefulSet x) = Some x" | "as_stateful_set _ = None"

fun as_service :: "k8s_object \<Rightarrow> Service option" where
  "as_service (ObjService x) = Some x" | "as_service _ = None"

fun as_ingress :: "k8s_object \<Rightarrow> Ingress option" where
  "as_ingress (ObjIngress x) = Some x" | "as_ingress _ = None"

subsection \<open>The server\<close>

definition mem_get ::
  "string \<Rightarrow> (k8s_object \<Rightarrow> 'o option) \<Rightarrow> string \<Rightarrow> string \<Rightarrow> store \<Rightarrow> (go_error + 'o) \<times> store" where
  "mem_get kind sel ns name st =
     (case Option.bind (fmlookup st (kind, ns, name)) sel of
        None \<Rightarrow> (Inl (NotFoundError name), st)
      | Some x \<Rightarrow> (Inr x, st))"

text \<open>\<open>MatchingLabels\<close>: every label of the selector, with its value.\<close>

definition matches_labels :: "string gomap \<Rightarrow> string gomap \<Rightarrow> bool" where
  "matches_labels selector lbls \<longleftrightarrow> fmpred (\<lambda>k v. fmlookup lbls k = Some v) selector"

lemma matches_label [simp]: "matches_labels (fmupd k v fmempty) lbls \<longleftrightarrow> fmlookup lbls k = Some v"
  by (auto simp: matches_labels_def fmpred_iff)

lemma as_object_iff:
  "as_pod ob = Some p \<longleftrightarrow> ob = ObjPod p" "as_config_map ob = Some x \<longleftrightarrow> ob = ObjConfigMap x"
  "as_cr ob = Some cr \<longleftrightarrow> ob = ObjCR cr"
  by (cases ob; auto)+

lemma as_revision_iff: "as_revision ob = Some rv \<longleftrightarrow> ob = ObjRevision rv"
  by (cases ob) auto

definition mem_list ::
  "(k8s_object \<Rightarrow> 'o option) \<Rightarrow> string gomap \<Rightarrow> string \<Rightarrow> store \<Rightarrow> (go_error + 'o list) \<times> store" where
  "mem_list sel selector ns st =
     (Inr (List.map_filter (\<lambda>k.
        case fmlookup st k of
          None \<Rightarrow> None
        | Some ob \<Rightarrow>
            if omNamespace (object_meta ob) = ns \<and> matches_labels selector (omLabels (object_meta ob))
            then sel ob else None) (sorted_list_of_fset (fmdom st))), st)"

definition mem_create :: "k8s_object \<Rightarrow> store \<Rightarrow> go_error option \<times> store" where
  "mem_create ob st =
     (if fmlookup st (object_key ob) \<noteq> None then (Some (OtherError ''AlreadyExists''), st)
      else (None, fmupd (object_key ob) ob st))"

text \<open>The status of a resource is a subresource: \<open>Update\<close> leaves it alone.\<close>

definition keep_status :: "k8s_object \<Rightarrow> k8s_object \<Rightarrow> k8s_object" where
  "keep_status old new =
     (case (old, new) of
        (ObjCR o1, ObjCR n1) \<Rightarrow> ObjCR (n1\<lparr>crStatus := crStatus o1\<rparr>)
      | _ \<Rightarrow> new)"

definition mem_update :: "k8s_object \<Rightarrow> store \<Rightarrow> go_error option \<times> store" where
  "mem_update ob st =
     (case fmlookup st (object_key ob) of
        None \<Rightarrow> (Some (NotFoundError (omName (object_meta ob))), st)
      | Some old \<Rightarrow>
          if omDeletionTimestamp (object_meta ob) \<noteq> None \<and> omFinalizers (object_meta ob) = []
          then (None, fmdrop (object_key ob) st)
          else (None, fmupd (object_key ob) (keep_status old ob) st))"

definition mem_delete :: "k8s_object \<Rightarrow> store \<Rightarrow> go_error option \<times> store" where
  "mem_delete ob st =
     (if fmlookup st (object_key ob) = None then (Some (NotFoundError (omName (object_meta ob))), st)
      else (None, fmdrop (object_key ob) st))"

definition mem_status_update :: "InvokerDeployment \<Rightarrow> store \<Rightarrow> go_error option \<times> store" where
  "mem_status_update cr st =
     (case Option.bind (fmlookup st (object_key (ObjCR cr))) as_cr of
        None \<Rightarrow> (Some (NotFoundError (omName (crMeta cr))), st)
      | Some old \<Rightarrow> (None, fmupd (object_key (ObjCR cr)) (ObjCR (old\<lparr>crStatus := crStatus cr\<rparr>)) st))"

subsection \<open>The helpers\<close>

definition with_finalizers :: "InvokerDeployment \<Rightarrow> string list \<Rightarrow> InvokerDeployment" where
  "with_finalizers cr fs = cr\<lparr>crMeta := (crMeta cr)\<lparr>omFinalizers := fs\<rparr>\<rparr>"

definition contains_finalizer :: "InvokerDeployment \<Rightarrow> string \<Rightarrow> bool" where
  "contains_finalizer cr f \<longleftrightarrow> f \<in> set (omFinalizers (crMeta cr))"

definition add_finalizer :: "InvokerDeployment \<Rightarrow> string \<Rightarrow> InvokerDeployment \<times> bool" where
  "add_finalizer cr f =
     (if contains_finalizer cr f then (cr, False)
      else (with_finalizers cr (omFinalizers (crMeta cr) @ [f]), True))"

definition remove_finalizer :: "InvokerDeployment \<Rightarrow> string \<Rightarrow> InvokerDeployment \<times> bool" where
  "remove_finalizer cr f =
     (with_finalizers cr (filter (\<lambda>g. g \<noteq> f) (omFinalizers (crMeta cr))), contains_finalizer cr f)"

definition controller_ref :: "InvokerDeployment \<Rightarrow> OwnerReference" where
  "controller_ref cr = \<lparr>orAPIVersion = crAPIVersion cr, orKind = crKind cr, orName = omName (crMeta cr),
     orUID = omUID (crMeta cr), orController = True\<rparr>"

definition set_controller_reference :: "InvokerDeployment \<Rightarrow> ObjectMeta \<Rightarrow> ObjectMeta" where
  "set_controller_reference cr m = m\<lparr>omOwnerReferences := omOwnerReferences m @ [controller_ref cr]\<rparr>"

definition mem_now :: gotime where
  "mem_now = \<lparr>gtYear = 2024, gtMonth = 2, gtDay = 29, gtHour = 12, gtMinute = 0, gtSecond = 5, gtOffset = 0\<rparr>"

fun set_condition :: "Condition \<Rightarrow> Condition list \<Rightarrow> Condition list" where
  "set_condition c [] = [c]"
| "set_condition c (d # ds) = (if cdType c = cdType d then c # ds else d # set_condition c ds)"

definition quantity_json :: "quantity \<Rightarrow> go_error + string" where
  "quantity_json q = (case q of Quantity s \<Rightarrow> Inr (json_string s))"

text \<open>A quantity is read from a JSON string.\<close>

definition quantity_parse :: "string \<Rightarrow> quantity option" where
  "quantity_parse s = (case parse_json s of Some (JString t) \<Rightarrow> Some (Quantity t) | _ \<Rightarrow> None)"

definition mem_env :: "store env" where
  "mem_env = \<lparr>
     sGetCR = mem_get ''InvokerDeployment'' as_cr,
     sGetSecret = mem_get ''Secret'' as_secret,
     sGetRevision = mem_get ''ControllerRevision'' as_revision,
     sGetDeployment = mem_get ''Deployment'' as_deployment,
     sGetStatefulSet = mem_get ''StatefulSet'' as_stateful_set,
     sGetService = mem_get ''Service'' as_service,
     sGetIngress = mem_get ''Ingress'' as_ingress,
     sListConfigMaps = mem_list as_config_map,
     sListPods = mem_list as_pod,
     sListRevisions = mem_list as_revision,
     sCreate = mem_create,
     sUpdate = mem_update,
     sDelete = mem_delete,
     sStatusUpdate = mem_status_update,
     sNow = Pair mem_now,
     sRange = (\<lambda>ks. Pair (sorted_list_of_fset ks)),
     eSortByRevision = sort_key (\<lambda>r. sint (rvRevision r)),
     eAppendCap = (\<lambda>n. n),
     eGetenv = (\<lambda>_. []),
     eContainsFinalizer = contains_finalizer,
     eAddFinalizer = add_finalizer,
     eRemoveFinalizer = remove_finalizer,
     eSetControllerReference = set_controller_reference,
     eNewControllerRef = controller_ref,
     sSetStatusCondition = (\<lambda>cs c. Pair (set_condition (c\<lparr>cdLastTransitionTime := Some mem_now\<rparr>) cs)),
     eQuantityJSON = quantity_json,
     eQuantityParse = quantity_parse,
     eUnmarshalRepeated = (\<lambda>_. Inl json_error)\<rparr>"

text \<open>Every quantity of this environment is canonical.\<close>

lemma canonical_mem_quantity: "valid_utf8 s \<Longrightarrow> canonical_quantity quantity_json quantity_parse (Quantity s)"
  using parse_json_print [of "JString s"]
  by (simp add: canonical_quantity_def quantity_text_def quantity_json_def quantity_parse_def Let_def)

lemma range_ok_mem_env [simp]: "range_ok mem_env"
  by (simp add: range_ok_def mem_env_def sorted_list_of_fset.rep_eq)

subsection \<open>Small objects for the witnesses\<close>

lemma run_result: "fst p = r \<Longrightarrow> p = (r, snd p)"
  by auto

definition start_world :: "store \<Rightarrow> store world" where
  "start_world st = \<lparr>wTrace = [], wServer = st\<rparr>"

definition demo_meta :: "string \<Rightarrow> ObjectMeta" where
  "demo_meta name = zero_meta\<lparr>omName := name, omNamespace := ''test''\<rparr>"

definition demo_entity :: StatefulEntity where
  "demo_entity = \<lparr>seName = Some ''sum'', seExecutorImage = Some ''exec'', seIOImage = Some ''io'',
     seStateImage = Some ''state'', seIOAddress = Some ''host:9092'', seInputTopic = Some ''count'',
     seOutputTopic = Some ''output'',
     sePods = Some [\<lparr>pcName = Some ''sum-0'', pcPartitions = Some [''0'', ''1''],
       pcResources = zero_resources\<rparr>]\<rparr>"

definition demo_spec :: InvokerDeploymentSpec where
  "demo_spec = \<lparr>idVersion = ''testv1'', idImagePullPolicy = ''Always'', idImagePullSecrets = None,
     idStatefulEntities = Some [demo_entity], idHistoryLimit = Some 3\<rparr>"

definition demo_cr :: InvokerDeployment where
  "demo_cr = \<lparr>crAPIVersion = ''invokeroperator.invoker.io/v1alpha1'', crKind = ''InvokerDeployment'',
     crMeta = demo_meta ''sample'', crSpec = demo_spec, crStatus = zero_status\<rparr>"

definition demo_pod :: "string \<Rightarrow> string \<Rightarrow> string \<Rightarrow> Pod" where
  "demo_pod se name phase = \<lparr>podMeta = (demo_meta name)\<lparr>omLabels :=
       fmupd ''statefulEntityName'' se (fmupd ''type'' ''statefulEntity'' (fmupd ''app'' ''invoker'' fmempty))\<rparr>,
     podSpec = \<lparr>psContainers = [], psVolumes = [], psImagePullSecrets = []\<rparr>, podPhase = phase\<rparr>"

definition demo_store :: store where
  "demo_store = fmupd (object_key (ObjCR demo_cr)) (ObjCR demo_cr) fmempty"

lemmas demo_defs = start_world_def demo_meta_def demo_entity_def demo_spec_def demo_cr_def
  demo_pod_def demo_store_def zero_meta_def zero_status_def zero_resources_def

lemmas mem_defs = mem_env_def mem_get_def mem_list_def mem_create_def mem_update_def mem_delete_def
  mem_status_update_def object_key_def keep_status_def matches_labels_def

end
