(* ===== verification/Restart_Properties.thy ===== *)
theory Restart_Properties
  imports Resource_Reconciler Mem_Server
begin

section \<open>When a pod is replaced\<close>

text \<open>
  \<open>needToRestartPod\<close> compares two maps from container names to resources.  For pods whose
  container names are distinct, as the API server requires, the maps are the sets of pairs.
\<close>

definition resource_pairs :: "Pod \<Rightarrow> (string \<times> ResourceRequirements) set" where
  "resource_pairs p =
     (\<lambda>c. (cnName c, default_requests (cnResources c))) ` set (psContainers (podSpec p))"

abbreviation container_names :: "Pod \<Rightarrow> string list" where
  "container_names p \<equiv> map cnName (psContainers (podSpec p))"

lemma pod_resources_lookup:
  assumes "distinct (container_names p)"
  shows "fmlookup (pod_resources p) n = Some r \<longleftrightarrow> (n, r) \<in> resource_pairs p"
proof
  assume "fmlookup (pod_resources p) n = Some r"
  from fmlookup_insert_all_SomeD [OF this [unfolded pod_resources_def]]
  show "(n, r) \<in> resource_pairs p" by (auto simp: resource_pairs_def)
next
  assume "(n, r) \<in> resource_pairs p"
  then obtain c where "c \<in> set (psContainers (podSpec p))" "n = cnName c" "r = default_requests (cnResources c)"
    by (auto simp: resource_pairs_def)
  with fmlookup_insert_all [OF assms] show "fmlookup (pod_resources p) n = Some r"
    by (simp add: pod_resources_def)
qed

lemma pod_resources_cong:
  assumes "map (\<lambda>c. (cnName c, default_requests (cnResources c))) (psContainers (podSpec p)) =
    map (\<lambda>c. (cnName c, default_requests (cnResources c))) (psContainers (podSpec q))"
  shows "pod_resources p = pod_resources q"
proof -
  have pairs: "pod_resources x = insert_all fst snd
      (map (\<lambda>c. (cnName c, default_requests (cnResources c))) (psContainers (podSpec x))) fmempty" for x
  proof -
    have "insert_all cnName (\<lambda>c. default_requests (cnResources c)) cs m =
        insert_all fst snd (map (\<lambda>c. (cnName c, default_requests (cnResources c))) cs) m"
      for cs :: "Container list" and m
      by (induction cs arbitrary: m) simp_all
    then show ?thesis unfolding pod_resources_def .
  qed
  show ?thesis by (simp only: pairs assms)
qed

lemma default_requests_idem [simp]: "default_requests (default_requests r) = default_requests r"
  by (simp add: default_requests_def)

definition map_containers :: "(Container \<Rightarrow> Container) \<Rightarrow> Pod \<Rightarrow> Pod" where
  "map_containers f p = p\<lparr>podSpec := (podSpec p)\<lparr>psContainers := map f (psContainers (podSpec p))\<rparr>\<rparr>"

text \<open>
  What a container asks for, said without the function of the code: its limits, its requests, or
  its limits where there are no requests, and its claims.
\<close>

definition container_demand ::
  "Container \<Rightarrow> string \<times> quantity gomap option \<times> quantity gomap option \<times> string list option" where
  "container_demand c =
     (cnName c, rrLimits (cnResources c),
      (case rrRequests (cnResources c) of None \<Rightarrow> rrLimits (cnResources c) | Some q \<Rightarrow> Some q),
      rrClaims (cnResources c))"

definition pod_demands :: "Pod \<Rightarrow> (string \<times> quantity gomap option \<times> quantity gomap option \<times> string list option) set" where
  "pod_demands p = container_demand ` set (psContainers (podSpec p))"

lemma pod_demands_pairs:
  "pod_demands p = (\<lambda>(n, r). (n, rrLimits r, rrRequests r, rrClaims r)) ` resource_pairs p"
  unfolding pod_demands_def resource_pairs_def image_image
  by (rule image_cong) (auto simp: container_demand_def default_requests_def split: option.splits)

lemma pod_demands_eq_iff: "pod_demands p = pod_demands q \<longleftrightarrow> resource_pairs p = resource_pairs q"
proof -
  have "inj (\<lambda>(n :: string, r :: ResourceRequirements). (n, rrLimits r, rrRequests r, rrClaims r))"
    by (auto simp: inj_on_def)
  then show ?thesis unfolding pod_demands_pairs by (rule inj_image_eq_iff)
qed

lemma needToRestartPod_pairs:
  assumes "distinct (container_names desired)" and "distinct (container_names observed)"
  shows "needToRestartPod desired observed \<longleftrightarrow> resource_pairs desired \<noteq> resource_pairs observed"
proof -
  have "pod_resources desired = pod_resources observed \<longleftrightarrow>
      (\<forall>n r. fmlookup (pod_resources desired) n = Some r \<longleftrightarrow> fmlookup (pod_resources observed) n = Some r)"
    by (metis fmap_ext option.exhaust)
  then show ?thesis
    by (auto simp: needToRestartPod_def pod_resources_lookup [OF assms(1)] pod_resources_lookup [OF assms(2)])
qed

text \<open>
  C32: When an observed pod is replaced: reconciling a desired pod with the observed one requests
  its deletion exactly when the recorded revisions differ and some container, by name, asks for
  different resources, absent requests counting as the limits; otherwise it requests nothing.
  The names of a pod's containers are distinct; their order does not matter.
\<close>

theorem pod_replaced_iff:
  assumes "distinct (container_names desired)" and "distinct (container_names observed)"
    and "run_state (reconcilePod E cr (Some desired) (Some observed)) w = (err, w')"
  shows "wTrace w' = wTrace w @
    (if stCurrentRevision (crStatus cr) \<noteq> stNextRevision (crStatus cr) \<and> pod_demands desired \<noteq> pod_demands observed
     then [DeleteCall (ObjPod desired)] else [])"
  using assms(3)
  by (auto simp: reconcilePod_def revision_changed_def needToRestartPod_pairs [OF assms(1,2)] pod_demands_eq_iff
      delete_defs client_defs split: prod.splits if_splits)

definition demo_container :: "string \<Rightarrow> quantity gomap option \<Rightarrow> Container" where
  "demo_container name requests = \<lparr>cnName = name, cnImage = ''image'', cnImagePullPolicy = ''Always'', cnEnv = [],
     cnVolumeMounts = [], cnResources = \<lparr>rrLimits = Some (fmupd ''cpu'' (Quantity ''1'') fmempty),
       rrRequests = requests, rrClaims = None\<rparr>\<rparr>"

definition demo_sidecars :: "Container list \<Rightarrow> Pod" where
  "demo_sidecars cs = (demo_pod ''sum'' ''sum-0'' ''Running'')\<lparr>podSpec :=
     \<lparr>psContainers = cs, psVolumes = [], psImagePullSecrets = []\<rparr>\<rparr>"

text \<open>The observed pod has the requests the API server filled in; then it lacks a container, too.\<close>

definition demo_upgrading_cr :: InvokerDeployment where
  "demo_upgrading_cr = demo_cr\<lparr>crStatus := zero_status\<lparr>stCurrentRevision := ''sample-rev-1'',
     stNextRevision := ''sample-rev-2''\<rparr>\<rparr>"

definition demo_filled :: Container where
  "demo_filled = demo_container ''a'' (Some (fmupd ''cpu'' (Quantity ''1'') fmempty))"

theorem pod_replaced_iff_witness:
  "wTrace (snd (run_state (reconcilePod mem_env demo_upgrading_cr (Some (demo_sidecars [demo_container ''a'' None]))
     (Some (demo_sidecars [demo_filled]))) (start_world demo_store))) = [] \<and>
   wTrace (snd (run_state (reconcilePod mem_env demo_upgrading_cr
     (Some (demo_sidecars [demo_container ''b'' None, demo_container ''a'' None]))
     (Some (demo_sidecars [demo_filled]))) (start_world demo_store))) =
     [DeleteCall (ObjPod (demo_sidecars [demo_container ''b'' None, demo_container ''a'' None]))]"
proof -
  let ?one = "demo_sidecars [demo_container ''a'' None]" and ?x = "demo_sidecars [demo_filled]"
  let ?two = "demo_sidecars [demo_container ''b'' None, demo_container ''a'' None]"
  have names: "distinct (container_names ?one)" "distinct (container_names ?two)" "distinct (container_names ?x)"
    by code_simp+
  have demands: "pod_demands ?one = pod_demands ?x" "pod_demands ?two \<noteq> pod_demands ?x"
    by (simp_all add: pod_demands_def demo_sidecars_def container_demand_def demo_filled_def demo_container_def)
  have revisions: "stCurrentRevision (crStatus demo_upgrading_cr) \<noteq> stNextRevision (crStatus demo_upgrading_cr)"
    by (simp add: demo_upgrading_cr_def)
  show ?thesis
    using pod_replaced_iff [OF names(1,3) prod.collapse [symmetric], of mem_env demo_upgrading_cr "start_world demo_store"]
      pod_replaced_iff [OF names(2,3) prod.collapse [symmetric], of mem_env demo_upgrading_cr "start_world demo_store"]
    by (simp add: demands revisions start_world_def)
qed

text \<open>
  Only resources count.  A pod that differs from the desired one in the images, pull
  policies, environment and mounts of its containers, and to which the API server has added the
  default requests, is not replaced: a change of an executor image alone never reaches the
  running pods.
\<close>

theorem image_change_keeps_pod:
  "\<not> needToRestartPod p (map_containers (\<lambda>c. c\<lparr>cnImage := img c, cnImagePullPolicy := policy c,
     cnEnv := env c, cnVolumeMounts := mounts c, cnResources := default_requests (cnResources c)\<rparr>) p)"
  unfolding needToRestartPod_def not_not
  by (rule pod_resources_cong) (simp add: map_containers_def comp_def)

end
