(* ===== verification/Reconcile_Plan.thy ===== *)
theory Reconcile_Plan
  imports Resource_Reconciler
begin

section \<open>What a reconciliation of the resources does to the cluster\<close>

text \<open>
  The plan of \<open>reconcileResources\<close>: which requests it makes for which objects.  The lemmas of
  this theory turn the loops into that plan; the properties say what the plan is, that no other
  request is ever made, and what a completed plan does to the set of objects.
\<close>

definition promote :: "InvokerDeployment \<Rightarrow> InvokerDeployment" where
  "promote cr = cr\<lparr>crStatus := (crStatus cr)\<lparr>stCurrentRevision := stNextRevision (crStatus cr)\<rparr>\<rparr>"

definition desired_cms :: "DesiredInvokerDeploymentState \<Rightarrow> ConfigMap list" where
  "desired_cms desired = slice_items (dsConfigMaps desired)"

definition desired_pods :: "DesiredInvokerDeploymentState \<Rightarrow> Pod list" where
  "desired_pods desired = slice_items (dsStatefulEntities desired)"

text \<open>Observed objects whose name is not desired.\<close>

definition surplus_cms ::
  "ObservedInvokerDeploymentState \<Rightarrow> DesiredInvokerDeploymentState \<Rightarrow> ConfigMap set" where
  "surplus_cms observed desired =
     {x. \<exists>n. fmlookup (obConfigMaps observed) n = Some x \<and> n \<notin> cm_name ` set (desired_cms desired)}"

definition surplus_pods ::
  "ObservedInvokerDeploymentState \<Rightarrow> DesiredInvokerDeploymentState \<Rightarrow> Pod set" where
  "surplus_pods observed desired =
     {p. (\<exists>se n. observed_pod (obStatefulEntities observed) se n = Some p) \<and>
         pod_name p \<notin> pod_name ` set (desired_pods desired)}"

text \<open>The requests a reconciliation may make.\<close>

fun justified ::
  "InvokerDeployment \<Rightarrow> ObservedInvokerDeploymentState \<Rightarrow> DesiredInvokerDeploymentState \<Rightarrow> api_call \<Rightarrow> bool"
where
  "justified cr observed desired (CreateCall (ObjConfigMap d)) \<longleftrightarrow>
     d \<in> set (desired_cms desired) \<and> fmlookup (obConfigMaps observed) (cm_name d) = None"
| "justified cr observed desired (UpdateCall (ObjConfigMap d)) \<longleftrightarrow>
     d \<in> set (desired_cms desired) \<and> fmlookup (obConfigMaps observed) (cm_name d) \<noteq> None \<and>
     revision_changed cr"
| "justified cr observed desired (DeleteCall (ObjConfigMap x)) \<longleftrightarrow> x \<in> surplus_cms observed desired"
| "justified cr observed desired (CreateCall (ObjPod d)) \<longleftrightarrow>
     d \<in> set (desired_pods desired) \<and>
     observed_pod (obStatefulEntities observed) (entity_label d) (pod_name d) = None"
| "justified cr observed desired (DeleteCall (ObjPod p)) \<longleftrightarrow>
     p \<in> surplus_pods observed desired \<or>
     (p \<in> set (desired_pods desired) \<and> revision_changed cr \<and>
      (\<exists>x. observed_pod (obStatefulEntities observed) (entity_label p) (pod_name p) = Some x \<and>
         needToRestartPod p x))"
| "justified cr observed desired (StatusUpdateCall c) \<longleftrightarrow> c = promote cr"
| "justified cr observed desired _ \<longleftrightarrow> False"

subsection \<open>The steps of the plan\<close>

lemma justified_cm_plan:
  assumes "d \<in> set (desired_cms desired)" and "cm_plan cr (obConfigMaps observed) d = Some a"
  shows "justified cr observed desired (action_call a)"
  using assms
  by (cases "fmlookup (obConfigMaps observed) (cm_name d)")
     (auto simp: cm_plan_def update_present_def split: if_splits)

lemma justified_pod_plan:
  assumes "d \<in> set (desired_pods desired)" and "pod_plan cr (obStatefulEntities observed) d = Some a"
  shows "justified cr observed desired (action_call a)"
  using assms
  by (cases "observed_pod (obStatefulEntities observed) (entity_label d) (pod_name d)")
     (auto simp: pod_plan_def restart_present_def split: if_splits)

lemma emits_reconcileDesiredConfigMaps:
  "(\<And>d a. d \<in> set ds \<Longrightarrow> cm_plan cr observed d = Some a \<Longrightarrow> P (action_call a)) \<Longrightarrow>
   emits P (reconcileDesiredConfigMaps E cr observed ds des)"
proof (induction ds arbitrary: des)
  case Nil
  then show ?case by (simp add: emits_rules)
next
  case (Cons d ds)
  then show ?case
    by (auto simp: Let_def config_maps.reconcileOne_eq cm_plan_def
        intro!: emits_rules emits_perform)
qed

lemma emits_reconcileDesiredPods:
  "(\<And>d a. d \<in> set ds \<Longrightarrow> pod_plan cr observed d = Some a \<Longrightarrow> P (action_call a)) \<Longrightarrow>
   emits P (reconcileDesiredPods E cr observed ds des)"
proof (induction ds arbitrary: des)
  case Nil
  then show ?case by (simp add: emits_rules)
next
  case (Cons d ds)
  then show ?case
    by (auto simp: Let_def pods.reconcileOne_eq pod_plan_def observed_pod_def
        intro!: emits_rules emits_perform)
qed

text \<open>What iteration over a map hands out comes from the map, in whatever order.\<close>

lemma range_values_from_map:
  assumes "run_state (range_values E m) w = (vs, w')" and "v \<in> set vs"
  shows "\<exists>k. fmlookup m k = Some v"
  using assms by (auto simp: range_values_def set_map_filter_lookup)

lemma range_entries_from_map:
  assumes "run_state (range_entries E m) w = (es, w')" and "(k, v) \<in> set es"
  shows "fmlookup m k = Some v"
  using assms by (auto simp: range_entries_def List.map_filter_def split: option.splits)

lemma emits_reconcileObservedEntity:
  assumes "\<And>inner n p. se = Some inner \<Longrightarrow> fmlookup inner n = Some p \<Longrightarrow>
    fmlookup des (pod_name p) = None \<Longrightarrow> P (DeleteCall (ObjPod p))"
  shows "emits P (reconcileObservedEntity E cr des se)"
proof (cases se)
  case None
  then show ?thesis by (simp add: reconcileObservedEntity_def emits_rules)
next
  case (Some inner)
  have "emits P (for_each (reconcileObservedPod E cr des) vs)"
    if vs: "run_state (range_values E inner) w = (vs, w')" for w vs w'
  proof (rule emits_for_each)
    fix p assume "p \<in> set vs"
    with vs obtain n where n: "fmlookup inner n = Some p" by (blast dest: range_values_from_map)
    show "emits P (reconcileObservedPod E cr des p)"
      unfolding reconcileObservedPod_eq
      by (rule emits_perform) (auto split: if_splits intro: assms [OF Some n])
  qed
  with Some show ?thesis
    by (auto simp: reconcileObservedEntity_def intro!: emits_bind_strong emits_leaf)
qed

text \<open>
  No request without a reason: for every server and every iteration order, each request of a
  reconciliation is one that \<open>justified\<close> lists.
\<close>

lemma surplus_podI:
  assumes "fmlookup m se = Some (Some inner)" and "fmlookup inner n = Some p"
    and "m = obStatefulEntities observed" and "pod_name p \<notin> pod_name ` set (desired_pods desired)"
  shows "p \<in> surplus_pods observed desired"
proof -
  have "observed_pod m se n = Some p"
    using assms(1,2) by (simp add: observed_pod_def index_ptr_def)
  with assms(3,4) show ?thesis by (auto simp: surplus_pods_def)
qed

lemma emits_reconcileResources:
  assumes "obCR observed = Some cr"
  shows "emits (justified cr observed desired) (reconcileResources E observed desired)"
proof -
  let ?J = "justified cr observed desired"
  let ?cms = "obConfigMaps observed" and ?ses = "obStatefulEntities observed"
  have cms: "emits ?J (reconcileObservedConfigMaps E cr des es)"
    if "run_state (reconcileDesiredConfigMaps E cr ?cms (desired_cms desired) fmempty) v = ((None, des), v')"
      and "run_state (range_entries E ?cms) w = (es, w')" for des es v v' w w'
  proof -
    have des: "fmlookup des n = None \<longleftrightarrow> n \<notin> cm_name ` set (desired_cms desired)" for n
      using run_reconcileDesiredConfigMaps [OF that(1)] by (simp add: lookup_desired_names)
    show ?thesis
      unfolding reconcileObservedConfigMaps_eq
    proof (rule emits_for_each, rule emits_perform)
      fix e a assume "e \<in> set es"
        and a: "(if fmlookup des (fst e) = None then Some (Delete (ObjConfigMap (snd e))) else None) = Some a"
      with that(2) have "fmlookup ?cms (fst e) = Some (snd e)"
        by (auto intro: range_entries_from_map)
      with a show "?J (action_call a)"
        by (auto simp: surplus_cms_def des split: if_splits)
    qed
  qed
  have pods: "emits ?J (for_each (reconcileObservedEntity E cr des) ses)"
    if "run_state (reconcileDesiredPods E cr ?ses (desired_pods desired) fmempty) v = ((None, des), v')"
      and ses: "run_state (range_values E ?ses) w = (ses, w')" for des ses v v' w w'
  proof (rule emits_for_each, rule emits_reconcileObservedEntity)
    have des: "fmlookup des n = None \<longleftrightarrow> n \<notin> pod_name ` set (desired_pods desired)" for n
      using run_reconcileDesiredPods [OF that(1)] by (simp add: lookup_desired_names)
    fix se inner n p assume "se \<in> set ses" and se: "se = Some inner" and p: "fmlookup inner n = Some p"
      and "fmlookup des (pod_name p) = None"
    moreover obtain k where "fmlookup ?ses k = Some se"
      using range_values_from_map [OF ses \<open>se \<in> set ses\<close>] by blast
    ultimately show "?J (DeleteCall (ObjPod p))"
      by (auto simp: des intro: surplus_podI)
  qed
  have dcms: "emits ?J (reconcileDesiredConfigMaps E cr ?cms (desired_cms desired) fmempty)"
    by (rule emits_reconcileDesiredConfigMaps) (rule justified_cm_plan)
  have dpods: "emits ?J (reconcileDesiredPods E cr ?ses (desired_pods desired) fmempty)"
    by (rule emits_reconcileDesiredPods) (rule justified_pod_plan)
  have status: "emits ?J (client_status_update E (promote cr))"
    by (rule emits_rules) simp
  show ?thesis
    using assms
    unfolding reconcileResources_def desired_cms_def [symmetric] desired_pods_def [symmetric]
      Let_def promote_def [symmetric]
    by (auto intro!: emits_bind_strong emits_leaf dcms dpods status intro: cms pods)
qed

subsection \<open>A completed reconciliation\<close>

lemma map_filter_if: "List.map_filter (\<lambda>x. if P x then Some (g x) else None) xs = map g (filter P xs)"
  by (induction xs) (simp_all add: List.map_filter_def)

lemma map_filter_None: "(\<And>x. x \<in> set xs \<Longrightarrow> f x = None) \<Longrightarrow> List.map_filter f xs = []"
  by (induction xs) (simp_all add: List.map_filter_def)

lemma entity_success:
  assumes "range_ok E" and "run_state (reconcileObservedEntity E cr des se) w = (None, w')"
  shows "\<exists>ps. wTrace w' = wTrace w @ map (\<lambda>p. DeleteCall (ObjPod p)) ps \<and>
    set ps = {p. \<exists>inner n. se = Some inner \<and> fmlookup inner n = Some p \<and>
      fmlookup des (pod_name p) = None}"
proof (cases se)
  case None
  with assms show ?thesis by (auto simp: reconcileObservedEntity_def)
next
  case (Some inner)
  with assms(2) obtain vs v where vs: "run_state (range_values E inner) w = (vs, v)"
    and loop: "run_state (for_each (reconcileObservedPod E cr des) vs) v = (None, w')"
    by (auto simp: reconcileObservedEntity_def split: prod.splits)
  let ?ps = "filter (\<lambda>p. fmlookup des (pod_name p) = None) vs"
  have "wTrace w' = wTrace w @ map (\<lambda>p. DeleteCall (ObjPod p)) ?ps"
    using for_each_perform_success [OF loop [unfolded reconcileObservedPod_eq]]
    by (simp add: range_trace(1) [OF vs] map_filter_if)
  moreover have "set vs = fmran' inner"
    using range_values_result [OF assms(1), of inner w] vs by simp
  ultimately show ?thesis
    using Some by (intro exI [of _ ?ps]) (auto simp: fmlookup_ran'_iff)
qed

lemma entities_success:
  assumes "range_ok E" and "run_state (for_each (reconcileObservedEntity E cr des) ses) w = (None, w')"
  shows "\<exists>ps. wTrace w' = wTrace w @ map (\<lambda>p. DeleteCall (ObjPod p)) ps \<and>
    set ps = {p. \<exists>inner n. Some inner \<in> set ses \<and> fmlookup inner n = Some p \<and>
      fmlookup des (pod_name p) = None}"
  using assms(2)
proof (induction ses arbitrary: w)
  case Nil
  then show ?case by auto
next
  case (Cons se ses)
  then obtain v where one: "run_state (reconcileObservedEntity E cr des se) w = (None, v)"
    and rest: "run_state (for_each (reconcileObservedEntity E cr des) ses) v = (None, w')"
    by (auto split: prod.splits option.splits)
  from entity_success [OF assms(1) one] obtain ps where
    ps: "wTrace v = wTrace w @ map (\<lambda>p. DeleteCall (ObjPod p)) ps"
      "set ps = {p. \<exists>inner n. se = Some inner \<and> fmlookup inner n = Some p \<and>
        fmlookup des (pod_name p) = None}" by blast
  from Cons.IH [OF rest] obtain qs where
    qs: "wTrace w' = wTrace v @ map (\<lambda>p. DeleteCall (ObjPod p)) qs"
      "set qs = {p. \<exists>inner n. Some inner \<in> set ses \<and> fmlookup inner n = Some p \<and>
        fmlookup des (pod_name p) = None}" by blast
  from ps qs show ?case by (intro exI [of _ "ps @ qs"]) auto
qed

text \<open>The complete list of requests, in order, of a reconciliation that returns no error.\<close>

definition plan_calls ::
  "InvokerDeployment \<Rightarrow> ObservedInvokerDeploymentState \<Rightarrow> DesiredInvokerDeploymentState \<Rightarrow>
   ConfigMap list \<Rightarrow> Pod list \<Rightarrow> api_call list" where
  "plan_calls cr observed desired cmSurplus podSurplus =
     map action_call (List.map_filter (cm_plan cr (obConfigMaps observed)) (desired_cms desired))
     @ map (\<lambda>x. DeleteCall (ObjConfigMap x)) cmSurplus
     @ map action_call (List.map_filter (pod_plan cr (obStatefulEntities observed)) (desired_pods desired))
     @ map (\<lambda>p. DeleteCall (ObjPod p)) podSurplus
     @ [StatusUpdateCall (promote cr)]"

text \<open>The two loops over one kind of object, as traces.\<close>

lemma config_map_loops_success:
  assumes "range_ok E"
    and p1: "run_state (reconcileDesiredConfigMaps E cr observed ds fmempty) w = ((None, des), w1)"
    and p2: "run_state (range_entries E observed) w1 = (es, w2)"
    and p3: "run_state (reconcileObservedConfigMaps E cr des es) w2 = (None, w3)"
  obtains xs where
    "wTrace w3 = wTrace w @ map action_call (List.map_filter (cm_plan cr observed) ds)
       @ map (\<lambda>x. DeleteCall (ObjConfigMap x)) xs"
    "set xs = {x. \<exists>n. fmlookup observed n = Some x \<and> n \<notin> cm_name ` set ds}"
proof -
  let ?xs = "map snd (filter (\<lambda>e. fmlookup des (fst e) = None) es)"
  from run_reconcileDesiredConfigMaps [OF p1]
  have loop: "run_state (for_each (\<lambda>d. perform E (cm_plan cr observed d)) ds) w = (None, w1)"
    and des: "fmlookup des n = None \<longleftrightarrow> n \<notin> cm_name ` set ds" for n
    by (auto simp: lookup_desired_names)
  have es: "set es = {(n, x). fmlookup observed n = Some x}"
    using range_entries_result [OF assms(1), of observed w1] p2 by simp
  from for_each_perform_success [OF loop]
    for_each_perform_success [OF p3 [unfolded reconcileObservedConfigMaps_eq]]
  have "wTrace w3 = wTrace w @ map action_call (List.map_filter (cm_plan cr observed) ds)
       @ map (\<lambda>x. DeleteCall (ObjConfigMap x)) ?xs"
    by (simp add: range_trace(2) [OF p2] map_filter_if comp_def)
  moreover have "set ?xs = {x. \<exists>n. fmlookup observed n = Some x \<and> n \<notin> cm_name ` set ds}"
    by (force simp: es des)
  ultimately show thesis by (rule that)
qed

lemma pod_loops_success:
  assumes "range_ok E"
    and p1: "run_state (reconcileDesiredPods E cr observed ds fmempty) w = ((None, des), w1)"
    and p2: "run_state (range_values E observed) w1 = (ses, w2)"
    and p3: "run_state (for_each (reconcileObservedEntity E cr des) ses) w2 = (None, w3)"
  obtains ps where
    "wTrace w3 = wTrace w @ map action_call (List.map_filter (pod_plan cr observed) ds)
       @ map (\<lambda>p. DeleteCall (ObjPod p)) ps"
    "set ps = {p. (\<exists>se n. observed_pod observed se n = Some p) \<and> pod_name p \<notin> pod_name ` set ds}"
proof -
  from run_reconcileDesiredPods [OF p1]
  have loop: "run_state (for_each (\<lambda>d. perform E (pod_plan cr observed d)) ds) w = (None, w1)"
    and des: "fmlookup des n = None \<longleftrightarrow> n \<notin> pod_name ` set ds" for n
    by (auto simp: lookup_desired_names)
  have ses: "set ses = fmran' observed"
    using range_values_result [OF assms(1), of observed w1] p2 by simp
  from entities_success [OF assms(1) p3] obtain ps where
    ps: "wTrace w3 = wTrace w2 @ map (\<lambda>p. DeleteCall (ObjPod p)) ps"
      "set ps = {p. \<exists>inner n. Some inner \<in> set ses \<and> fmlookup inner n = Some p \<and>
        fmlookup des (pod_name p) = None}" by blast
  from ps(1) for_each_perform_success [OF loop]
  have "wTrace w3 = wTrace w @ map action_call (List.map_filter (pod_plan cr observed) ds)
       @ map (\<lambda>p. DeleteCall (ObjPod p)) ps"
    by (simp add: range_trace(1) [OF p2])
  moreover have "set ps = {p. (\<exists>se n. observed_pod observed se n = Some p) \<and> pod_name p \<notin> pod_name ` set ds}"
    unfolding ps(2) ses by (auto simp: observed_pod_Some_iff fmlookup_ran'_iff des)
  ultimately show thesis by (rule that)
qed

subsection \<open>The loops, without the final status update\<close>

definition reconcile_loops ::
  "'s env \<Rightarrow> InvokerDeployment \<Rightarrow> ObservedInvokerDeploymentState \<Rightarrow> DesiredInvokerDeploymentState \<Rightarrow>
   ('s world, go_error option) state" where
  "reconcile_loops E cr observed desired = do {
     (err, configMapDesired) \<leftarrow> reconcileDesiredConfigMaps E cr (obConfigMaps observed)
       (desired_cms desired) fmempty;
     if err \<noteq> None then ret err
     else do {
       entries \<leftarrow> range_entries E (obConfigMaps observed);
       err \<leftarrow> reconcileObservedConfigMaps E cr configMapDesired entries;
       if err \<noteq> None then ret err
       else do {
         (err, podDesired) \<leftarrow> reconcileDesiredPods E cr (obStatefulEntities observed)
           (desired_pods desired) fmempty;
         if err \<noteq> None then ret err
         else do {
           ses \<leftarrow> range_values E (obStatefulEntities observed);
           for_each (reconcileObservedEntity E cr podDesired) ses
         }
       }
     }
   }"

lemma reconcileResources_loops:
  assumes "obCR observed = Some cr"
  shows "reconcileResources E observed desired = do {
     err \<leftarrow> reconcile_loops E cr observed desired;
     if err \<noteq> None then ret (zero_result, err)
     else do { err \<leftarrow> client_status_update E (promote cr); ret (zero_result, err) }
   }"
  using assms
  by (intro state_ext)
    (auto simp: reconcileResources_def reconcile_loops_def desired_cms_def desired_pods_def promote_def
      Let_def split: prod.splits)

text \<open>The loops never touch the status; without an error they make the plan's requests.\<close>

fun is_status_update :: "api_call \<Rightarrow> bool" where
  "is_status_update (StatusUpdateCall _) = True"
| "is_status_update _ = False"

lemma no_status_action [simp]: "\<not> is_status_update (action_call a)"
  by (cases a) simp_all

lemma emits_reconcile_loops: "emits (\<lambda>c. \<not> is_status_update c) (reconcile_loops E cr observed desired)"
  unfolding reconcile_loops_def reconcileObservedConfigMaps_eq
  by (intro emits_rules emits_for_each emits_reconcileDesiredConfigMaps emits_reconcileDesiredPods
      emits_perform emits_reconcileObservedEntity no_status_action) simp_all

lemma reconcile_loops_success:
  assumes "range_ok E" and "obCR observed = Some cr"
    and "run_state (reconcile_loops E cr observed desired) w = (None, w')"
  obtains cmSurplus podSurplus where
    "wTrace w' @ [StatusUpdateCall (promote cr)] = wTrace w @ plan_calls cr observed desired cmSurplus podSurplus"
    "set cmSurplus = surplus_cms observed desired"
    "set podSurplus = surplus_pods observed desired"
proof -
  from assms(3) obtain w1 d1 es w2 w3 d2 w4 ses w5 where
    p1: "run_state (reconcileDesiredConfigMaps E cr (obConfigMaps observed) (desired_cms desired) fmempty) w =
       ((None, d1), w1)" and
    p2: "run_state (range_entries E (obConfigMaps observed)) w1 = (es, w2)" and
    p3: "run_state (reconcileObservedConfigMaps E cr d1 es) w2 = (None, w3)" and
    p4: "run_state (reconcileDesiredPods E cr (obStatefulEntities observed) (desired_pods desired) fmempty) w3 =
       ((None, d2), w4)" and
    p5: "run_state (range_values E (obStatefulEntities observed)) w4 = (ses, w5)" and
    p6: "run_state (for_each (reconcileObservedEntity E cr d2) ses) w5 = (None, w')"
    by (auto simp: reconcile_loops_def split: prod.splits if_splits)
  from config_map_loops_success [OF assms(1) p1 p2 p3] obtain xs where
    xs: "wTrace w3 = wTrace w
        @ map action_call (List.map_filter (cm_plan cr (obConfigMaps observed)) (desired_cms desired))
        @ map (\<lambda>x. DeleteCall (ObjConfigMap x)) xs"
      "set xs = surplus_cms observed desired"
    by (auto simp: surplus_cms_def)
  from pod_loops_success [OF assms(1) p4 p5 p6] obtain ps where
    ps: "wTrace w' = wTrace w3
        @ map action_call (List.map_filter (pod_plan cr (obStatefulEntities observed)) (desired_pods desired))
        @ map (\<lambda>p. DeleteCall (ObjPod p)) ps"
      "set ps = surplus_pods observed desired"
    by (auto simp: surplus_pods_def)
  from xs ps have "wTrace w' @ [StatusUpdateCall (promote cr)] = wTrace w @ plan_calls cr observed desired xs ps"
    by (simp add: plan_calls_def)
  from this xs(2) ps(2) show thesis by (rule that)
qed

lemma reconcileResources_success:
  assumes "range_ok E" and "obCR observed = Some cr"
    and "run_state (reconcileResources E observed desired) w = ((res, None), w')"
  obtains cmSurplus podSurplus where
    "wTrace w' = wTrace w @ plan_calls cr observed desired cmSurplus podSurplus"
    "set cmSurplus = surplus_cms observed desired"
    "set podSurplus = surplus_pods observed desired"
    "res = zero_result"
proof -
  from assms(3) obtain v where loops: "run_state (reconcile_loops E cr observed desired) w = (None, v)"
    and status: "run_state (client_status_update E (promote cr)) v = (None, w')" and "res = zero_result"
    by (auto simp: reconcileResources_loops [OF assms(2)] split: prod.splits if_splits)
  moreover from status have "wTrace w' = wTrace v @ [StatusUpdateCall (promote cr)]"
    by (auto simp: client_defs)
  ultimately show thesis
    using reconcile_loops_success [OF assms(1,2) loops] by (metis that)
qed

end
