(* ===== verification/Reconcile_Effect.thy ===== *)
theory Reconcile_Effect
  imports Reconcile_Plan Mem_Server
begin

section \<open>Properties of the resource reconciliation\<close>

subsection \<open>The set of names a list of requests leaves\<close>

text \<open>
  The abstract cluster: for one kind of object, the set of the names in use.  \<open>sel\<close> picks the
  kind and gives the name.
\<close>

definition pod_sel :: "k8s_object \<Rightarrow> string option" where
  "pod_sel ob = (case ob of ObjPod p \<Rightarrow> Some (pod_name p) | _ \<Rightarrow> None)"

definition cm_sel :: "k8s_object \<Rightarrow> string option" where
  "cm_sel ob = (case ob of ObjConfigMap x \<Rightarrow> Some (cm_name x) | _ \<Rightarrow> None)"

fun call_effect :: "(k8s_object \<Rightarrow> string option) \<Rightarrow> api_call \<Rightarrow> string set \<Rightarrow> string set" where
  "call_effect sel (CreateCall ob) S = (case sel ob of None \<Rightarrow> S | Some n \<Rightarrow> insert n S)"
| "call_effect sel (DeleteCall ob) S = (case sel ob of None \<Rightarrow> S | Some n \<Rightarrow> S - {n})"
| "call_effect sel _ S = S"

definition names_after :: "(k8s_object \<Rightarrow> string option) \<Rightarrow> api_call list \<Rightarrow> string set \<Rightarrow> string set" where
  "names_after sel calls S = fold (call_effect sel) calls S"

definition observed_pod_names :: "ObservedInvokerDeploymentState \<Rightarrow> string set" where
  "observed_pod_names observed =
     {n. \<exists>se p. observed_pod (obStatefulEntities observed) se n = Some p}"

text \<open>The observed maps are keyed by the names of the objects in them.\<close>

definition keyed_by_name :: "ObservedInvokerDeploymentState \<Rightarrow> bool" where
  "keyed_by_name observed \<longleftrightarrow>
     (\<forall>se n p. observed_pod (obStatefulEntities observed) se n = Some p \<longrightarrow> pod_name p = n) \<and>
     (\<forall>n x. fmlookup (obConfigMaps observed) n = Some x \<longrightarrow> cm_name x = n)"

definition restarted_names ::
  "InvokerDeployment \<Rightarrow> ObservedInvokerDeploymentState \<Rightarrow> DesiredInvokerDeploymentState \<Rightarrow> string set" where
  "restarted_names cr observed desired =
     {pod_name d | d x. d \<in> set (desired_pods desired) \<and> revision_changed cr \<and>
        observed_pod (obStatefulEntities observed) (entity_label d) (pod_name d) = Some x \<and>
        needToRestartPod d x}"

lemma names_after_append [simp]:
  "names_after sel (xs @ ys) S = names_after sel ys (names_after sel xs S)"
  by (simp add: names_after_def)

lemma names_after_simps [simp]:
  "names_after sel [] S = S"
  "names_after sel (c # cs) S = names_after sel cs (call_effect sel c S)"
  by (simp_all add: names_after_def)

lemma names_after_deletes:
  "(\<And>x. sel (obj x) = Some (key x)) \<Longrightarrow>
     names_after sel (map (\<lambda>x. DeleteCall (obj x)) xs) S = S - key ` set xs"
  by (induction xs arbitrary: S) auto

lemma names_after_other:
  "(\<And>c. c \<in> set cs \<Longrightarrow> \<forall>S. call_effect sel c S = S) \<Longrightarrow> names_after sel cs S = S"
  by (induction cs) auto

text \<open>A loop over desired objects with distinct names acts on each name separately.\<close>

lemma names_after_plan:
  assumes "\<And>x. sel (obj x) = Some (key x)" and "distinct (map key ds)"
    and "\<And>d a. plan d = Some a \<Longrightarrow> a \<in> {Create (obj d), Update (obj d), Delete (obj d)}"
  shows "names_after sel (map action_call (List.map_filter plan ds)) S =
     (S - {key d | d. d \<in> set ds \<and> plan d = Some (Delete (obj d))}) \<union>
     {key d | d. d \<in> set ds \<and> plan d = Some (Create (obj d))}"
  using assms(2)
proof (induction ds arbitrary: S)
  case Nil
  then show ?case by (simp add: List.map_filter_def)
next
  case (Cons d ds)
  then have IH: "names_after sel (map action_call (List.map_filter plan ds)) T =
     (T - {key d | d. d \<in> set ds \<and> plan d = Some (Delete (obj d))}) \<union>
     {key d | d. d \<in> set ds \<and> plan d = Some (Create (obj d))}" for T
    by simp
  have fresh: "key d \<noteq> key x" "key x \<noteq> key d" if "x \<in> set ds" for x
    using Cons.prems that by (auto simp: image_iff)
  consider "plan d = None" | "plan d = Some (Create (obj d))" | "plan d = Some (Update (obj d))"
    | "plan d = Some (Delete (obj d))"
    using assms(3) by (cases "plan d") auto
  then show ?case
  proof cases
    case 1
    then show ?thesis by (auto simp: IH map_filter_simps)
  next
    case 2
    then show ?thesis using fresh by (auto simp: IH map_filter_simps assms(1))
  next
    case 3
    then show ?thesis by (auto simp: IH map_filter_simps)
  next
    case 4
    then show ?thesis using fresh by (auto simp: IH map_filter_simps assms(1))
  qed
qed

lemma cm_plan_cases:
  "cm_plan cr m d = Some a \<Longrightarrow> a \<in> {Create (ObjConfigMap d), Update (ObjConfigMap d), Delete (ObjConfigMap d)}"
  using config_maps.action_objects by (fastforce simp: cm_plan_def)

lemma pod_plan_cases:
  "pod_plan cr m d = Some a \<Longrightarrow> a \<in> {Create (ObjPod d), Update (ObjPod d), Delete (ObjPod d)}"
  using pods.action_objects by (fastforce simp: pod_plan_def)

lemma cm_plan_created: "cm_plan cr m d = Some (Create ob) \<longleftrightarrow> ob = ObjConfigMap d \<and> fmlookup m (cm_name d) = None"
  by (cases "fmlookup m (cm_name d)") (auto simp: cm_plan_def update_present_def)

lemma cm_plan_never_deletes: "cm_plan cr m d \<noteq> Some (Delete ob)"
  by (cases "fmlookup m (cm_name d)") (auto simp: cm_plan_def update_present_def)

lemma pod_plan_created:
  "pod_plan cr m d = Some (Create ob) \<longleftrightarrow> ob = ObjPod d \<and> observed_pod m (entity_label d) (pod_name d) = None"
  by (cases "observed_pod m (entity_label d) (pod_name d)") (auto simp: pod_plan_def restart_present_def)

lemma pod_plan_deleted:
  "pod_plan cr m d = Some (Delete ob) \<longleftrightarrow> ob = ObjPod d \<and> revision_changed cr \<and>
     (\<exists>x. observed_pod m (entity_label d) (pod_name d) = Some x \<and> needToRestartPod d x)"
  by (cases "observed_pod m (entity_label d) (pod_name d)") (auto simp: pod_plan_def restart_present_def)

lemma cm_effect_pod_calls:
  "names_after cm_sel (map action_call (List.map_filter (pod_plan cr m) ds)) S = S"
  by (rule names_after_other) (auto simp: set_map_filter cm_sel_def dest!: pod_plan_cases)

lemma pod_effect_cm_calls:
  "names_after pod_sel (map action_call (List.map_filter (cm_plan cr m) ds)) S = S"
  by (rule names_after_other) (auto simp: set_map_filter pod_sel_def dest!: cm_plan_cases)

lemma cm_effect_pod_deletes [simp]: "names_after cm_sel (map (\<lambda>p. DeleteCall (ObjPod p)) ps) S = S"
  by (rule names_after_other) (auto simp: cm_sel_def)

lemma pod_effect_cm_deletes [simp]: "names_after pod_sel (map (\<lambda>x. DeleteCall (ObjConfigMap x)) xs) S = S"
  by (rule names_after_other) (auto simp: pod_sel_def)

lemma pod_effect_plan:
  assumes "distinct (map pod_name ds)"
  shows "names_after pod_sel (map action_call (List.map_filter (pod_plan cr m) ds)) S =
     (S - {pod_name d | d. d \<in> set ds \<and> pod_plan cr m d = Some (Delete (ObjPod d))}) \<union>
     {pod_name d | d. d \<in> set ds \<and> pod_plan cr m d = Some (Create (ObjPod d))}"
  by (rule names_after_plan [OF _ assms pod_plan_cases]) (simp_all add: pod_sel_def)

lemma cm_effect_plan:
  assumes "distinct (map cm_name ds)"
  shows "names_after cm_sel (map action_call (List.map_filter (cm_plan cr m) ds)) S =
     S \<union> {cm_name d | d. d \<in> set ds \<and> cm_plan cr m d = Some (Create (ObjConfigMap d))}"
proof -
  have "names_after cm_sel (map action_call (List.map_filter (cm_plan cr m) ds)) S =
     (S - {cm_name d | d. d \<in> set ds \<and> cm_plan cr m d = Some (Delete (ObjConfigMap d))}) \<union>
     {cm_name d | d. d \<in> set ds \<and> cm_plan cr m d = Some (Create (ObjConfigMap d))}"
    by (rule names_after_plan [OF _ assms cm_plan_cases]) (simp_all add: cm_sel_def)
  then show ?thesis by (simp add: cm_plan_never_deletes)
qed

lemma pod_effect_deletes: "names_after pod_sel (map (\<lambda>p. DeleteCall (ObjPod p)) ps) S = S - pod_name ` set ps"
  by (rule names_after_deletes) (simp add: pod_sel_def)

lemma cm_effect_deletes:
  "names_after cm_sel (map (\<lambda>x. DeleteCall (ObjConfigMap x)) xs) S = S - cm_name ` set xs"
  by (rule names_after_deletes) (simp add: cm_sel_def)

text \<open>\<open>N\<close> observed, \<open>X\<close> restarted, \<open>C\<close> created, \<open>D\<close> desired.\<close>

lemma reach_desired_set:
  assumes "C \<subseteq> D" and "X \<subseteq> D" and "D \<subseteq> N \<union> C" and "X \<inter> C = {}"
  shows "((N - X) \<union> C) - (N - D) = D - X"
  using assms by auto

lemma surplus_pod_names:
  assumes "keyed_by_name observed"
  shows "pod_name ` surplus_pods observed desired =
    observed_pod_names observed - pod_name ` set (desired_pods desired)"
proof (intro equalityI subsetI)
  have key: "pod_name p = k" if "observed_pod (obStatefulEntities observed) se k = Some p" for se k p
    using assms that by (simp add: keyed_by_name_def)
  fix n
  {
    assume "n \<in> pod_name ` surplus_pods observed desired"
    then obtain p se k where "n = pod_name p" "observed_pod (obStatefulEntities observed) se k = Some p"
      "pod_name p \<notin> pod_name ` set (desired_pods desired)"
      unfolding surplus_pods_def by blast
    with key show "n \<in> observed_pod_names observed - pod_name ` set (desired_pods desired)"
      by (simp add: observed_pod_names_def) metis
  }
  {
    assume "n \<in> observed_pod_names observed - pod_name ` set (desired_pods desired)"
    then obtain p se where p: "observed_pod (obStatefulEntities observed) se n = Some p"
      and "n \<notin> pod_name ` set (desired_pods desired)"
      unfolding observed_pod_names_def by blast
    with key [OF p] have "p \<in> surplus_pods observed desired"
      unfolding surplus_pods_def by blast
    with key [OF p] show "n \<in> pod_name ` surplus_pods observed desired" by blast
  }
qed

lemma surplus_cm_names:
  assumes "keyed_by_name observed"
  shows "cm_name ` surplus_cms observed desired =
    fset (fmdom (obConfigMaps observed)) - cm_name ` set (desired_cms desired)"
proof (intro equalityI subsetI)
  have key: "cm_name x = k" if "fmlookup (obConfigMaps observed) k = Some x" for k x
    using assms that by (simp add: keyed_by_name_def)
  fix n
  {
    assume "n \<in> cm_name ` surplus_cms observed desired"
    then obtain x k where "n = cm_name x" and x: "fmlookup (obConfigMaps observed) k = Some x"
      and "k \<notin> cm_name ` set (desired_cms desired)"
      unfolding surplus_cms_def by blast
    with key [OF x] show "n \<in> fset (fmdom (obConfigMaps observed)) - cm_name ` set (desired_cms desired)"
      by (simp add: fmlookup_dom_iff)
  }
  {
    assume "n \<in> fset (fmdom (obConfigMaps observed)) - cm_name ` set (desired_cms desired)"
    then obtain x where x: "fmlookup (obConfigMaps observed) n = Some x"
      and "n \<notin> cm_name ` set (desired_cms desired)"
      by (auto simp: fmlookup_dom_iff)
    then have "x \<in> surplus_cms observed desired"
      unfolding surplus_cms_def by blast
    with key [OF x] show "n \<in> cm_name ` surplus_cms observed desired" by blast
  }
qed

lemma restarted_names_plan:
  "restarted_names cr observed desired = {pod_name d | d. d \<in> set (desired_pods desired) \<and>
     pod_plan cr (obStatefulEntities observed) d = Some (Delete (ObjPod d))}"
  unfolding restarted_names_def pod_plan_deleted by blast

text \<open>The pod names after the requests, from any names at the start.\<close>

lemma pod_effect_plan_calls:
  assumes "set podSurplus = surplus_pods observed desired" and "keyed_by_name observed"
    and "distinct (map pod_name (desired_pods desired))"
  shows "names_after pod_sel (plan_calls cr observed desired cmSurplus podSurplus) S =
     ((S - restarted_names cr observed desired) \<union>
       {pod_name d | d. d \<in> set (desired_pods desired) \<and>
          pod_plan cr (obStatefulEntities observed) d = Some (Create (ObjPod d))}) -
     (observed_pod_names observed - pod_name ` set (desired_pods desired))"
  by (simp add: plan_calls_def pod_effect_cm_calls pod_effect_plan [OF assms(3)]
      pod_effect_deletes restarted_names_plan assms(1) surplus_pod_names [OF assms(2)])

lemma plan_effect_pods:
  assumes surplus: "set podSurplus = surplus_pods observed desired" and "keyed_by_name observed"
    and distinct: "distinct (map pod_name (desired_pods desired))"
  shows "names_after pod_sel (plan_calls cr observed desired cmSurplus podSurplus) (observed_pod_names observed) =
     pod_name ` set (desired_pods desired) - restarted_names cr observed desired"
proof -
  let ?ds = "desired_pods desired" and ?m = "obStatefulEntities observed"
  let ?D = "pod_name ` set ?ds" and ?X = "restarted_names cr observed desired"
  let ?C = "{pod_name d | d. d \<in> set ?ds \<and> pod_plan cr ?m d = Some (Create (ObjPod d))}"
  let ?N = "observed_pod_names observed"
  have "names_after pod_sel (plan_calls cr observed desired cmSurplus podSurplus) ?N =
      ((?N - ?X) \<union> ?C) - (?N - ?D)"
    by (rule pod_effect_plan_calls [OF assms])
  also have "\<dots> = ?D - ?X"
  proof (rule reach_desired_set)
    show "?C \<subseteq> ?D" "?X \<subseteq> ?D" unfolding restarted_names_plan by blast+
    show "?D \<subseteq> ?N \<union> ?C"
    proof
      fix n assume "n \<in> ?D"
      then obtain d where "d \<in> set ?ds" "n = pod_name d" by blast
      then show "n \<in> ?N \<union> ?C"
        by (cases "observed_pod ?m (entity_label d) (pod_name d)")
          (auto simp: observed_pod_names_def pod_plan_created)
    qed
    show "?X \<inter> ?C = {}"
    proof (rule ccontr)
      assume "?X \<inter> ?C \<noteq> {}"
      then obtain d d' where "d \<in> set ?ds" "d' \<in> set ?ds" "pod_name d = pod_name d'"
        "pod_plan cr ?m d = Some (Delete (ObjPod d))" "pod_plan cr ?m d' = Some (Create (ObjPod d'))"
        unfolding restarted_names_plan by blast
      moreover from this distinct have "d = d'" by (simp add: distinct_map inj_on_def)
      ultimately show False by simp
    qed
  qed
  finally show ?thesis .
qed

lemma plan_effect_cms:
  assumes surplus: "set cmSurplus = surplus_cms observed desired" and "keyed_by_name observed"
    and distinct: "distinct (map cm_name (desired_cms desired))"
  shows "names_after cm_sel (plan_calls cr observed desired cmSurplus podSurplus)
       (fset (fmdom (obConfigMaps observed))) = cm_name ` set (desired_cms desired)"
proof -
  let ?ds = "desired_cms desired" and ?m = "obConfigMaps observed"
  let ?D = "cm_name ` set ?ds" and ?N = "fset (fmdom ?m)"
  let ?C = "{cm_name d | d. d \<in> set ?ds \<and> cm_plan cr ?m d = Some (Create (ObjConfigMap d))}"
  have "names_after cm_sel (plan_calls cr observed desired cmSurplus podSurplus) ?N =
      ((?N - {}) \<union> ?C) - cm_name ` set cmSurplus"
    by (simp add: plan_calls_def cm_effect_pod_calls cm_effect_plan [OF distinct] cm_effect_deletes
        cm_sel_def)
  also have "\<dots> = ((?N - {}) \<union> ?C) - (?N - ?D)"
    by (simp only: surplus surplus_cm_names [OF assms(2)])
  also have "\<dots> = ?D - {}"
  proof (rule reach_desired_set)
    show "?D \<subseteq> ?N \<union> ?C"
    proof
      fix n assume "n \<in> ?D"
      then obtain d where "d \<in> set ?ds" "n = cm_name d" by blast
      then show "n \<in> ?N \<union> ?C"
        by (cases "fmlookup ?m (cm_name d)") (auto simp: fmlookup_dom_iff cm_plan_created)
    qed
  qed auto
  finally show ?thesis by simp
qed

text \<open>What the observer builds is keyed by name.\<close>

lemma keyed_by_name_indexed:
  assumes "obStatefulEntities observed = group_pods pods fmempty"
    and "obConfigMaps observed = index_config_maps cms"
  shows "keyed_by_name observed"
proof -
  have "pod_name p = n" if "observed_pod (group_pods pods fmempty) se n = Some p" for se n p
    using observed_pod_group_SomeD [OF that] by (auto simp: observed_pod_def index_ptr_def)
  moreover have "cm_name x = n" if "fmlookup (index_config_maps cms) n = Some x" for n x
    using fmlookup_insert_all_SomeD [OF that [unfolded index_config_maps_def]] by auto
  ultimately show ?thesis by (simp add: keyed_by_name_def assms)
qed

subsection \<open>A run on the in-memory server\<close>

text \<open>
  One desired config map and one desired pod; observed are the pod with other resources, a pod
  and a config map that the spec does not ask for.
\<close>

definition demo_config_map :: "string \<Rightarrow> ConfigMap" where
  "demo_config_map name = \<lparr>cmMeta = demo_meta name, cmData = fmempty\<rparr>"

definition demo_running_cr :: InvokerDeployment where
  "demo_running_cr = demo_cr\<lparr>crStatus := zero_status\<lparr>stState := StateRunning,
     stCurrentRevision := ''sample-rev-1'', stNextRevision := ''sample-rev-2''\<rparr>\<rparr>"

definition demo_observed :: ObservedInvokerDeploymentState where
  "demo_observed = zero_observed\<lparr>obCR := Some demo_running_cr,
     obConfigMaps := index_config_maps [demo_config_map ''old-configmap''],
     obStatefulEntities := group_pods
       [demo_pod ''sum'' ''sum-0'' ''Running'', demo_pod ''sum'' ''old-0'' ''Running''] fmempty\<rparr>"

definition demo_wanted_pod :: "string \<Rightarrow> Pod" where
  "demo_wanted_pod name = (demo_pod ''sum'' name [])\<lparr>podSpec :=
     \<lparr>psContainers = [\<lparr>cnName = ''executor-pod'', cnImage = ''exec'', cnImagePullPolicy = ''Always'',
        cnEnv = [], cnVolumeMounts = [], cnResources = zero_resources\<rparr>],
      psVolumes = [], psImagePullSecrets = []\<rparr>\<rparr>"

definition demo_desired :: DesiredInvokerDeploymentState where
  "demo_desired = \<lparr>dsConfigMaps = Some [demo_config_map ''sum-configmap''], dsSecret = None,
     dsStatefulEntities = Some [demo_wanted_pod ''sum-0'', demo_wanted_pod ''sum-1'']\<rparr>"

definition demo_run :: "(Result \<times> go_error option) \<times> store world" where
  "demo_run = run_state (reconcileResources mem_env demo_observed demo_desired) (start_world demo_store)"

lemma demo_run_result: "fst demo_run = (zero_result, None)"
  by code_simp

lemma demo_run_eq:
  "run_state (reconcileResources mem_env demo_observed demo_desired) (start_world demo_store) =
     ((zero_result, None), snd demo_run)"
  using run_result [OF demo_run_result] unfolding demo_run_def .

lemma demo_observed_cr: "obCR demo_observed = Some demo_running_cr"
  by (simp add: demo_observed_def)

lemma demo_keyed: "keyed_by_name demo_observed"
  by (rule keyed_by_name_indexed) (simp_all add: demo_observed_def del: group_pods.simps)

lemma demo_distinct: "distinct (map pod_name (desired_pods demo_desired))"
  "distinct (map cm_name (desired_cms demo_desired))"
  by code_simp+

subsection \<open>Properties\<close>

text \<open>
  C5: A resource reconciliation that returns no error has made exactly these requests, in this
  order: per desired config map a create if it is not observed, an update if it is and the
  revision changed; a delete per observed config map that is not desired; per desired pod a
  create if it is not observed under its entity, a delete if it is, the revision changed and
  its resources differ; a delete per observed pod that is not desired; last the status update
  that promotes the revision.
\<close>

theorem reconcile_success_plan:
  assumes "range_ok E" and "obCR observed = Some cr"
    and "run_state (reconcileResources E observed desired) w = ((res, None), w')"
  shows "\<exists>cmSurplus podSurplus.
    wTrace w' = wTrace w @ plan_calls cr observed desired cmSurplus podSurplus \<and>
    set cmSurplus = surplus_cms observed desired \<and> set podSurplus = surplus_pods observed desired \<and>
    res = zero_result"
  using reconcileResources_success [OF assms] by metis

theorem reconcile_success_plan_witness:
  "\<exists>cmSurplus podSurplus.
    wTrace (snd demo_run) = [] @ plan_calls demo_running_cr demo_observed demo_desired cmSurplus podSurplus \<and>
    set cmSurplus = surplus_cms demo_observed demo_desired \<and>
    set podSurplus = surplus_pods demo_observed demo_desired"
  using reconcile_success_plan [OF range_ok_mem_env demo_observed_cr demo_run_eq]
  by (simp add: start_world_def)

text \<open>
  C3: After a resource reconciliation without error, the pods in use are exactly the desired
  ones, except those it deleted for a restart: starting from the observed names, the requests
  leave the desired names minus the restarted ones.
\<close>

theorem pods_converge:
  assumes "range_ok E" and "obCR observed = Some cr" and "keyed_by_name observed"
    and "distinct (map pod_name (desired_pods desired))"
    and "run_state (reconcileResources E observed desired) w = ((res, None), w')"
  shows "\<exists>calls. wTrace w' = wTrace w @ calls \<and>
    names_after pod_sel calls (observed_pod_names observed) =
      pod_name ` set (desired_pods desired) - restarted_names cr observed desired"
  using reconcileResources_success [OF assms(1,2,5)] plan_effect_pods [OF _ assms(3,4)] by metis

theorem pods_converge_witness:
  "\<exists>calls. wTrace (snd demo_run) = [] @ calls \<and>
    names_after pod_sel calls (observed_pod_names demo_observed) =
      pod_name ` set (desired_pods demo_desired) - restarted_names demo_running_cr demo_observed demo_desired"
  using pods_converge [OF range_ok_mem_env demo_observed_cr demo_keyed demo_distinct(1) demo_run_eq]
  by (simp add: start_world_def)

text \<open>
  C4: After a resource reconciliation without error, the config maps in use are exactly the
  desired ones.
\<close>

theorem config_maps_converge:
  assumes "range_ok E" and "obCR observed = Some cr" and "keyed_by_name observed"
    and "distinct (map cm_name (desired_cms desired))"
    and "run_state (reconcileResources E observed desired) w = ((res, None), w')"
  shows "\<exists>calls. wTrace w' = wTrace w @ calls \<and>
    names_after cm_sel calls (fset (fmdom (obConfigMaps observed))) = cm_name ` set (desired_cms desired)"
  using reconcileResources_success [OF assms(1,2,5)] plan_effect_cms [OF _ assms(3,4)] by metis

theorem config_maps_converge_witness:
  "\<exists>calls. wTrace (snd demo_run) = [] @ calls \<and>
    names_after cm_sel calls (fset (fmdom (obConfigMaps demo_observed))) =
      cm_name ` set (desired_cms demo_desired)"
  using config_maps_converge [OF range_ok_mem_env demo_observed_cr demo_keyed demo_distinct(2) demo_run_eq]
  by (simp add: start_world_def)

text \<open>
  C6: No request without a reason, for every API server, clock and iteration order, errors
  included: a reconciliation only creates what is desired and not observed, only updates
  config maps and only when the revision changed, only deletes what is not desired or what is
  to be restarted, and writes no other kind of object.
\<close>

theorem reconcile_calls_justified:
  "obCR observed = Some cr \<Longrightarrow>
   emits (justified cr observed desired) (reconcileResources E observed desired)"
  by (rule emits_reconcileResources)

theorem reconcile_calls_justified_witness:
  "emits (justified demo_running_cr demo_observed demo_desired)
     (reconcileResources mem_env demo_observed demo_desired)"
  by (rule reconcile_calls_justified [OF demo_observed_cr])

text \<open>
  C12: The revision is promoted last and only when everything else succeeded: if a
  reconciliation makes a status update at all, whatever its outcome, then its requests are the
  complete plan, which ends with that update.
\<close>

theorem promotion_only_after_plan:
  assumes "range_ok E" and "obCR observed = Some cr"
    and run: "run_state (reconcileResources E observed desired) w = (r, w')"
    and trace: "wTrace w' = wTrace w @ calls" and "StatusUpdateCall c \<in> set calls"
  shows "\<exists>cmSurplus podSurplus. calls = plan_calls cr observed desired cmSurplus podSurplus \<and>
    set cmSurplus = surplus_cms observed desired \<and> set podSurplus = surplus_pods observed desired"
proof -
  obtain err v where loops: "run_state (reconcile_loops E cr observed desired) w = (err, v)"
    by fastforce
  from emitsE [OF emits_reconcile_loops loops] obtain cs
    where cs: "wTrace v = wTrace w @ cs" "list_all (\<lambda>c. \<not> is_status_update c) cs" .
  have "err = None"
  proof (rule ccontr)
    assume "err \<noteq> None"
    with run loops have "w' = v" by (auto simp: reconcileResources_loops [OF assms(2)])
    with trace cs \<open>StatusUpdateCall c \<in> set calls\<close> show False by (auto simp: list_all_iff)
  qed
  with run loops have "wTrace w' = wTrace v @ [StatusUpdateCall (promote cr)]"
    by (auto simp: reconcileResources_loops [OF assms(2)] client_defs)
  moreover from \<open>err = None\<close> loops have "run_state (reconcile_loops E cr observed desired) w = (None, v)"
    by simp
  ultimately show ?thesis
    using reconcile_loops_success [OF assms(1,2)] trace by (metis same_append_eq)
qed

lemma demo_run_promotes:
  "StatusUpdateCall (promote demo_running_cr) \<in> set (wTrace (snd demo_run))"
  by (rule reconcileResources_success [OF range_ok_mem_env demo_observed_cr demo_run_eq])
    (simp add: plan_calls_def)

theorem promotion_only_after_plan_witness:
  "\<exists>cmSurplus podSurplus.
    wTrace (snd demo_run) = plan_calls demo_running_cr demo_observed demo_desired cmSurplus podSurplus \<and>
    set cmSurplus = surplus_cms demo_observed demo_desired \<and>
    set podSurplus = surplus_pods demo_observed demo_desired"
  by (rule promotion_only_after_plan [OF range_ok_mem_env demo_observed_cr demo_run_eq _ demo_run_promotes])
    (simp add: start_world_def)

text \<open>
  C31: Ownership is not looked at: whatever the owner references and other labels of an observed
  pod say, a reconciliation without error deletes it when the resource at hand does not desire
  its name.  As the observer lists the pods of the whole namespace by one fixed label, these
  include the pods of other InvokerDeployments.
\<close>

theorem undesired_pod_deleted:
  assumes "range_ok E" and "obCR observed = Some cr"
    and "obStatefulEntities observed = group_pods pods fmempty" and "distinct (map pod_name pods)"
    and "p \<in> set pods" and "pod_name p \<notin> pod_name ` set (desired_pods desired)"
    and "run_state (reconcileResources E observed desired) w = ((res, None), w')"
  shows "DeleteCall (ObjPod p) \<in> set (wTrace w')"
proof -
  have "p \<in> surplus_pods observed desired"
    unfolding surplus_pods_def assms(3)
    using observed_pod_group_member [OF assms(4,5), of fmempty] assms(6) by blast
  moreover obtain cmSurplus podSurplus where
    "wTrace w' = wTrace w @ plan_calls cr observed desired cmSurplus podSurplus"
    "set podSurplus = surplus_pods observed desired"
    by (rule reconcileResources_success [OF assms(1,2,7)])
  ultimately show ?thesis by (simp add: plan_calls_def)
qed

theorem undesired_pod_deleted_witness:
  "DeleteCall (ObjPod (demo_pod ''sum'' ''old-0'' ''Running'')) \<in> set (wTrace (snd demo_run))"
proof (rule undesired_pod_deleted [OF range_ok_mem_env demo_observed_cr _ _ _ _ demo_run_eq])
  show "obStatefulEntities demo_observed = group_pods
       [demo_pod ''sum'' ''sum-0'' ''Running'', demo_pod ''sum'' ''old-0'' ''Running''] fmempty"
    by (simp add: demo_observed_def del: group_pods.simps)
qed code_simp+

subsection \<open>The steady state\<close>

definition in_sync ::
  "InvokerDeployment \<Rightarrow> ObservedInvokerDeploymentState \<Rightarrow> DesiredInvokerDeploymentState \<Rightarrow> bool" where
  "in_sync cr observed desired \<longleftrightarrow>
     stCurrentRevision (crStatus cr) = stNextRevision (crStatus cr) \<and>
     (\<forall>d \<in> set (desired_cms desired). fmlookup (obConfigMaps observed) (cm_name d) \<noteq> None) \<and>
     (\<forall>d \<in> set (desired_pods desired).
        observed_pod (obStatefulEntities observed) (entity_label d) (pod_name d) \<noteq> None) \<and>
     surplus_cms observed desired = {} \<and> surplus_pods observed desired = {}"

lemma idle_loop:
  "(\<And>x. x \<in> set xs \<Longrightarrow> f x = None) \<Longrightarrow> for_each (\<lambda>x. perform E (f x)) xs = ret None"
  by (induction xs) auto

lemma in_sync_plans:
  assumes "in_sync cr observed desired"
  shows "d \<in> set (desired_cms desired) \<Longrightarrow> cm_plan cr (obConfigMaps observed) d = None"
    and "e \<in> set (desired_pods desired) \<Longrightarrow> pod_plan cr (obStatefulEntities observed) e = None"
    and "promote cr = cr"
  using assms
  by (auto simp: in_sync_def cm_plan_def pod_plan_def update_present_def restart_present_def
      revision_changed_def promote_def)

lemma in_sync_no_surplus:
  assumes "in_sync cr observed desired"
  shows "fmlookup (obConfigMaps observed) n = Some x \<Longrightarrow> n \<in> cm_name ` set (desired_cms desired)"
    and "observed_pod (obStatefulEntities observed) se k = Some p \<Longrightarrow>
      pod_name p \<in> pod_name ` set (desired_pods desired)"
  using assms unfolding in_sync_def surplus_cms_def surplus_pods_def by blast+

lemma for_each_no_error:
  "(\<And>x v. x \<in> set xs \<Longrightarrow> fst (run_state (body x) v) = None) \<Longrightarrow>
   fst (run_state (for_each body xs) w) = None"
proof (induction xs arbitrary: w)
  case Nil
  then show ?case by simp
next
  case (Cons x xs)
  then show ?case by (simp split: prod.splits) (metis fst_conv option.simps(4))
qed

lemma idle_entity:
  assumes "\<And>inner n p. se = Some inner \<Longrightarrow> fmlookup inner n = Some p \<Longrightarrow> fmlookup des (pod_name p) \<noteq> None"
  shows "fst (run_state (reconcileObservedEntity E cr des se) w) = None"
proof (cases se)
  case None
  then show ?thesis by (simp add: reconcileObservedEntity_def)
next
  case (Some inner)
  obtain vs v where vs: "run_state (range_values E inner) w = (vs, v)" by fastforce
  have "for_each (reconcileObservedPod E cr des) vs = ret None"
    unfolding reconcileObservedPod_eq
    by (rule idle_loop) (use range_values_from_map [OF vs] assms [OF Some] in auto)
  with vs Some show ?thesis by (simp add: reconcileObservedEntity_def)
qed

lemma in_sync_entities:
  assumes sync: "in_sync cr observed desired"
    and ses: "run_state (range_values E (obStatefulEntities observed)) v = (ses, v')"
    and d: "d = insert_all pod_name (\<lambda>_. True) (desired_pods desired) fmempty"
    and run: "run_state (for_each (reconcileObservedEntity E cr d) ses) w = (err, w')"
  shows "err = None \<and> wTrace w' = wTrace w"
proof -
  have known: "fmlookup d (pod_name p) \<noteq> None"
    if "se \<in> set ses" "se = Some inner" "fmlookup inner n = Some p" for se inner n p
  proof -
    obtain k where "fmlookup (obStatefulEntities observed) k = Some se"
      using range_values_from_map [OF ses \<open>se \<in> set ses\<close>] by blast
    then have "observed_pod (obStatefulEntities observed) k n = Some p"
      using that by (simp add: observed_pod_Some_iff)
    from in_sync_no_surplus(2) [OF sync this] show ?thesis by (simp add: d lookup_desired_names)
  qed
  have "emits (\<lambda>_. False) (for_each (reconcileObservedEntity E cr d) ses)"
    by (rule emits_for_each, rule emits_reconcileObservedEntity) (use known in blast)
  from emitsE [OF this run] obtain cs where "wTrace w' = wTrace w @ cs" "list_all (\<lambda>_. False) cs" .
  moreover have "err = None"
    using for_each_no_error [of ses "reconcileObservedEntity E cr d" w] known run
    by (simp add: idle_entity)
  ultimately show ?thesis by (cases cs) auto
qed

lemma in_sync_loops:
  assumes sync: "in_sync cr observed desired"
    and run: "run_state (reconcile_loops E cr observed desired) w = (err, w')"
  shows "err = None \<and> wTrace w' = wTrace w"
proof -
  let ?cms = "obConfigMaps observed" and ?ses = "obStatefulEntities observed"
  obtain e1 d1 w1 where r1: "run_state (reconcileDesiredConfigMaps E cr ?cms (desired_cms desired) fmempty) w =
      ((e1, d1), w1)" by (metis prod.collapse)
  have 1: "e1 = None" "w1 = w" "d1 = insert_all cm_name (\<lambda>_. True) (desired_cms desired) fmempty"
    using run_reconcileDesiredConfigMaps [OF r1] in_sync_plans(1) [OF sync] by (auto simp: idle_loop)
  obtain es w2 where r2: "run_state (range_entries E ?cms) w1 = (es, w2)" by fastforce
  have "fmlookup d1 (fst e) \<noteq> None" if "e \<in> set es" for e
    using range_entries_from_map [OF r2, of "fst e" "snd e"] that in_sync_no_surplus(1) [OF sync]
    by (auto simp: 1 lookup_desired_names)
  then have r3: "run_state (reconcileObservedConfigMaps E cr d1 es) w2 = (None, w2)"
    by (simp add: reconcileObservedConfigMaps_eq idle_loop)
  obtain e4 d2 w4 where r4: "run_state (reconcileDesiredPods E cr ?ses (desired_pods desired) fmempty) w2 =
      ((e4, d2), w4)" by (metis prod.collapse)
  have 4: "e4 = None" "w4 = w2" "d2 = insert_all pod_name (\<lambda>_. True) (desired_pods desired) fmempty"
    using run_reconcileDesiredPods [OF r4] in_sync_plans(2) [OF sync] by (auto simp: idle_loop)
  obtain ses w5 where r5: "run_state (range_values E ?ses) w2 = (ses, w5)" by fastforce
  have "run_state (for_each (reconcileObservedEntity E cr d2) ses) w5 = (err, w')"
    using run by (simp add: reconcile_loops_def r1 [unfolded 1] r2 [unfolded 1] r3 [unfolded 1]
        r4 [unfolded 4] r5 4(3))
  from in_sync_entities [OF sync r5 4(3) this] show ?thesis
    using range_trace(2) [OF r2] range_trace(1) [OF r5] by (simp add: 1)
qed

lemma in_sync_run:
  assumes "obCR observed = Some cr" and "in_sync cr observed desired"
    and "run_state (reconcileResources E observed desired) w = ((res, err), w')"
  shows "wTrace w' = wTrace w @ [StatusUpdateCall cr] \<and> res = zero_result"
proof -
  obtain e v where loops: "run_state (reconcile_loops E cr observed desired) w = (e, v)" by fastforce
  with in_sync_loops [OF assms(2) loops] assms(3) show ?thesis
    by (auto simp: reconcileResources_loops [OF assms(1)] client_defs in_sync_plans(3) [OF assms(2)])
qed

text \<open>
  C22: The steady state is quiet: when every desired object is observed, nothing else is, and
  the revision is current, a reconciliation makes one request, the status update, with the
  resource as it was observed.
\<close>

theorem steady_state_quiet:
  assumes "obCR observed = Some cr" and "in_sync cr observed desired"
    and "run_state (reconcileResources E observed desired) w = ((res, err), w')"
  shows "wTrace w' = wTrace w @ [StatusUpdateCall cr] \<and> res = zero_result"
  by (rule in_sync_run [OF assms])

text \<open>The demo resource with nothing left to do.\<close>

definition synced_cr :: InvokerDeployment where
  "synced_cr = demo_cr\<lparr>crStatus := zero_status\<lparr>stState := StateRunning,
     stCurrentRevision := ''sample-rev-2'', stNextRevision := ''sample-rev-2''\<rparr>\<rparr>"

definition synced_observed :: ObservedInvokerDeploymentState where
  "synced_observed = zero_observed\<lparr>obCR := Some synced_cr,
     obConfigMaps := index_config_maps [demo_config_map ''sum-configmap''],
     obStatefulEntities := group_pods [demo_wanted_pod ''sum-1'', demo_wanted_pod ''sum-0''] fmempty\<rparr>"

lemma synced_keyed: "keyed_by_name synced_observed"
  by (rule keyed_by_name_indexed) (simp_all add: synced_observed_def del: group_pods.simps)

lemma synced_no_surplus:
  "surplus_cms synced_observed demo_desired = {}" "surplus_pods synced_observed demo_desired = {}"
proof -
  have "observed_pod_names synced_observed \<subseteq> pod_name ` set (desired_pods demo_desired)"
    by (auto simp: observed_pod_names_def synced_observed_def demo_desired_def desired_pods_def
        observed_pod_def index_ptr_def Let_def entity_label_def index_string_def demo_wanted_pod_def
        demo_defs split: if_splits option.splits)
  then show "surplus_pods synced_observed demo_desired = {}"
    using surplus_pod_names [OF synced_keyed] by (metis Diff_eq_empty_iff image_is_empty)
  have "fset (fmdom (obConfigMaps synced_observed)) \<subseteq> cm_name ` set (desired_cms demo_desired)"
    by (simp add: synced_observed_def demo_desired_def desired_cms_def index_config_maps_def
        demo_config_map_def demo_defs)
  then show "surplus_cms synced_observed demo_desired = {}"
    using surplus_cm_names [OF synced_keyed] by (metis Diff_eq_empty_iff image_is_empty)
qed

lemma synced_in_sync: "in_sync synced_cr synced_observed demo_desired"
proof -
  have "\<forall>d \<in> set (desired_cms demo_desired). fmlookup (obConfigMaps synced_observed) (cm_name d) \<noteq> None"
    by code_simp
  moreover have "\<forall>d \<in> set (desired_pods demo_desired).
      observed_pod (obStatefulEntities synced_observed) (entity_label d) (pod_name d) \<noteq> None"
    by code_simp
  ultimately show ?thesis
    by (simp add: in_sync_def synced_no_surplus) (simp add: synced_cr_def)
qed

theorem steady_state_quiet_witness:
  "wTrace (snd (run_state (reconcileResources mem_env synced_observed demo_desired) (start_world demo_store)))
     = [StatusUpdateCall synced_cr]"
proof -
  let ?run = "run_state (reconcileResources mem_env synced_observed demo_desired) (start_world demo_store)"
  have "obCR synced_observed = Some synced_cr" by (simp add: synced_observed_def)
  from steady_state_quiet [OF this synced_in_sync, where w = "start_world demo_store" and w' = "snd ?run"
      and res = "fst (fst ?run)" and err = "snd (fst ?run)" and E = "mem_env"]
  show ?thesis by (simp add: start_world_def)
qed

end
