(* ===== verification/Status_Properties.thy ===== *)
theory Status_Properties
  imports Status_Updater Mem_Server
begin

section \<open>Properties of the status updater\<close>

text \<open>
  The derived status as a function of what was observed: how many entities run
  (\<open>running_entities\<close>), the life cycle of the recorded state, when a status is written and what
  is written.
\<close>

subsection \<open>Counting the running entities\<close>

definition entity_running :: "Pod gomap option \<Rightarrow> bool" where
  "entity_running se \<longleftrightarrow> (\<exists>inner. se = Some inner \<and> (\<forall>p \<in> fmran' inner. podPhase p = ''Running''))"

definition running_entities :: "Pod gomap option gomap \<Rightarrow> nat" where
  "running_entities m = card {k. \<exists>se. fmlookup m k = Some se \<and> entity_running se}"

lemma all_ready_iff: "all_ready ps b \<longleftrightarrow> b \<and> (\<forall>p \<in> set ps. podPhase p = ''Running'')"
  by (induction ps arbitrary: b) (auto simp: getPodState_def component_state_defs)

lemma count_running_result:
  "range_ok E \<Longrightarrow>
   fst (run_state (count_running E ses n) w) = n + length (filter entity_running ses)"
proof (induction ses arbitrary: n w)
  case Nil
  then show ?case by simp
next
  case (Cons se ses)
  show ?case
  proof (cases se)
    case None
    with Cons show ?thesis by (simp add: entity_running_def)
  next
    case (Some inner)
    obtain ps v where ps: "run_state (range_values E inner) w = (ps, v)" by fastforce
    have "set ps = fmran' inner"
      using range_values_result [OF Cons.prems, of inner w] ps by simp
    then have "all_ready ps True \<longleftrightarrow> entity_running (Some inner)"
      by (simp add: all_ready_iff entity_running_def)
    with Some ps Cons show ?thesis by simp
  qed
qed

lemma length_filter_map_filter_lookup:
  assumes "distinct ks" and "set ks = fset (fmdom m)"
  shows "length (filter P (List.map_filter (fmlookup m) ks)) =
    card {k. \<exists>v. fmlookup m k = Some v \<and> P v}"
proof -
  have "filter P (List.map_filter (fmlookup m) ks) =
      map (\<lambda>k. the (fmlookup m k)) (filter (\<lambda>k. \<exists>v. fmlookup m k = Some v \<and> P v) ks)"
    by (induction ks) (auto simp: List.map_filter_def)
  moreover have "set (filter (\<lambda>k. \<exists>v. fmlookup m k = Some v \<and> P v) ks) =
      {k. \<exists>v. fmlookup m k = Some v \<and> P v}"
    using assms(2) by (auto simp: fmlookup_dom_iff)
  ultimately show ?thesis
    using distinct_card [of "filter (\<lambda>k. \<exists>v. fmlookup m k = Some v \<and> P v) ks"] assms(1) by simp
qed

text \<open>Whatever the order of iteration, the count is the same.\<close>

lemma count_running_observed:
  assumes "range_ok E" and "run_state (range_values E m) w = (ses, v)"
  shows "fst (run_state (count_running E ses 0) v) = running_entities m"
proof -
  have "ses = List.map_filter (fmlookup m) (fst (sRange E (fmdom m) (wServer w)))"
    using assms(2) by (auto simp: range_values_def)
  then have "length (filter entity_running ses) = running_entities m"
    using assms(1) by (simp add: range_ok_def running_entities_def length_filter_map_filter_lookup)
  with count_running_result [OF assms(1)] show ?thesis by simp
qed

lemma running_entities_le: "running_entities m \<le> fcard (fmdom m)"
proof -
  have "{k. \<exists>se. fmlookup m k = Some se \<and> entity_running se} \<subseteq> fset (fmdom m)"
    by (auto simp: fmlookup_dom_iff)
  then show ?thesis
    unfolding running_entities_def fcard.rep_eq by (rule card_mono [OF finite_fset])
qed

lemma running_entities_all:
  "running_entities m < fcard (fmdom m) \<longleftrightarrow> (\<exists>k se. fmlookup m k = Some se \<and> \<not> entity_running se)"
proof -
  let ?R = "{k. \<exists>se. fmlookup m k = Some se \<and> entity_running se}"
  have sub: "?R \<subseteq> fset (fmdom m)" by (auto simp: fmlookup_dom_iff)
  have "running_entities m < fcard (fmdom m) \<longleftrightarrow> ?R \<noteq> fset (fmdom m)"
    unfolding running_entities_def fcard.rep_eq
    using psubset_card_mono [OF finite_fset, of ?R "fmdom m"] sub by auto
  also have "\<dots> \<longleftrightarrow> \<not> fset (fmdom m) \<subseteq> ?R"
    using sub by auto
  also have "\<dots> \<longleftrightarrow> (\<exists>k se. fmlookup m k = Some se \<and> \<not> entity_running se)"
    by (auto simp: subset_iff fmlookup_dom_iff)
  finally show ?thesis .
qed

lemma emits_count_running: "emits P (count_running E ses n)"
proof (induction ses arbitrary: n)
  case Nil
  then show ?case by (simp add: emits_rules)
next
  case (Cons se ses)
  then show ?case by (cases se) (auto intro!: emits_rules)
qed

subsection \<open>The derived status in closed form\<close>

definition derived_components ::
  "InvokerDeploymentStatus \<Rightarrow> ObservedInvokerDeploymentState \<Rightarrow> ComponentsStatus" where
  "derived_components recorded observed =
     \<lparr>csConfigMap = (if fmdom (obConfigMaps observed) \<noteq> {||} then ComponentStateReady
        else if csConfigMap (stComponents recorded) \<noteq> [] then ComponentStateDeleted else []),
      csStatefulEntities = (if running_entities (obStatefulEntities observed) <
          fcard (fmdom (obStatefulEntities observed)) then ComponentStateNotReady else ComponentStateReady),
      csSecret = (if obSecret observed \<noteq> None then ComponentStateReady
        else if csSecret (stComponents recorded) \<noteq> [] then ComponentStateDeleted else [])\<rparr>"

abbreviation cr_updating :: "InvokerDeployment \<Rightarrow> bool" where
  "cr_updating cr \<equiv> stCurrentRevision (crStatus cr) \<noteq> stNextRevision (crStatus cr)"

definition derived_state :: "string \<Rightarrow> InvokerDeployment \<Rightarrow> ObservedInvokerDeploymentState \<Rightarrow> string option" where
  "derived_state recorded cr observed = map_option fst
     (next_state recorded (cr_updating cr) (running_entities (obStatefulEntities observed))
       (length (spec_entities (crSpec cr))))"

lemma derive_result:
  assumes "range_ok E" and "obCR observed = Some cr"
    and "run_state (deriveInvokerDeploymentStatus E recorded observed) w = (r, w')"
  shows "case derived_state (stState recorded) cr observed of
      None \<Rightarrow> r = Panicked
    | Some s \<Rightarrow> \<exists>conditions. r = Val \<lparr>stConditions = conditions,
        stComponents = derived_components recorded observed, stState = s, stLastUpdateTime = [],
        stCurrentRevision = stCurrentRevision (crStatus cr), stNextRevision = stNextRevision (crStatus cr)\<rparr> \<and>
        (if stConditions recorded = [] then \<exists>s. conditions = fst (sSetStatusCondition E [] starting_condition s)
         else conditions = stConditions recorded)"
proof -
  obtain cs v where cs: "run_state (if stConditions recorded = []
        then outside (sSetStatusCondition E [] starting_condition)
        else ret (stConditions recorded)) w = (cs, v)" by fastforce
  obtain ses v' where ses: "run_state (range_values E (obStatefulEntities observed)) v = (ses, v')"
    by fastforce
  obtain n v'' where n: "run_state (count_running E ses 0) v' = (n, v'')" by fastforce
  with count_running_observed [OF assms(1) ses] have "n = running_entities (obStatefulEntities observed)"
    by simp
  moreover have "if stConditions recorded = [] then \<exists>s. cs = fst (sSetStatusCondition E [] starting_condition s)
      else cs = stConditions recorded"
    using cs by auto
  ultimately show ?thesis
    using assms(3) cs ses n
    by (simp add: deriveInvokerDeploymentStatus_def assms(2) Let_def derived_state_def
        derived_components_def split: option.splits prod.splits if_splits) auto
qed

subsection \<open>The life cycle of the recorded state\<close>

definition live_states :: "string set" where
  "live_states = {[], StateCreating, StateRunning, StateUpdating, StateReconciling}"

definition known_states :: "string set" where
  "known_states = live_states \<union> {StateStopping, StateStopped}"

lemma next_state_None_iff: "next_state s u r t = None \<longleftrightarrow> s \<notin> known_states"
  by (auto simp: next_state_def known_states_def live_states_def)

lemma next_state_live:
  "next_state s u r t = Some (s', b) \<Longrightarrow> s \<in> live_states \<Longrightarrow>
     s' \<in> {StateCreating, StateRunning, StateUpdating, StateReconciling}"
  by (auto simp: next_state_def live_states_def state_defs split: if_splits)

lemma next_state_upgraded:
  "next_state s u r t = Some (s', upgraded) \<Longrightarrow>
     upgraded \<longleftrightarrow> u \<and> s \<in> {StateRunning, StateReconciling, StateUpdating}"
  by (auto simp: next_state_def state_defs split: if_splits)

lemma next_state_stopped: "next_state StateStopping u r t = Some ([], False)"
  "next_state StateStopped u r t = Some ([], False)"
  by (simp_all add: next_state_def state_defs)

lemma derive_Val_state:
  assumes "run_state (deriveInvokerDeploymentStatus E recorded observed) w = (Val st, w')"
  shows "\<exists>cr n upgraded. obCR observed = Some cr \<and>
    next_state (stState recorded) (cr_updating cr) n (length (spec_entities (crSpec cr))) =
      Some (stState st, upgraded) \<and>
    stCurrentRevision st = stCurrentRevision (crStatus cr) \<and>
    stNextRevision st = stNextRevision (crStatus cr)"
  using assms
  by (auto simp: deriveInvokerDeploymentStatus_def Let_def split: prod.splits option.splits) blast

lemma derive_known_state:
  assumes "obCR observed = Some cr" and "stState recorded \<in> known_states"
  shows "fst (run_state (deriveInvokerDeploymentStatus E recorded observed) w) \<noteq> Panicked"
proof -
  have "next_state (stState recorded) u r t = Some (the (next_state (stState recorded) u r t))" for u r t
    using assms(2) by (simp add: next_state_None_iff)
  then obtain f where "\<And>u r t. next_state (stState recorded) u r t = Some (f u r t)"
    by (rule that [of "\<lambda>u r t. the (next_state (stState recorded) u r t)"])
  with assms(1) show ?thesis
    by (simp add: deriveInvokerDeploymentStatus_def Let_def split: prod.splits)
qed

lemma derive_unknown_state:
  assumes "stState recorded \<notin> known_states"
  shows "fst (run_state (deriveInvokerDeploymentStatus E recorded observed) w) = Panicked"
proof -
  have "next_state (stState recorded) u r t = None" for u r t
    using assms by (simp add: next_state_None_iff)
  then show ?thesis
    by (simp add: deriveInvokerDeploymentStatus_def Let_def split: prod.splits option.splits)
qed

text \<open>
  Deriving a status goes through, for every server and iteration order, exactly when there is
  an observed resource and the recorded state is one of the seven known ones; otherwise it panics.
\<close>

theorem derive_panics_iff:
  "fst (run_state (deriveInvokerDeploymentStatus E recorded observed) w) \<noteq> Panicked \<longleftrightarrow>
     obCR observed \<noteq> None \<and> stState recorded \<in> known_states"
proof (cases "obCR observed")
  case None
  then show ?thesis by (simp add: deriveInvokerDeploymentStatus_def split: prod.splits)
next
  case (Some cr)
  with derive_known_state [OF Some] derive_unknown_state [of recorded E observed w] show ?thesis by auto
qed

text \<open>One round of the updater: from a recorded status to a derived one.\<close>

inductive status_step :: "'s env \<Rightarrow> InvokerDeploymentStatus \<Rightarrow> InvokerDeploymentStatus \<Rightarrow> bool"
  for E :: "'s env" where
  derive: "run_state (deriveInvokerDeploymentStatus E recorded observed) w = (Val st, w') \<Longrightarrow>
    status_step E recorded st"

inductive_cases status_stepE: "status_step E recorded st"

lemma status_step_live: "status_step E recorded st \<Longrightarrow> stState recorded \<in> live_states \<Longrightarrow>
    stState st \<in> live_states"
  by (erule status_stepE, drule derive_Val_state)
    (auto dest!: next_state_live simp: live_states_def)

text \<open>
  C17: However often the status is derived, with whatever observations, answers and orders,
  starting from a resource without a status the recorded state stays among the empty one,
  Creating, Running, Updating and Reconciling: it is never Stopping or Stopped, and the next
  derivation for an existing resource does not reach the explicit panic.
\<close>

theorem lifecycle_reachable:
  assumes "(status_step E)\<^sup>*\<^sup>* zero_status st"
  shows "stState st \<in> live_states \<and>
    (\<forall>observed w. obCR observed \<noteq> None \<longrightarrow>
       fst (run_state (deriveInvokerDeploymentStatus E st observed) w) \<noteq> Panicked)"
proof -
  have live: "stState st \<in> live_states"
    using assms by (induction rule: rtranclp_induct) (auto simp: zero_status_def live_states_def
      dest: status_step_live)
  then have "stState st \<in> known_states" by (simp add: known_states_def)
  with derive_known_state have "fst (run_state (deriveInvokerDeploymentStatus E st observed) w) \<noteq> Panicked"
    if "obCR observed \<noteq> None" for observed :: ObservedInvokerDeploymentState and w
    using that by blast
  with live show ?thesis by blast
qed

definition demo_status_observed :: ObservedInvokerDeploymentState where
  "demo_status_observed = zero_observed\<lparr>obCR := Some demo_cr,
     obStatefulEntities := group_pods [demo_pod ''sum'' ''sum-0'' ''Running''] fmempty\<rparr>"

definition demo_derive ::
  "InvokerDeploymentStatus \<Rightarrow> InvokerDeploymentStatus go \<times> store world" where
  "demo_derive st = run_state (deriveInvokerDeploymentStatus mem_env st demo_status_observed)
     (start_world demo_store)"

lemma demo_derive_steps:
  assumes "fst (demo_derive st) = Val st'"
  shows "status_step mem_env st st'"
proof (rule status_step.derive)
  show "run_state (deriveInvokerDeploymentStatus mem_env st demo_status_observed) (start_world demo_store) =
      (Val st', snd (demo_derive st))"
    using run_result [OF assms] unfolding demo_derive_def .
qed

definition demo_derived :: InvokerDeploymentStatus where
  "demo_derived = zero_status\<lparr>
     stConditions := [starting_condition\<lparr>cdLastTransitionTime := Some mem_now\<rparr>],
     stComponents := \<lparr>csConfigMap = [], csStatefulEntities = ComponentStateReady, csSecret = []\<rparr>,
     stState := StateRunning\<rparr>"

lemma demo_derive_zero: "fst (demo_derive zero_status) = Val demo_derived"
  by code_simp

theorem lifecycle_reachable_witness:
  "stState demo_derived \<in> live_states \<and>
    fst (run_state (deriveInvokerDeploymentStatus mem_env demo_derived demo_status_observed)
      (start_world demo_store)) \<noteq> Panicked"
proof -
  have "(status_step mem_env)\<^sup>*\<^sup>* zero_status demo_derived"
    using demo_derive_steps [OF demo_derive_zero] by blast
  from lifecycle_reachable [OF this] show ?thesis by (simp add: demo_status_observed_def)
qed

subsection \<open>What the components say\<close>

text \<open>
  C37: The derived state of the entities is Ready exactly when every observed pod is running,
  independently of the order of iteration; with no pods observed it is Ready, whatever the spec
  asks for.
\<close>

theorem entities_ready_iff:
  assumes "range_ok E" and "obStatefulEntities observed = group_pods pods fmempty"
    and "run_state (deriveInvokerDeploymentStatus E recorded observed) w = (Val st, w')"
  shows "csStatefulEntities (stComponents st) = ComponentStateReady \<longleftrightarrow>
    (\<forall>se n p. observed_pod (obStatefulEntities observed) se n = Some p \<longrightarrow> podPhase p = ''Running'')"
proof -
  let ?m = "obStatefulEntities observed"
  obtain cr where "obCR observed = Some cr" using derive_Val_state [OF assms(3)] by blast
  from derive_result [OF assms(1) this assms(3)]
  have "csStatefulEntities (stComponents st) = ComponentStateReady \<longleftrightarrow>
      \<not> running_entities ?m < fcard (fmdom ?m)"
    by (auto simp: derived_components_def component_state_defs split: option.splits)
  also have "\<dots> \<longleftrightarrow> (\<forall>k se. fmlookup ?m k = Some se \<longrightarrow> entity_running se)"
    unfolding running_entities_all by blast
  also have "\<dots> \<longleftrightarrow> (\<forall>k inner. fmlookup ?m k = Some (Some inner) \<longrightarrow> entity_running (Some inner))"
    using group_pods_no_nil [of pods] unfolding assms(2) by (metis not_Some_eq)
  also have "\<dots> \<longleftrightarrow> (\<forall>se n p. observed_pod ?m se n = Some p \<longrightarrow> podPhase p = ''Running'')"
    by (simp add: entity_running_def observed_pod_Some_iff fmlookup_ran'_iff Ball_def) blast
  finally show ?thesis .
qed

lemma demo_derive_eq:
  assumes "fst (demo_derive st) = Val st'"
  shows "run_state (deriveInvokerDeploymentStatus mem_env st demo_status_observed) (start_world demo_store) =
    (Val st', snd (demo_derive st))"
  using run_result [OF assms] unfolding demo_derive_def .

theorem entities_ready_iff_witness:
  "csStatefulEntities (stComponents demo_derived) = ComponentStateReady \<and>
    podPhase (demo_pod ''sum'' ''sum-0'' ''Running'') = ''Running''"
proof -
  have pods: "obStatefulEntities demo_status_observed = group_pods [demo_pod ''sum'' ''sum-0'' ''Running''] fmempty"
    by (simp add: demo_status_observed_def del: group_pods.simps)
  have ready: "csStatefulEntities (stComponents demo_derived) = ComponentStateReady"
    by (simp add: demo_derived_def)
  have "observed_pod (obStatefulEntities demo_status_observed) ''sum'' ''sum-0'' =
      Some (demo_pod ''sum'' ''sum-0'' ''Running'')"
    by code_simp
  with entities_ready_iff [OF range_ok_mem_env pods demo_derive_eq [OF demo_derive_zero]] ready
  show ?thesis by blast
qed

subsection \<open>Writing the status\<close>

definition status_frame :: "InvokerDeployment \<Rightarrow> api_call \<Rightarrow> bool" where
  "status_frame cr c \<longleftrightarrow> (\<exists>st. c = StatusUpdateCall (cr\<lparr>crStatus := st\<rparr>) \<and>
     stCurrentRevision st = stCurrentRevision (crStatus cr) \<and>
     stNextRevision st = stNextRevision (crStatus cr))"

lemma derived_status_frame:
  assumes "obCR observed = Some cr"
    and "run_state (deriveInvokerDeploymentStatus E recorded observed) w = (Val st, w')"
  shows "status_frame cr (StatusUpdateCall (cr\<lparr>crStatus := st\<lparr>stLastUpdateTime := t\<rparr>\<rparr>))"
  unfolding status_frame_def
  by (rule exI [of _ "st\<lparr>stLastUpdateTime := t\<rparr>"]) (use derive_Val_state [OF assms(2)] assms(1) in auto)

lemma emits_derive:
  "P IncUpgradeCounter \<Longrightarrow> emits P (deriveInvokerDeploymentStatus E recorded observed)"
  unfolding deriveInvokerDeploymentStatus_def Let_def
  by (intro emits_rules emits_count_running) simp_all

text \<open>
  C36: For every server, \<open>updateStatusIfChanged\<close> only counts an upgrade or writes the status of
  the observed resource: the written object has the observed metadata and spec, and the status
  keeps both revision names.
\<close>

theorem status_update_frame:
  "emits (\<lambda>c. c = IncUpgradeCounter \<or> (\<exists>cr. obCR observed = Some cr \<and> status_frame cr c))
     (updateStatusIfChanged E observed)"
proof (cases "obCR observed")
  case None
  then show ?thesis by (simp add: updateStatusIfChanged_def emits_rules)
next
  case (Some cr)
  then show ?thesis
    unfolding updateStatusIfChanged_def Let_def go_bind_def updateClusterStatus_def
    by (auto dest: derived_status_frame intro!: emits_bind_strong emits_leaf emits_derive)
qed

subsection \<open>The status settles\<close>

definition with_status ::
  "ObservedInvokerDeploymentState \<Rightarrow> InvokerDeploymentStatus \<Rightarrow> ObservedInvokerDeploymentState" where
  "with_status observed st =
     observed\<lparr>obCR := map_option (\<lambda>cr. cr\<lparr>crStatus := st\<rparr>) (obCR observed)\<rparr>"

lemma next_state_settles:
  assumes "next_state s u r t = Some (s1, b1)" and "next_state s1 u r t = Some (s2, b2)"
    and "next_state s2 u r t = Some (s3, b3)" and "s \<in> live_states"
  shows "s3 = s2"
  using assms by (auto simp: next_state_def live_states_def state_defs split: if_splits)

text \<open>
  What a derivation fixes besides the conditions: the state and the compared components are
  functions of the recorded status and the observation, and a second derivation from the result
  changes none of the components.
\<close>

lemma derive_settled:
  assumes "range_ok E" and "obCR observed = Some cr"
    and "run_state (deriveInvokerDeploymentStatus E recorded observed) w = (Val st, w')"
  shows "derived_state (stState recorded) cr observed = Some (stState st)"
    and "stComponents st = derived_components recorded observed"
    and "stConditions recorded \<noteq> [] \<Longrightarrow> stConditions st = stConditions recorded"
    and "(\<And>s. fst (sSetStatusCondition E [] starting_condition s) \<noteq> []) \<Longrightarrow> stConditions st \<noteq> []"
  using derive_result [OF assms] by (auto split: option.splits if_splits)

lemma derived_with_status:
  assumes "stCurrentRevision st = stCurrentRevision (crStatus cr)"
    and "stNextRevision st = stNextRevision (crStatus cr)"
  shows "derived_state s (cr\<lparr>crStatus := st\<rparr>) (with_status observed st) = derived_state s cr observed"
  using assms by (simp add: derived_state_def with_status_def)

lemma derived_components_with_status:
  "derived_components recorded (with_status observed st) = derived_components recorded observed"
  by (simp add: derived_components_def with_status_def)

lemma derived_state_next:
  assumes "derived_state s cr observed = Some s'"
  obtains b where "next_state s (cr_updating cr) (running_entities (obStatefulEntities observed))
    (length (spec_entities (crSpec cr))) = Some (s', b)"
  using assms by (auto simp: derived_state_def)

lemma derived_state_live:
  assumes "derived_state s cr observed = Some s'" and "s \<in> live_states"
  shows "s' \<in> live_states"
proof -
  from assms(1) obtain b where "next_state s (cr_updating cr) (running_entities (obStatefulEntities observed))
    (length (spec_entities (crSpec cr))) = Some (s', b)" by (rule derived_state_next)
  from next_state_live [OF this assms(2)] show ?thesis by (auto simp: live_states_def)
qed

lemma derived_state_exists:
  "s \<in> live_states \<Longrightarrow> \<exists>s'. derived_state s cr observed = Some s'"
proof -
  assume "s \<in> live_states"
  then have "s \<in> known_states" by (simp add: known_states_def)
  then have "next_state s u r t \<noteq> None" for u r t by (simp add: next_state_None_iff)
  then show ?thesis unfolding derived_state_def by blast
qed

lemma derived_state_settles:
  assumes "derived_state s cr observed = Some s1" and "derived_state s1 cr observed = Some s2"
    and "derived_state s2 cr observed = Some s3" and "s \<in> live_states"
  shows "s3 = s2"
proof -
  from assms(1) obtain b1 where 1: "next_state s (cr_updating cr)
    (running_entities (obStatefulEntities observed)) (length (spec_entities (crSpec cr))) = Some (s1, b1)"
    by (rule derived_state_next)
  from assms(2) obtain b2 where 2: "next_state s1 (cr_updating cr)
    (running_entities (obStatefulEntities observed)) (length (spec_entities (crSpec cr))) = Some (s2, b2)"
    by (rule derived_state_next)
  from assms(3) obtain b3 where 3: "next_state s2 (cr_updating cr)
    (running_entities (obStatefulEntities observed)) (length (spec_entities (crSpec cr))) = Some (s3, b3)"
    by (rule derived_state_next)
  from 1 2 3 assms(4) show ?thesis by (rule next_state_settles)
qed

lemma derived_components_settle:
  assumes "stComponents st = derived_components recorded observed"
  shows "csConfigMap (derived_components st observed) = csConfigMap (stComponents st)"
    and "csStatefulEntities (derived_components st observed) = csStatefulEntities (stComponents st)"
  by (simp_all add: assms derived_components_def component_state_defs)

lemma unchanged_status:
  assumes "range_ok E" and "obCR observed = Some cr" and "stConditions (crStatus cr) \<noteq> []"
    and "derived_state (stState (crStatus cr)) cr observed = Some (stState (crStatus cr))"
    and "csConfigMap (derived_components (crStatus cr) observed) = csConfigMap (stComponents (crStatus cr))"
    and "csStatefulEntities (derived_components (crStatus cr) observed) =
      csStatefulEntities (stComponents (crStatus cr))"
  shows "fst (run_state (updateStatusIfChanged E observed) w) = Val (False, None)"
proof -
  obtain r w' where run: "run_state (deriveInvokerDeploymentStatus E (crStatus cr) observed) w = (r, w')"
    by fastforce
  from derive_result [OF assms(1,2) run] assms(3-6) obtain st where "r = Val st"
    and "\<not> isStatusChanged ((crStatus cr)\<lparr>stLastUpdateTime := []\<rparr>) st"
    by (auto simp: isStatusChanged_def)
  with run show ?thesis
    by (simp add: updateStatusIfChanged_def assms(2) run_state_go_bind)
qed

text \<open>
  C15: The status gate opens: while the observation of the cluster does not change, a resource in
  a live state has its status written at most twice; once the two derived statuses are
  recorded, whatever the recorded update times, the updater reports no change and the
  controller goes on to act.
\<close>

theorem status_gate_opens:
  assumes "range_ok E" and "\<And>s. fst (sSetStatusCondition E [] starting_condition s) \<noteq> []"
    and "obCR observed = Some cr" and "stState (crStatus cr) \<in> live_states"
    and "run_state (deriveInvokerDeploymentStatus E (crStatus cr) observed) w = (Val st1, v)"
    and "st1' = st1\<lparr>stLastUpdateTime := t1\<rparr>"
    and "run_state (deriveInvokerDeploymentStatus E st1' (with_status observed st1')) w1 = (Val st2, v1)"
    and "st2' = st2\<lparr>stLastUpdateTime := t2\<rparr>"
  shows "fst (run_state (updateStatusIfChanged E (with_status observed st2')) w2) = Val (False, None)"
proof -
  let ?cr1 = "cr\<lparr>crStatus := st1'\<rparr>" and ?cr2 = "cr\<lparr>crStatus := st2'\<rparr>"
  have cr1: "obCR (with_status observed st1') = Some ?cr1"
    and cr2: "obCR (with_status observed st2') = Some ?cr2"
    by (simp_all add: with_status_def assms(3))
  have rev1: "stCurrentRevision st1' = stCurrentRevision (crStatus cr)" "stNextRevision st1' = stNextRevision (crStatus cr)"
    using derive_Val_state [OF assms(5)] assms(3,6) by auto
  have rev2: "stCurrentRevision st2' = stCurrentRevision (crStatus cr)" "stNextRevision st2' = stNextRevision (crStatus cr)"
    using derive_Val_state [OF assms(7)] cr1 rev1 assms(8) by auto
  note d1 = derive_settled [OF assms(1,3,5)]
  note d2 = derive_settled [OF assms(1) cr1 assms(7)]
  have s1: "derived_state (stState (crStatus cr)) cr observed = Some (stState st1')"
    using d1(1) assms(6) by simp
  have s2: "derived_state (stState st1') cr observed = Some (stState st2')"
    using d2(1) derived_with_status [OF rev1] assms(8) by simp
  from derived_state_live [OF s1 assms(4)] s2 have "stState st2' \<in> live_states"
    by (metis derived_state_live)
  then obtain s3 where s3: "derived_state (stState st2') cr observed = Some s3"
    using derived_state_exists by blast
  have c2: "stComponents st2' = derived_components st1' observed"
    using d2(2) assms(8) by (simp add: derived_components_with_status)
  have "stConditions st1' \<noteq> []" using d1(4) [OF assms(2)] assms(6) by simp
  then have "stConditions st2' \<noteq> []" using d2(3) assms(8) by simp
  then show ?thesis
    using derived_state_settles [OF s1 s2 s3 assms(4)] s3 derived_components_settle [OF c2]
    by (intro unchanged_status [OF assms(1) cr2])
      (simp_all add: derived_with_status [OF rev2] derived_components_with_status)
qed

definition demo_second ::
  "InvokerDeploymentStatus go \<times> store world" where
  "demo_second = run_state (deriveInvokerDeploymentStatus mem_env demo_derived
     (with_status demo_status_observed demo_derived)) (start_world demo_store)"

lemma demo_second_result: "fst demo_second = Val demo_derived"
  by code_simp

lemma demo_second_eq:
  "run_state (deriveInvokerDeploymentStatus mem_env demo_derived
     (with_status demo_status_observed demo_derived)) (start_world demo_store) =
     (Val demo_derived, snd demo_second)"
  using run_result [OF demo_second_result] unfolding demo_second_def .

lemma mem_env_condition:
  "fst (sSetStatusCondition mem_env [] starting_condition s) \<noteq> []"
  by (simp add: mem_env_def)

theorem status_gate_opens_witness:
  "fst (run_state (updateStatusIfChanged mem_env (with_status demo_status_observed demo_derived))
     (start_world demo_store)) = Val (False, None)"
proof (rule status_gate_opens [OF range_ok_mem_env mem_env_condition])
  show "obCR demo_status_observed = Some demo_cr" by (simp add: demo_status_observed_def)
  show "stState (crStatus demo_cr) \<in> live_states" by (simp add: demo_cr_def zero_status_def live_states_def)
  have "crStatus demo_cr = zero_status" by (simp add: demo_cr_def)
  with demo_derive_eq [OF demo_derive_zero]
  show "run_state (deriveInvokerDeploymentStatus mem_env (crStatus demo_cr) demo_status_observed)
      (start_world demo_store) = (Val demo_derived, snd (demo_derive zero_status))" by simp
  show "demo_derived = demo_derived\<lparr>stLastUpdateTime := []\<rparr>"
    by (simp add: demo_derived_def zero_status_def)
  then show "demo_derived = demo_derived\<lparr>stLastUpdateTime := []\<rparr>" .
qed (rule demo_second_eq)

text \<open>
  The upgrade counter: a derivation that returns counts one upgrade exactly when the
  recorded state is Running, Reconciling or Updating and the two revisions differ, and makes no
  other request; so every reconciliation during one and the same upgrade counts again.
\<close>

theorem upgrade_counted:
  assumes "obCR observed = Some cr"
    and "run_state (deriveInvokerDeploymentStatus E recorded observed) w = (Val st, w')"
  shows "wTrace w' = wTrace w @
    (if cr_updating cr \<and> stState recorded \<in> {StateRunning, StateReconciling, StateUpdating}
     then [IncUpgradeCounter] else [])"
proof -
  obtain cs v where cs: "run_state (if stConditions recorded = []
        then outside (sSetStatusCondition E [] starting_condition)
        else ret (stConditions recorded)) w = (cs, v)" by fastforce
  obtain ses v1 where ses: "run_state (range_values E (obStatefulEntities observed)) v = (ses, v1)"
    by fastforce
  obtain n v2 where n: "run_state (count_running E ses 0) v1 = (n, v2)" by fastforce
  have "wTrace v = wTrace w" using cs by (auto split: if_splits)
  moreover have "wTrace v2 = wTrace v1" by (rule emits_silent [OF emits_count_running n])
  moreover have "wTrace v1 = wTrace v" by (rule range_trace(1) [OF ses])
  moreover obtain s' upgraded where step:
    "next_state (stState recorded) (cr_updating cr) n (length (spec_entities (crSpec cr))) = Some (s', upgraded)"
    using assms(2) cs ses n
    by (auto simp: deriveInvokerDeploymentStatus_def assms(1) Let_def split: option.splits)
  moreover have "wTrace w' = wTrace v2 @ (if upgraded then [IncUpgradeCounter] else [])"
    using assms(2) cs ses n step
    by (auto simp: deriveInvokerDeploymentStatus_def assms(1) Let_def)
  ultimately show ?thesis
    using next_state_upgraded [OF step] by simp
qed

definition demo_upgrade_cr :: InvokerDeployment where
  "demo_upgrade_cr = demo_cr\<lparr>crStatus := demo_derived\<lparr>stCurrentRevision := ''rev-1'', stNextRevision := ''rev-2''\<rparr>\<rparr>"

definition demo_upgrade :: "InvokerDeploymentStatus go \<times> store world" where
  "demo_upgrade = run_state (deriveInvokerDeploymentStatus mem_env demo_derived
     (demo_status_observed\<lparr>obCR := Some demo_upgrade_cr\<rparr>)) (start_world demo_store)"

lemma demo_upgrade_result:
  "fst demo_upgrade = Val (demo_derived\<lparr>stState := StateUpdating, stCurrentRevision := ''rev-1'',
     stNextRevision := ''rev-2''\<rparr>)"
  by code_simp

lemma demo_upgrade_eq:
  "run_state (deriveInvokerDeploymentStatus mem_env demo_derived
     (demo_status_observed\<lparr>obCR := Some demo_upgrade_cr\<rparr>)) (start_world demo_store) =
     (Val (demo_derived\<lparr>stState := StateUpdating, stCurrentRevision := ''rev-1'',
        stNextRevision := ''rev-2''\<rparr>), snd demo_upgrade)"
  using run_result [OF demo_upgrade_result] unfolding demo_upgrade_def .

theorem upgrade_counted_witness: "wTrace (snd demo_upgrade) = [IncUpgradeCounter]"
proof -
  have "obCR (demo_status_observed\<lparr>obCR := Some demo_upgrade_cr\<rparr>) = Some demo_upgrade_cr" by simp
  from upgrade_counted [OF this demo_upgrade_eq] show ?thesis
    by (simp add: start_world_def demo_upgrade_cr_def demo_derived_def)
qed

subsection \<open>\<open>updateCondition\<close>\<close>

text \<open>
  \<open>updateCondition\<close> (which no code calls) loses the recorded status: the status it writes has
  one fresh list of conditions and is otherwise empty, no state, no revisions, and the observed
  status is cleared too.
\<close>

theorem updateCondition_clears:
  assumes "obCR observed = Some cr"
    and "run_state (updateCondition E observed condition) w = (Val (err, observed'), w')"
  shows "(\<exists>conditions. wTrace w' =
      wTrace w @ [StatusUpdateCall (cr\<lparr>crStatus := zero_status\<lparr>stConditions := conditions\<rparr>\<rparr>)]) \<and>
    obCR observed' = Some (cr\<lparr>crStatus := zero_status\<rparr>)"
  using assms(2) by (auto simp: updateCondition_def assms(1) updateClusterStatus_def client_defs Let_def)

definition demo_condition :: "(go_error option \<times> ObservedInvokerDeploymentState) go \<times> store world" where
  "demo_condition = run_state (updateCondition mem_env
     (demo_status_observed\<lparr>obCR := Some demo_upgrade_cr\<rparr>) starting_condition) (start_world demo_store)"

lemma demo_condition_result:
  "fst demo_condition = Val (None, demo_status_observed\<lparr>obCR := Some (demo_upgrade_cr\<lparr>crStatus := zero_status\<rparr>)\<rparr>)"
  by code_simp

theorem updateCondition_clears_witness:
  "\<exists>conditions. wTrace (snd demo_condition) =
     [StatusUpdateCall (demo_upgrade_cr\<lparr>crStatus := zero_status\<lparr>stConditions := conditions\<rparr>\<rparr>)]"
proof -
  have cr: "obCR (demo_status_observed\<lparr>obCR := Some demo_upgrade_cr\<rparr>) = Some demo_upgrade_cr" by simp
  have "run_state (updateCondition mem_env (demo_status_observed\<lparr>obCR := Some demo_upgrade_cr\<rparr>)
      starting_condition) (start_world demo_store) = (Val (None, demo_status_observed\<lparr>obCR :=
        Some (demo_upgrade_cr\<lparr>crStatus := zero_status\<rparr>)\<rparr>), snd demo_condition)"
    using run_result [OF demo_condition_result] unfolding demo_condition_def .
  from updateCondition_clears [OF cr this] show ?thesis by (simp add: start_world_def)
qed

end
