(* ===== verification/Revision_Properties.thy ===== *)
theory Revision_Properties
  imports Reconcile_Plan Mem_Server "HOL-Library.Multiset"
begin

section \<open>Properties of the revisions\<close>

text \<open>
  A revision is a recorded spec under a name made from its hash.  The interface a revision
  store offers the updater is a locale, interpreted on the in-memory server.
\<close>

lemma for_each_deletes:
  "run_state (for_each (\<lambda>r. client_delete E (f r)) xs) w = (None, w') \<Longrightarrow>
     wTrace w' = wTrace w @ map (\<lambda>r. DeleteCall (f r)) xs"
proof (induction xs arbitrary: w)
  case Nil
  then show ?case by simp
next
  case (Cons x xs)
  from Cons.prems obtain v where v: "run_state (client_delete E (f x)) w = (None, v)"
    and rest: "run_state (for_each (\<lambda>r. client_delete E (f r)) xs) v = (None, w')"
    by (auto split: prod.splits option.splits)
  from v have "wTrace v = wTrace w @ [DeleteCall (f x)]" by (auto simp: client_defs)
  with Cons.IH [OF rest] show ?case by simp
qed

subsection \<open>Names\<close>

text \<open>
  A revision name is the resource name, \<open>-rev-\<close> and eight lower-case hexadecimal digits; so
  the slice of the hash never goes out of range.
\<close>

theorem revision_name_format:
  "\<exists>h. generateRevisionName n bs = n @ ''-rev-'' @ h \<and> length h = 8 \<and> set h \<subseteq> set hex_alphabet"
  by (rule generateRevisionName_parts [of n bs]) blast

text \<open>
  C40: The text of a revision identifies the spec up to nil against empty: two specs with canonical
  quantities and well-formed strings have the same JSON text, and so the same revision name,
  exactly when they have the same normal form.
\<close>

theorem revision_text_iff:
  assumes "canonical_spec qjson qparse sp" and "canonical_spec qjson qparse sp'"
  shows "marshalSpec qjson sp = marshalSpec qjson sp' \<longleftrightarrow> norm_spec sp = norm_spec sp'"
proof
  assume same: "marshalSpec qjson sp = marshalSpec qjson sp'"
  obtain bs where bs: "marshalSpec qjson sp = Inr bs" using marshalSpec_print [OF assms(1)] by blast
  have "unmarshal_spec qparse Inl bs = Inr (Some (norm_spec sp))" for Inl
    by (rule unmarshal_marshal [OF assms(1) bs])
  with unmarshal_marshal [OF assms(2), of bs] show "norm_spec sp = norm_spec sp'"
    using same bs by simp
next
  assume "norm_spec sp = norm_spec sp'"
  then show "marshalSpec qjson sp = marshalSpec qjson sp'" by (metis marshalSpec_norm)
qed

lemma canonical_demo_spec: "canonical_spec quantity_json quantity_parse demo_spec"
  by (simp add: canonical_defs demo_spec_def demo_entity_def utf8_option_def canonical_list_def
      zero_resources_def valid_ascii)

definition empty_entities_spec :: InvokerDeploymentSpec where
  "empty_entities_spec = demo_spec\<lparr>idStatefulEntities := Some []\<rparr>"

definition nil_entities_spec :: InvokerDeploymentSpec where
  "nil_entities_spec = demo_spec\<lparr>idStatefulEntities := None\<rparr>"

lemma canonical_empty_spec:
  "canonical_spec quantity_json quantity_parse empty_entities_spec"
  "canonical_spec quantity_json quantity_parse nil_entities_spec"
  using canonical_demo_spec by (simp_all add: canonical_spec_def empty_entities_spec_def nil_entities_spec_def)

theorem revision_text_iff_witness:
  "empty_entities_spec \<noteq> nil_entities_spec \<and>
   marshalSpec quantity_json empty_entities_spec = marshalSpec quantity_json nil_entities_spec \<and>
   marshalSpec quantity_json empty_entities_spec \<noteq> marshalSpec quantity_json demo_spec"
proof -
  have "norm_spec empty_entities_spec = norm_spec nil_entities_spec"
    and "norm_spec empty_entities_spec \<noteq> norm_spec demo_spec"
    by (simp_all add: empty_entities_spec_def nil_entities_spec_def norm_spec_def norm_slice_def demo_spec_def)
  moreover have "empty_entities_spec \<noteq> nil_entities_spec"
    by (simp add: empty_entities_spec_def nil_entities_spec_def demo_spec_def)
  ultimately show ?thesis
    using revision_text_iff [OF canonical_empty_spec] revision_text_iff [OF canonical_empty_spec(1) canonical_demo_spec]
    by blast
qed

subsection \<open>Reading a revision\<close>

text \<open>
  C8: A recorded spec reads back: \<open>json.Unmarshal\<close> of what \<open>json.Marshal\<close> wrote gives the
  normal form of the spec, in which nil stands for every empty slice and resource list, for all
  specs with canonical quantities and well-formed strings.
\<close>

theorem spec_roundtrip:
  assumes "canonical_spec (eQuantityJSON E) (eQuantityParse E) sp"
    and "marshalSpec (eQuantityJSON E) sp = Inr bs"
  shows "UnmarshalSpec E bs = Inr (Some (norm_spec sp))"
  unfolding UnmarshalSpec_def by (rule unmarshal_marshal [OF assms])

definition limited_spec :: InvokerDeploymentSpec where
  "limited_spec = demo_spec\<lparr>idStatefulEntities := Some [demo_entity\<lparr>sePods := Some
     [\<lparr>pcName = Some ''a<b'', pcPartitions = Some [],
       pcResources = \<lparr>rrLimits = Some (fmupd ''memory'' (Quantity ''1Gi'') (fmupd ''cpu'' (Quantity ''500m'') fmempty)),
         rrRequests = Some fmempty, rrClaims = None\<rparr>\<rparr>]\<rparr>]\<rparr>"

lemma canonical_limited_spec: "canonical_spec quantity_json quantity_parse limited_spec"
  by (simp add: canonical_defs limited_spec_def demo_spec_def demo_entity_def utf8_option_def
      canonical_list_def fmpred_iff canonical_mem_quantity valid_ascii)
    (auto simp: valid_ascii)

lemma mem_env_quantities: "eQuantityJSON mem_env = quantity_json" "eQuantityParse mem_env = quantity_parse"
  by (simp_all add: mem_env_def)

theorem spec_roundtrip_witness:
  "UnmarshalSpec mem_env (projr (marshalSpec quantity_json limited_spec)) = Inr (Some (norm_spec limited_spec))"
proof -
  obtain bs where bs: "marshalSpec quantity_json limited_spec = Inr bs"
    using marshalSpec_print [OF canonical_limited_spec] by blast
  from spec_roundtrip [of mem_env limited_spec bs] canonical_limited_spec bs show ?thesis
    by (simp add: mem_env_quantities)
qed

subsection \<open>Recording a revision\<close>

abbreviation revision_name :: "InvokerDeployment \<Rightarrow> string \<Rightarrow> string" where
  "revision_name cr bs \<equiv> generateRevisionName (omName (crMeta cr)) bs"

definition set_next :: "InvokerDeployment \<Rightarrow> string \<Rightarrow> InvokerDeployment" where
  "set_next cr name = cr\<lparr>crStatus := (crStatus cr)\<lparr>stNextRevision := name\<rparr>\<rparr>"

text \<open>
  C33: Recording a revision whose spec can be serialised: \<open>NextRevision\<close> becomes the name; the
  name is looked up; if it is missing the revision is created, if it is there it is updated,
  and on any other answer nothing is written and the error is returned.
\<close>

theorem record_revision_calls:
  assumes "marshalSpec (eQuantityJSON E) (crSpec cr) = Inr bs"
    and "run_state (createControllerRevision E cr n) w = ((err, cr'), w')"
  shows "cr' = set_next cr (revision_name cr bs) \<and>
    wTrace w' = wTrace w @ GetRevision (omNamespace (crMeta cr)) (revision_name cr bs) #
      (case fst (sGetRevision E (omNamespace (crMeta cr)) (revision_name cr bs) (wServer w)) of
         Inr _ \<Rightarrow> [UpdateCall (ObjRevision (new_revision E cr' bs n))]
       | Inl e \<Rightarrow> if IsNotFound e then [CreateCall (ObjRevision (new_revision E cr' bs n))] else []) \<and>
    (\<forall>e. fst (sGetRevision E (omNamespace (crMeta cr)) (revision_name cr bs) (wServer w)) = Inl e \<longrightarrow>
       \<not> IsNotFound e \<longrightarrow> err = Some e)"
  using assms(2)
  by (auto simp: createControllerRevision_def assms(1) Let_def set_next_def client_defs
      split: sum.splits if_splits)

text \<open>A run on the in-memory server, where the demo resource has no revision yet.\<close>

definition demo_text :: string where
  "demo_text = projr (marshalSpec quantity_json demo_spec)"

lemma demo_marshal: "marshalSpec quantity_json demo_spec = Inr demo_text"
proof -
  have "\<not> isl (marshalSpec quantity_json demo_spec)" by code_simp
  then show ?thesis by (simp add: demo_text_def)
qed

definition demo_rev :: string where
  "demo_rev = generateRevisionName ''sample'' demo_text"

lemma demo_marshal_env: "marshalSpec (eQuantityJSON mem_env) (crSpec demo_cr) = Inr demo_text"
  by (simp add: mem_env_quantities demo_marshal) (simp add: demo_cr_def demo_marshal)

lemma demo_no_revision: "fst (sGetRevision mem_env ns name demo_store) = Inl (NotFoundError name)"
  by (simp add: mem_env_def mem_defs demo_store_def)

lemma demo_record:
  "run_state (createControllerRevision mem_env demo_cr 1) (start_world demo_store) =
     ((None, set_next demo_cr demo_rev),
      \<lparr>wTrace = [GetRevision ''test'' demo_rev,
         CreateCall (ObjRevision (new_revision mem_env (set_next demo_cr demo_rev) demo_text 1))],
       wServer = fmupd (''ControllerRevision'', ''test'', demo_rev)
         (ObjRevision (new_revision mem_env (set_next demo_cr demo_rev) demo_text 1)) demo_store\<rparr>)"
proof -
  have meta: "omName (crMeta demo_cr) = ''sample''" "omNamespace (crMeta demo_cr) = ''test''"
    by (simp_all add: demo_cr_def demo_meta_def zero_meta_def)
  have get: "sGetRevision mem_env ''test'' demo_rev demo_store = (Inl (NotFoundError demo_rev), demo_store)"
    by (simp add: mem_env_def mem_defs demo_store_def)
  have create: "sCreate mem_env (ObjRevision (new_revision mem_env c demo_text 1)) demo_store =
      (None, fmupd (''ControllerRevision'', ''test'', demo_rev)
        (ObjRevision (new_revision mem_env c demo_text 1)) demo_store)"
    if "crMeta c = crMeta demo_cr" for c
    using that
    by (simp add: mem_env_def mem_create_def object_key_def new_revision_def demo_store_def
        meta demo_rev_def)
  show ?thesis
    by (simp add: createControllerRevision_def demo_marshal_env meta Let_def set_next_def get
        client_create_def start_world_def create flip: demo_rev_def)
qed

theorem record_revision_calls_witness:
  "marshalSpec (eQuantityJSON mem_env) (crSpec demo_cr) = Inr demo_text \<and>
   wTrace (snd (run_state (createControllerRevision mem_env demo_cr 1) (start_world demo_store))) =
     [GetRevision ''test'' demo_rev,
      CreateCall (ObjRevision (new_revision mem_env (set_next demo_cr demo_rev) demo_text 1))]"
proof -
  have meta: "omName (crMeta demo_cr) = ''sample''" "omNamespace (crMeta demo_cr) = ''test''"
    by (simp_all add: demo_cr_def demo_meta_def zero_meta_def)
  from record_revision_calls [OF demo_marshal_env demo_record] show ?thesis
    by (simp only: demo_record) (simp add: demo_marshal_env demo_no_revision meta start_world_def
        flip: demo_rev_def)
qed

subsection \<open>The store of the revisions as an interface\<close>

text \<open>
  What the updater relies on: a revision written without error is what the next \<open>Get\<close> of its
  name returns, up to the metadata the server adds.
\<close>

locale revision_store =
  fixes E :: "'s env"
  assumes get_after_create: "sCreate E (ObjRevision rv) s = (None, s') \<Longrightarrow>
      omDeletionTimestamp (rvMeta rv) = None \<Longrightarrow>
      \<exists>got. fst (sGetRevision E (omNamespace (rvMeta rv)) (omName (rvMeta rv)) s') = Inr got \<and>
        rvDataRaw got = rvDataRaw rv \<and> rvRevision got = rvRevision rv"
    and get_after_update: "sUpdate E (ObjRevision rv) s = (None, s') \<Longrightarrow>
      omDeletionTimestamp (rvMeta rv) = None \<Longrightarrow>
      \<exists>got. fst (sGetRevision E (omNamespace (rvMeta rv)) (omName (rvMeta rv)) s') = Inr got \<and>
        rvDataRaw got = rvDataRaw rv \<and> rvRevision got = rvRevision rv"
begin

text \<open>A recorded revision can be looked up under the new \<open>NextRevision\<close>.\<close>

lemma recorded_revision_found:
  assumes "marshalSpec (eQuantityJSON E) (crSpec cr) = Inr bs"
    and "run_state (createControllerRevision E cr n) w = ((None, cr'), w')"
  obtains got where "cr' = set_next cr (revision_name cr bs)"
    and "fst (sGetRevision E (omNamespace (crMeta cr)) (revision_name cr bs) (wServer w')) = Inr got"
    and "rvDataRaw got = bs" and "rvRevision got = n"
proof -
  let ?cr = "set_next cr (revision_name cr bs)"
  let ?rv = "new_revision E ?cr bs n"
  have rv: "omNamespace (rvMeta ?rv) = omNamespace (crMeta cr)" "omName (rvMeta ?rv) = revision_name cr bs"
    "rvDataRaw ?rv = bs" "rvRevision ?rv = n" "omDeletionTimestamp (rvMeta ?rv) = None"
    by (simp_all add: new_revision_def set_next_def zero_meta_def)
  obtain s where "sCreate E (ObjRevision ?rv) s = (None, wServer w') \<or>
      sUpdate E (ObjRevision ?rv) s = (None, wServer w')" and "cr' = ?cr"
    using assms(2)
    by (fastforce simp: createControllerRevision_def assms(1) Let_def client_defs set_next_def
        split: sum.splits if_splits intro: prod_eqI)
  with get_after_create [of ?rv s "wServer w'"] get_after_update [of ?rv s "wServer w'"]
  show thesis unfolding rv by (metis that)
qed

lemma synced_again:
  assumes "marshalSpec (eQuantityJSON E) (crSpec cr) = Inr bs"
    and "run_state (createControllerRevision E cr n) w = ((None, cr'), w')"
    and "UnmarshalSpec E bs = Inr (Some (crSpec cr))"
    and "run_state (syncRevisions E (Some (promote cr'))) w' = (r, w'')"
  shows "r = Val (None, Some (promote cr')) \<and>
    wTrace w'' = wTrace w' @ [GetRevision (omNamespace (crMeta cr)) (revision_name cr bs)]"
proof -
  from recorded_revision_found [OF assms(1,2)] obtain got where
    cr': "cr' = set_next cr (revision_name cr bs)" and
    got: "fst (sGetRevision E (omNamespace (crMeta cr)) (revision_name cr bs) (wServer w')) = Inr got"
      "rvDataRaw got = bs" .
  have "stCurrentRevision (crStatus (promote cr')) = revision_name cr bs"
    and "crMeta (promote cr') = crMeta cr" and "crSpec (promote cr') = crSpec cr"
    by (simp_all add: cr' set_next_def promote_def)
  with assms(4) got assms(3) show ?thesis
    by (auto simp: syncRevisions_def Let_def)
qed

end

text \<open>The in-memory server is such a store.\<close>

lemma keep_status_revision [simp]: "keep_status old (ObjRevision rv) = ObjRevision rv"
  by (cases old) (simp_all add: keep_status_def)

interpretation mem_revisions: revision_store mem_env 
  by unfold_locales
    (auto simp: mem_env_def mem_get_def mem_create_def mem_update_def object_key_def
      split: if_splits option.splits)

text \<open>
  C20: Recording settles: on a server that keeps what is written, for a spec in normal form with
  canonical quantities and well-formed strings, once a revision was recorded without error and
  promoted, the next synchronisation of the unchanged resource looks the revision up and does
  nothing else.
\<close>

theorem sync_settles:
  assumes "revision_store E" and "canonical_spec (eQuantityJSON E) (eQuantityParse E) (crSpec cr)"
    and "norm_spec (crSpec cr) = crSpec cr"
    and "marshalSpec (eQuantityJSON E) (crSpec cr) = Inr bs"
    and "run_state (createControllerRevision E cr n) w = ((None, cr'), w')"
    and "run_state (syncRevisions E (Some (promote cr'))) w' = (r, w'')"
  shows "r = Val (None, Some (promote cr')) \<and>
    wTrace w'' = wTrace w' @ [GetRevision (omNamespace (crMeta cr)) (revision_name cr bs)]"
proof (rule revision_store.synced_again [OF assms(1,4,5) _ assms(6)])
  show "UnmarshalSpec E bs = Inr (Some (crSpec cr))"
    using unmarshal_marshal [OF assms(2,4)] by (simp add: UnmarshalSpec_def assms(3))
qed

lemma normal_demo_spec: "norm_spec demo_spec = demo_spec"
  by (simp add: norm_spec_def demo_spec_def norm_slice_def norm_entity_def demo_entity_def
      norm_pod_config_def norm_resources_def norm_map_def zero_resources_def)

theorem sync_settles_witness:
  "fst (run_state (syncRevisions mem_env (Some (promote (set_next demo_cr demo_rev))))
     (snd (run_state (createControllerRevision mem_env demo_cr 1) (start_world demo_store)))) =
   Val (None, Some (promote (set_next demo_cr demo_rev)))"
proof -
  let ?w = "snd (run_state (createControllerRevision mem_env demo_cr 1) (start_world demo_store))"
  have spec: "crSpec demo_cr = demo_spec" by (simp add: demo_cr_def)
  obtain r v where run: "run_state (syncRevisions mem_env (Some (promote (set_next demo_cr demo_rev)))) ?w = (r, v)"
    by fastforce
  have "run_state (createControllerRevision mem_env demo_cr 1) (start_world demo_store) =
      ((None, set_next demo_cr demo_rev), ?w)" by (simp add: demo_record)
  with sync_settles [OF mem_revisions.revision_store_axioms _ _ demo_marshal_env _ run] run
  show ?thesis by (simp add: spec mem_env_quantities canonical_demo_spec normal_demo_spec)
qed

text \<open>
  C34: Explicitly empty slices never settle: for a spec that is not in normal form the recorded
  text reads back as a different spec, so each synchronisation of the unchanged resource writes
  the same revision again with its number increased by one.
\<close>

theorem empty_slices_bump_revision:
  assumes "canonical_spec (eQuantityJSON E) (eQuantityParse E) (crSpec cr)"
    and "marshalSpec (eQuantityJSON E) (crSpec cr) = Inr bs"
    and "crSpec cr \<noteq> norm_spec (crSpec cr)"
    and "stCurrentRevision (crStatus cr) = revision_name cr bs"
    and "sGetRevision E (omNamespace (crMeta cr)) (revision_name cr bs) (wServer w) = (Inr current, wServer w)"
    and "rvDataRaw current = bs"
    and "run_state (syncRevisions E (Some cr)) w = (r, w')"
  shows "wTrace w' = wTrace w @
    [GetRevision (omNamespace (crMeta cr)) (revision_name cr bs),
     GetRevision (omNamespace (crMeta cr)) (revision_name cr bs),
     UpdateCall (ObjRevision (new_revision E (set_next cr (revision_name cr bs)) bs (rvRevision current + 1)))]"
proof -
  have "UnmarshalSpec E bs = Inr (Some (norm_spec (crSpec cr)))"
    using unmarshal_marshal [OF assms(1,2)] by (simp add: UnmarshalSpec_def)
  with assms(7,3) show ?thesis
    by (auto simp: syncRevisions_def createControllerRevision_def assms(2,4,5,6) Let_def client_defs
        set_next_def split: prod.splits)
qed

definition empty_cr :: "string \<Rightarrow> InvokerDeployment" where
  "empty_cr name = demo_cr\<lparr>crSpec := empty_entities_spec, crStatus := zero_status\<lparr>stCurrentRevision := name\<rparr>\<rparr>"

definition empty_text :: string where
  "empty_text = projr (marshalSpec quantity_json empty_entities_spec)"

lemma empty_marshal: "marshalSpec quantity_json empty_entities_spec = Inr empty_text"
proof -
  have "\<not> isl (marshalSpec quantity_json empty_entities_spec)" by code_simp
  then show ?thesis by (simp add: empty_text_def)
qed

definition empty_rev :: string where
  "empty_rev = generateRevisionName ''sample'' empty_text"

definition empty_revision :: ControllerRevision where
  "empty_revision = \<lparr>rvMeta = demo_meta empty_rev, rvDataRaw = empty_text, rvRevision = 4\<rparr>"

definition empty_world :: "store world" where
  "empty_world = start_world (fmupd (''ControllerRevision'', ''test'', empty_rev) (ObjRevision empty_revision) demo_store)"

theorem empty_slices_bump_revision_witness:
  "rvRevision (case last (wTrace (snd (run_state (syncRevisions
     mem_env (Some (empty_cr empty_rev))) empty_world)))
     of UpdateCall (ObjRevision rv) \<Rightarrow> rv | _ \<Rightarrow> empty_revision) = 5"
proof -
  let ?E = "mem_env" and ?cr = "empty_cr empty_rev"
  have cr: "crSpec ?cr = empty_entities_spec" "omName (crMeta ?cr) = ''sample''"
    "omNamespace (crMeta ?cr) = ''test''" "stCurrentRevision (crStatus ?cr) = empty_rev"
    by (simp_all add: empty_cr_def demo_cr_def demo_meta_def zero_meta_def)
  have 1: "marshalSpec (eQuantityJSON ?E) (crSpec ?cr) = Inr empty_text"
    by (simp add: cr mem_env_quantities empty_marshal)
  have 2: "crSpec ?cr \<noteq> norm_spec (crSpec ?cr)"
    by (simp add: cr norm_spec_def empty_entities_spec_def norm_slice_def demo_spec_def)
  have 3: "canonical_spec (eQuantityJSON ?E) (eQuantityParse ?E) (crSpec ?cr)"
    by (simp add: cr mem_env_quantities canonical_empty_spec)
  have 4: "stCurrentRevision (crStatus ?cr) = revision_name ?cr empty_text"
    by (simp add: cr) (simp add: empty_rev_def)
  have 5: "sGetRevision ?E (omNamespace (crMeta ?cr)) (revision_name ?cr empty_text) (wServer empty_world) =
      (Inr empty_revision, wServer empty_world)"
    by (simp add: cr mem_env_def mem_get_def empty_world_def start_world_def flip: empty_rev_def)
  have 6: "rvDataRaw empty_revision = empty_text" by (simp add: empty_revision_def)
  obtain r v where 7: "run_state (syncRevisions ?E (Some ?cr)) empty_world = (r, v)" by fastforce
  from empty_slices_bump_revision [OF 3 1 2 4 5 6 7] 7 show ?thesis
    by (simp add: new_revision_def empty_revision_def)
qed

subsection \<open>Old revisions\<close>

text \<open>
  C28: A cleanup without error keeps the newest revisions, as many as the history limit says: the
  observed revisions split into the deleted and the kept ones, exactly the deleted ones are
  requested to be deleted, the kept ones are as many as the limit, and no deleted one has a
  higher number than a kept one.  The sorting function may order equal numbers as it likes.
\<close>

theorem cleanup_keeps_newest:
  assumes "obCR observed = Some cr" and "idHistoryLimit (crSpec cr) = Some limit"
    and "0 \<le> sint limit" and "sint limit < int (length (obRevisions observed))"
    and "mset (eSortByRevision E (obRevisions observed)) = mset (obRevisions observed)"
    and "sorted (map (\<lambda>r. sint (rvRevision r)) (eSortByRevision E (obRevisions observed)))"
    and "run_state (cleanupOldRevisions E observed) w = (Val None, w')"
  shows "\<exists>deleted kept. mset (obRevisions observed) = mset deleted + mset kept \<and>
    wTrace w' = wTrace w @ map (\<lambda>r. DeleteCall (ObjRevision r)) deleted \<and>
    int (length kept) = sint limit \<and>
    (\<forall>d \<in> set deleted. \<forall>k \<in> set kept. sint (rvRevision d) \<le> sint (rvRevision k))"
proof -
  let ?rs = "obRevisions observed" and ?sorted = "eSortByRevision E (obRevisions observed)"
  let ?n = "nat (int (length ?rs) - sint limit)"
  have len: "length ?sorted = length ?rs" using assms(5) by (metis size_mset)
  have "run_state (for_each (\<lambda>r. client_delete E (ObjRevision r)) (take ?n ?sorted)) w = (None, w')"
    using assms(3,4,7) by (auto simp: cleanupOldRevisions_def assms(1,2) Let_def split: prod.splits)
  then have "wTrace w' = wTrace w @ map (\<lambda>r. DeleteCall (ObjRevision r)) (take ?n ?sorted)"
    by (rule for_each_deletes)
  moreover have "mset ?rs = mset (take ?n ?sorted) + mset (drop ?n ?sorted)"
    by (metis append_take_drop_id assms(5) mset_append)
  moreover have "int (length (drop ?n ?sorted)) = sint limit"
    using assms(3,4) by (simp add: len)
  moreover have "\<forall>d \<in> set (take ?n ?sorted). \<forall>k \<in> set (drop ?n ?sorted). sint (rvRevision d) \<le> sint (rvRevision k)"
    using assms(6) sorted_append [of "map (\<lambda>r. sint (rvRevision r)) (take ?n ?sorted)"
        "map (\<lambda>r. sint (rvRevision r)) (drop ?n ?sorted)"]
    by (simp flip: map_append)
  ultimately show ?thesis by blast
qed

definition demo_revision :: "string \<Rightarrow> 64 word \<Rightarrow> ControllerRevision" where
  "demo_revision name n = \<lparr>rvMeta = demo_meta name, rvDataRaw = [], rvRevision = n\<rparr>"

definition demo_revisions :: "ControllerRevision list" where
  "demo_revisions = [demo_revision ''e'' 5, demo_revision ''a'' 1, demo_revision ''d'' 4,
     demo_revision ''b'' 2, demo_revision ''c'' 3]"

definition demo_history :: ObservedInvokerDeploymentState where
  "demo_history = zero_observed\<lparr>obCR := Some demo_cr, obRevisions := demo_revisions\<rparr>"

definition demo_history_store :: store where
  "demo_history_store = fold (\<lambda>r. fmupd (object_key (ObjRevision r)) (ObjRevision r)) demo_revisions fmempty"

definition demo_cleanup :: "go_error option go \<times> store world" where
  "demo_cleanup = run_state (cleanupOldRevisions mem_env demo_history) (start_world demo_history_store)"

lemma demo_cleanup_result: "fst demo_cleanup = Val None"
  by code_simp

theorem cleanup_keeps_newest_witness:
  "\<exists>deleted kept. mset demo_revisions = mset deleted + mset kept \<and>
    wTrace (snd demo_cleanup) = map (\<lambda>r. DeleteCall (ObjRevision r)) deleted \<and>
    int (length kept) = 3"
proof -
  have cr: "obCR demo_history = Some demo_cr" and revs: "obRevisions demo_history = demo_revisions"
    by (simp_all add: demo_history_def)
  have limit: "idHistoryLimit (crSpec demo_cr) = Some 3" by (simp add: demo_cr_def demo_spec_def)
  have sort: "eSortByRevision mem_env = sort_key (\<lambda>r. sint (rvRevision r))" by (simp add: mem_env_def)
  have run: "run_state (cleanupOldRevisions mem_env demo_history) (start_world demo_history_store) =
      (Val None, snd demo_cleanup)"
    using run_result [OF demo_cleanup_result] unfolding demo_cleanup_def .
  from cleanup_keeps_newest [OF cr limit _ _ _ _ run] show ?thesis
    by (simp add: revs sort) (auto simp: demo_revisions_def start_world_def)
qed

text \<open>\<open>MatchingLabels\<close>: what a server lists carries the labels of the selector.\<close>

definition lists_by_labels :: "'s env \<Rightarrow> bool" where
  "lists_by_labels E \<longleftrightarrow> (\<forall>selector ns s items s'. sListRevisions E selector ns s = (Inr items, s') \<longrightarrow>
     (\<forall>r \<in> set items. matches_labels selector (omLabels (rvMeta r))))"

lemma mem_list_matches:
  assumes "fst (mem_list as_revision selector ns s) = Inr items" and "r \<in> set items"
  shows "matches_labels selector (omLabels (rvMeta r))"
proof -
  from assms obtain k where "(case fmlookup s k of None \<Rightarrow> None | Some ob \<Rightarrow>
      if omNamespace (object_meta ob) = ns \<and> matches_labels selector (omLabels (object_meta ob))
      then as_revision ob else None) = Some r"
    by (auto simp: mem_list_def set_map_filter)
  then show ?thesis by (auto simp: as_revision_iff split: option.splits if_splits)
qed

lemma lists_by_labels_mem_env: "lists_by_labels mem_env"
proof -
  have "sListRevisions mem_env = mem_list as_revision" by (simp add: mem_env_def)
  then show ?thesis unfolding lists_by_labels_def using mem_list_matches by (metis fst_conv)
qed

text \<open>
  C29: The operator never sees its own revisions: it labels them with one key and lists by another
  that differs in a letter, so no listing of a server that honours label selectors contains a
  revision the operator made, for any resource, number and request.  The history limit has no
  effect on them.
\<close>

theorem own_revisions_never_listed:
  assumes "lists_by_labels E" and "run_state (observeRevisions E req) w = (Inr items, w')"
  shows "new_revision E' cr bs n \<notin> set items"
proof
  assume new: "new_revision E' cr bs n \<in> set items"
  let ?selector = "fmupd ''invoker.io/invokerDeployment'' (rqName req) fmempty"
  have "sListRevisions E ?selector (rqNamespace req) (wServer w) = (Inr items, wServer w')"
    using assms(2) by (auto simp: observeRevisions_def Let_def prod_eq_iff)
  with assms(1) new have "matches_labels ?selector (omLabels (rvMeta (new_revision E' cr bs n)))"
    unfolding lists_by_labels_def by blast
  then show False by (simp add: new_revision_def)
qed

definition labelled_revision :: ControllerRevision where
  "labelled_revision = \<lparr>rvMeta = (demo_meta ''sample-rev-0'')\<lparr>omLabels :=
     fmupd ''invoker.io/invokerDeployment'' ''sample'' fmempty\<rparr>, rvDataRaw = [], rvRevision = 1\<rparr>"

definition demo_listing :: "(go_error + ControllerRevision list) \<times> store world" where
  "demo_listing = run_state (observeRevisions mem_env \<lparr>rqNamespace = ''test'', rqName = ''sample''\<rparr>)
     (start_world (fmupd (object_key (ObjRevision labelled_revision)) (ObjRevision labelled_revision) demo_store))"

lemma demo_listing_result: "fst demo_listing = Inr [labelled_revision]"
  by code_simp

theorem own_revisions_never_listed_witness:
  "new_revision mem_env demo_cr ''null'' 1 \<notin> set [labelled_revision]"
  by (rule own_revisions_never_listed [OF lists_by_labels_mem_env])
    (use run_result [OF demo_listing_result] in \<open>unfold demo_listing_def\<close>)

end
