(* ===== verification/Converter_Properties.thy ===== *)
theory Converter_Properties
  imports Reconcile_Effect
begin

section \<open>Properties of the converter\<close>

text \<open>
  When the desired state exists at all, what the desired objects are, how a pod and its config
  map fit together, and that the desired objects, once they are there, are what the reconciler
  looks for.
\<close>

subsection \<open>When the conversion panics\<close>

definition complete_entity :: "StatefulEntity \<Rightarrow> bool" where
  "complete_entity se \<longleftrightarrow> seName se \<noteq> None \<and> seIOAddress se \<noteq> None \<and> seInputTopic se \<noteq> None \<and>
     seOutputTopic se \<noteq> None \<and> (\<forall>pc \<in> set (entity_pods se). pcName pc \<noteq> None) \<and>
     (entity_pods se \<noteq> [] \<longrightarrow>
        seExecutorImage se \<noteq> None \<and> seIOImage se \<noteq> None \<and> seStateImage se \<noteq> None)"

lemma those_None_iff: "those xs = None \<longleftrightarrow> None \<in> set xs"
  by (induction xs) (auto split: option.splits)

lemma those_map_None: "those (map f xs) = None \<longleftrightarrow> (\<exists>x \<in> set xs. f x = None)"
  unfolding those_None_iff set_map image_iff by (auto simp: eq_commute [of None])

lemma those_Some_iff: "those xs = Some ys \<longleftrightarrow> xs = map Some ys"
  by (induction xs arbitrary: ys) (auto split: option.splits)

lemma those_map_Some:
  "those (map f xs) = Some ys \<longleftrightarrow> length ys = length xs \<and> (\<forall>i < length xs. f (xs ! i) = Some (ys ! i))"
  by (auto simp: those_Some_iff list_eq_iff_nth_eq)

lemma those_map_memD:
  "those (map f xs) = Some ys \<Longrightarrow> x \<in> set xs \<Longrightarrow> \<exists>y \<in> set ys. f x = Some y"
  "those (map f xs) = Some ys \<Longrightarrow> y \<in> set ys \<Longrightarrow> \<exists>x \<in> set xs. f x = Some y"
  by (fastforce simp: those_map_Some in_set_conv_nth)+

lemma add_partitions_None_iff:
  "add_partitions pcs data = None \<longleftrightarrow> (\<exists>pc \<in> set pcs. pcName pc = None)"
proof (induction pcs arbitrary: data)
  case Nil
  then show ?case by simp
next
  case (Cons pc pcs)
  then show ?case by (cases "pcName pc") (simp_all add: Let_def)
qed

lemma entityConfigMap_None_iff:
  "entityConfigMap E inst lbls se = None \<longleftrightarrow>
     seName se = None \<or> seIOAddress se = None \<or> seInputTopic se = None \<or> seOutputTopic se = None \<or>
     (\<exists>pc \<in> set (entity_pods se). pcName pc = None)"
  by (auto simp: entityConfigMap_def add_partitions_None_iff bind_eq_None_conv)

lemma entityPod_None_iff:
  "entityPod E inst lbls se pc = None \<longleftrightarrow>
     pcName pc = None \<or> seExecutorImage se = None \<or> seIOImage se = None \<or> seStateImage se = None \<or>
     seName se = None"
  by (auto simp: entityPod_def bind_eq_None_conv)

lemma entityPods_None_iff:
  "entityPods E inst se = None \<longleftrightarrow>
     seName se = None \<or> (\<exists>pc \<in> set (entity_pods se). pcName pc = None \<or> seExecutorImage se = None \<or>
       seIOImage se = None \<or> seStateImage se = None)"
  by (cases "seName se")
    (simp_all add: entityPods_def those_map_None entityPod_None_iff Let_def)

lemma complete_entity_converts:
  "complete_entity se \<longleftrightarrow>
     entityConfigMap E cr (fmupd ''type'' ''statefulEntity'' (labels cr)) se \<noteq> None \<and> entityPods E cr se \<noteq> None"
  unfolding complete_entity_def entityConfigMap_None_iff entityPods_None_iff
  by (cases "entity_pods se") auto

lemma desired_state_None_cases:
  "getDesiredClusterState E (Some cr) = None \<longleftrightarrow>
     getDesiredConfigMaps E cr = None \<or> getDesiredStatefulEntities E cr = None"
  by (auto simp: getDesiredClusterState_def bind_eq_None_conv)

lemma desired_state_exists:
  "list_all complete_entity (spec_entities (crSpec cr)) \<Longrightarrow>
     getDesiredClusterState E (Some cr) \<noteq> None"
  unfolding desired_state_None_cases
  by (auto simp: getDesiredConfigMaps_def getDesiredStatefulEntities_def those_map_None Let_def
      list_all_iff complete_entity_converts [of _ E cr])

text \<open>
  C35: Computing the desired state of a resource panics exactly when some stateful entity of its
  spec lacks a name, an address or a topic, or some pod of it a name, or it has pods and lacks
  one of the three images; all of these fields are optional in the resource.
\<close>

theorem desired_state_panics_iff:
  "getDesiredClusterState E (Some cr) = None \<longleftrightarrow>
     \<not> list_all complete_entity (spec_entities (crSpec cr))"
proof -
  have "getDesiredClusterState E (Some cr) = None"
    if "se \<in> set (spec_entities (crSpec cr))" "\<not> complete_entity se" for se
    using that unfolding desired_state_None_cases complete_entity_converts [of se E cr]
    by (auto simp: getDesiredConfigMaps_def getDesiredStatefulEntities_def those_map_None Let_def)
  with desired_state_exists [of cr E] show ?thesis unfolding list_all_iff by blast
qed

subsection \<open>The desired objects\<close>

text \<open>
  \<open>SetControllerReference\<close> adds an owner reference and changes nothing else of the metadata.
\<close>

definition only_owner_references :: "'s env \<Rightarrow> bool" where
  "only_owner_references E \<longleftrightarrow>
     (\<forall>cr m. \<exists>refs. eSetControllerReference E cr m = m\<lparr>omOwnerReferences := refs\<rparr>)"

lemma only_owner_references_fields:
  assumes "only_owner_references E"
  shows "omName (eSetControllerReference E cr m) = omName m"
    and "omNamespace (eSetControllerReference E cr m) = omNamespace m"
    and "omLabels (eSetControllerReference E cr m) = omLabels m"
proof -
  from assms obtain refs where "eSetControllerReference E cr m = m\<lparr>omOwnerReferences := refs\<rparr>"
    unfolding only_owner_references_def by blast
  then show "omName (eSetControllerReference E cr m) = omName m"
    and "omNamespace (eSetControllerReference E cr m) = omNamespace m"
    and "omLabels (eSetControllerReference E cr m) = omLabels m"
    by simp_all
qed

lemma only_owner_references_mem_env: "only_owner_references mem_env"
  by (auto simp: only_owner_references_def mem_env_def set_controller_reference_def)

lemma desired_state_parts:
  assumes "getDesiredClusterState E (Some cr) = Some desired"
  shows "those (map (entityConfigMap E cr (fmupd ''type'' ''statefulEntity'' (labels cr)))
      (spec_entities (crSpec cr))) = Some (desired_cms desired)"
    and "\<exists>podss. those (map (entityPods E cr) (spec_entities (crSpec cr))) = Some podss \<and>
      desired_pods desired = concat podss"
  using assms
  by (auto simp: getDesiredClusterState_def getDesiredConfigMaps_def getDesiredStatefulEntities_def
      Let_def desired_cms_def desired_pods_def bind_eq_Some_conv)

text \<open>The two label selectors of the observer, as the desired pods carry them.\<close>

definition entity_labels :: "InvokerDeployment \<Rightarrow> string \<Rightarrow> string gomap" where
  "entity_labels cr name =
     fmupd ''statefulEntityName'' name (fmupd ''type'' ''statefulEntity'' (labels cr))"

lemma entityPods_member:
  assumes "entityPods E cr se = Some pods"
  shows "\<exists>name. seName se = Some name \<and>
    length pods = length (entity_pods se) \<and>
    (\<forall>i < length (entity_pods se).
       entityPod E cr (entity_labels cr name) se (entity_pods se ! i) = Some (pods ! i))"
  using assms
  by (auto simp: entityPods_def entity_labels_def Let_def those_map_Some bind_eq_Some_conv)

lemma desired_pods_cases:
  assumes "getDesiredClusterState E (Some cr) = Some desired" and "p \<in> set (desired_pods desired)"
  obtains se name pc where "se \<in> set (spec_entities (crSpec cr))" and "seName se = Some name"
    and "pc \<in> set (entity_pods se)" and "entityPod E cr (entity_labels cr name) se pc = Some p"
proof -
  from desired_state_parts(2) [OF assms(1)] assms(2) obtain podss pods where
    "those (map (entityPods E cr) (spec_entities (crSpec cr))) = Some podss" "pods \<in> set podss" "p \<in> set pods"
    by auto
  then obtain se where se: "se \<in> set (spec_entities (crSpec cr))" "entityPods E cr se = Some pods"
    using those_map_memD(2) by metis
  from entityPods_member [OF se(2)] \<open>p \<in> set pods\<close> obtain name i where "seName se = Some name"
    "i < length (entity_pods se)" "entityPod E cr (entity_labels cr name) se (entity_pods se ! i) = Some p"
    by (auto simp: in_set_conv_nth)
  with se show thesis by (intro that [of se name "entity_pods se ! i"]) auto
qed

lemma entityPod_fields:
  assumes "entityPod E cr lbls se pc = Some p" and "only_owner_references E"
  shows "pcName pc = Some (pod_name p)" and "omNamespace (podMeta p) = omNamespace (crMeta cr)"
    and "omLabels (podMeta p) = lbls"
    and "map (Some \<circ> cnImage) (psContainers (podSpec p)) = [seExecutorImage se, seIOImage se, seStateImage se]"
    and "map cnName (psContainers (podSpec p)) = [''executor-pod'', ''io-sidecar'', ''state-sidecar'']"
    and "map cnResources (psContainers (podSpec p)) = [pcResources pc, pcResources pc, zero_resources]"
  using assms(1) by (auto simp: entityPod_def only_owner_references_fields [OF assms(2)] bind_eq_Some_conv)

text \<open>
  C24: Every desired pod comes from one pod of one entity of the spec: it has that name and the
  resource's namespace, the labels by which the observer lists pods and groups them under the
  entity, and three containers with the entity's images, the first two with the pod's
  resources.
\<close>

theorem desired_pod_shape:
  assumes "only_owner_references E" and "getDesiredClusterState E (Some cr) = Some desired"
    and "p \<in> set (desired_pods desired)"
  shows "\<exists>se pc name. se \<in> set (spec_entities (crSpec cr)) \<and> pc \<in> set (entity_pods se) \<and>
    seName se = Some name \<and> pcName pc = Some (pod_name p) \<and>
    omNamespace (podMeta p) = omNamespace (crMeta cr) \<and> entity_label p = name \<and>
    fmlookup (omLabels (podMeta p)) ''type'' = Some ''statefulEntity'' \<and>
    map (Some \<circ> cnImage) (psContainers (podSpec p)) = [seExecutorImage se, seIOImage se, seStateImage se] \<and>
    map cnResources (psContainers (podSpec p)) = [pcResources pc, pcResources pc, zero_resources]"
proof -
  from desired_pods_cases [OF assms(2,3)] obtain se name pc where
    se: "se \<in> set (spec_entities (crSpec cr))" "seName se = Some name" "pc \<in> set (entity_pods se)"
    and p: "entityPod E cr (entity_labels cr name) se pc = Some p" .
  note f = entityPod_fields [OF p assms(1)]
  have "entity_label p = name" "fmlookup (omLabels (podMeta p)) ''type'' = Some ''statefulEntity''"
    by (simp_all add: entity_label_def f(3) entity_labels_def index_string_def)
  with se f show ?thesis
    by (intro exI [of _ se] exI [of _ pc] exI [of _ name] conjI) assumption+
qed

definition demo_converted :: DesiredInvokerDeploymentState where
  "demo_converted = the (getDesiredClusterState mem_env (Some demo_cr))"

lemma demo_conversion: "getDesiredClusterState mem_env (Some demo_cr) = Some demo_converted"
proof -
  have "list_all complete_entity (spec_entities (crSpec demo_cr))" by code_simp
  moreover have "getDesiredClusterState mem_env (Some demo_cr) \<noteq> None" by code_simp
  ultimately show ?thesis by (simp add: demo_converted_def)
qed

lemma demo_converted_pod: "map pod_name (desired_pods demo_converted) = [''sum-0'']"
  by code_simp

definition demo_converted_first :: Pod where
  "demo_converted_first = hd (desired_pods demo_converted)"

lemma demo_converted_first_in: "demo_converted_first \<in> set (desired_pods demo_converted)"
  unfolding demo_converted_first_def using demo_converted_pod by (intro hd_in_set) auto

theorem desired_pod_shape_witness:
  "\<exists>se pc name. se \<in> set (spec_entities (crSpec demo_cr)) \<and> pc \<in> set (entity_pods se) \<and>
    seName se = Some name \<and> pcName pc = Some (pod_name demo_converted_first) \<and>
    omNamespace (podMeta demo_converted_first) = omNamespace (crMeta demo_cr) \<and>
    entity_label demo_converted_first = name \<and>
    fmlookup (omLabels (podMeta demo_converted_first)) ''type'' = Some ''statefulEntity'' \<and>
    map (Some \<circ> cnImage) (psContainers (podSpec demo_converted_first)) =
      [seExecutorImage se, seIOImage se, seStateImage se] \<and>
    map cnResources (psContainers (podSpec demo_converted_first)) =
      [pcResources pc, pcResources pc, zero_resources]"
  by (rule desired_pod_shape [OF only_owner_references_mem_env demo_conversion demo_converted_first_in])

subsection \<open>A pod and its config map\<close>

definition partitions_key :: "string \<Rightarrow> string" where
  "partitions_key podName = podName @ ''.partitions''"

lemma add_partitions_insert_all:
  "add_partitions pcs data = Some data' \<Longrightarrow>
   data' = insert_all (\<lambda>pc. partitions_key (the (pcName pc)))
     (\<lambda>pc. join_strings (slice_items (pcPartitions pc)) '','') pcs data"
  by (induction pcs arbitrary: data) (auto simp: Let_def partitions_key_def bind_eq_Some_conv)

lemma partitions_key_inj [simp]: "partitions_key a = partitions_key b \<longleftrightarrow> a = b"
  by (simp add: partitions_key_def)

lemma partitions_key_main: "partitions_key a \<noteq> ''main''"
proof
  assume "partitions_key a = ''main''"
  then have "length (partitions_key a) = length ''main''" by simp
  then show False by (simp add: partitions_key_def)
qed

lemma entityConfigMap_fields:
  assumes "entityConfigMap E cr lbls se = Some cm" and "only_owner_references E"
    and "seName se = Some name"
    and "distinct (map pcName (entity_pods se))" and "pc \<in> set (entity_pods se)"
    and "pcName pc = Some podName"
  shows "cm_name cm = getConfigMapName name"
    and "fmlookup (cmData cm) (partitions_key podName) =
      Some (join_strings (slice_items (pcPartitions pc)) '','')"
proof -
  from assms(1,3) obtain io inp out data where
    "add_partitions (entity_pods se) (fmupd ''main'' (main_config io inp out) fmempty) = Some data"
    and cm: "cm = \<lparr>cmMeta = eSetControllerReference E cr (zero_meta\<lparr>omNamespace := omNamespace (crMeta cr),
      omName := getConfigMapName name, omLabels := lbls\<rparr>), cmData = data\<rparr>"
    by (auto simp: entityConfigMap_def bind_eq_Some_conv)
  then have named: "\<forall>pc \<in> set (entity_pods se). pcName pc \<noteq> None"
    by (metis add_partitions_None_iff option.distinct(1))
  from \<open>add_partitions (entity_pods se) (fmupd ''main'' (main_config io inp out) fmempty) = Some data\<close>
  have data: "data = insert_all (\<lambda>pc. partitions_key (the (pcName pc)))
      (\<lambda>pc. join_strings (slice_items (pcPartitions pc)) '','') (entity_pods se)
      (fmupd ''main'' (main_config io inp out) fmempty)"
    by (rule add_partitions_insert_all)
  have "inj_on (\<lambda>pc. partitions_key (the (pcName pc))) (set (entity_pods se))"
    using assms(4) named unfolding inj_on_def distinct_map partitions_key_inj by (metis option.expand)
  then have "distinct (map (\<lambda>pc. partitions_key (the (pcName pc))) (entity_pods se))"
    using assms(4) by (simp add: distinct_map)
  from fmlookup_insert_all [OF this assms(5)] assms(6)
  show "fmlookup (cmData cm) (partitions_key podName) = Some (join_strings (slice_items (pcPartitions pc)) '','')"
    by (simp add: cm data)
  show "cm_name cm = getConfigMapName name"
    by (simp add: cm only_owner_references_fields [OF assms(2)])
qed

definition mounts_config_map :: "Pod \<Rightarrow> ConfigMap \<Rightarrow> bool" where
  "mounts_config_map p cm \<longleftrightarrow>
     \<lparr>vlName = ''config-volume'', vlConfigMap = Some \<lparr>lorName = cm_name cm\<rparr>, vlEmptyDir = False\<rparr>
       \<in> set (psVolumes (podSpec p)) \<and>
     (\<exists>c \<in> set (psContainers (podSpec p)).
        cnName c = ''executor-pod'' \<and> config_volume_mount \<in> set (cnVolumeMounts c))"

text \<open>
  C23: Every pod of the spec finds its partitions: among the desired objects are a pod of its name
  and a config map which that pod mounts and which holds, under the pod's name followed by
  \<open>.partitions\<close>, the pod's partitions joined by commas.
\<close>

theorem pod_finds_partitions:
  assumes "only_owner_references E" and "getDesiredClusterState E (Some cr) = Some desired"
    and "se \<in> set (spec_entities (crSpec cr))" and "pc \<in> set (entity_pods se)"
    and "pcName pc = Some podName" and "distinct (map pcName (entity_pods se))"
  shows "\<exists>p \<in> set (desired_pods desired). \<exists>cm \<in> set (desired_cms desired).
    pod_name p = podName \<and> mounts_config_map p cm \<and>
    fmlookup (cmData cm) (podName @ ''.partitions'') =
      Some (join_strings (slice_items (pcPartitions pc)) '','')"
proof -
  from desired_state_parts(2) [OF assms(2)] obtain podss where
    podss: "those (map (entityPods E cr) (spec_entities (crSpec cr))) = Some podss"
      "desired_pods desired = concat podss" by blast
  from those_map_memD(1) [OF podss(1) assms(3)] obtain pods where
    pods: "pods \<in> set podss" "entityPods E cr se = Some pods" by blast
  from assms(4) obtain i where "i < length (entity_pods se)" "pc = entity_pods se ! i"
    by (metis in_set_conv_nth)
  with entityPods_member [OF pods(2)] obtain name p where
    name: "seName se = Some name" and p: "p \<in> set pods"
      "entityPod E cr (entity_labels cr name) se pc = Some p"
    by (metis nth_mem)
  from those_map_memD(1) [OF desired_state_parts(1) [OF assms(2)] assms(3)] obtain cm where
    cm: "cm \<in> set (desired_cms desired)"
      "entityConfigMap E cr (fmupd ''type'' ''statefulEntity'' (labels cr)) se = Some cm" by blast
  note fields = entityConfigMap_fields [OF cm(2) assms(1) name assms(6,4,5)]
  have "pod_name p = podName"
    using entityPod_fields(1) [OF p(2) assms(1)] assms(5) by simp
  moreover have "mounts_config_map p cm"
    using p(2) name by (auto simp: entityPod_def mounts_config_map_def fields(1) bind_eq_Some_conv)
  ultimately show ?thesis
    using podss(2) pods(1) p(1) cm(1) fields(2) by (auto simp: partitions_key_def)
qed

definition demo_pod_config :: PodConfig where
  "demo_pod_config = \<lparr>pcName = Some ''sum-0'', pcPartitions = Some [''0'', ''1''], pcResources = zero_resources\<rparr>"

theorem pod_finds_partitions_witness:
  "\<exists>p \<in> set (desired_pods demo_converted). \<exists>cm \<in> set (desired_cms demo_converted).
    pod_name p = ''sum-0'' \<and> mounts_config_map p cm \<and>
    fmlookup (cmData cm) ''sum-0.partitions'' = Some ''0,1''"
  using pod_finds_partitions [OF only_owner_references_mem_env demo_conversion,
      of demo_entity demo_pod_config "''sum-0''"]
  by (simp add: demo_cr_def demo_spec_def demo_entity_def demo_pod_config_def)

subsection \<open>The desired objects are what the reconciler looks for\<close>

text \<open>
  Observed objects under the names of the desired ones, the pods with the entity labels of the
  desired ones, are in sync with them once the revision is current; the observed objects may
  differ from the desired ones in everything else.
\<close>

lemma same_names_in_sync:
  assumes cms: "obConfigMaps observed = index_config_maps cms" "cm_name ` set cms = cm_name ` set (desired_cms desired)"
    and pods: "obStatefulEntities observed = group_pods pods fmempty" "distinct (map pod_name pods)"
      "(\<lambda>p. (entity_label p, pod_name p)) ` set pods = (\<lambda>p. (entity_label p, pod_name p)) ` set (desired_pods desired)"
    and revision: "stCurrentRevision (crStatus cr) = stNextRevision (crStatus cr)"
  shows "in_sync cr observed desired"
proof -
  have keyed: "keyed_by_name observed" by (rule keyed_by_name_indexed [OF pods(1) cms(1)])
  have dom: "fset (fmdom (obConfigMaps observed)) = cm_name ` set (desired_cms desired)"
    by (simp add: cms index_config_maps_def fmdom_insert_all fset_of_list.rep_eq)
  have "observed_pod_names observed = snd ` (\<lambda>p. (entity_label p, pod_name p)) ` set pods"
    by (force simp: observed_pod_names_def pods(1) observed_pod_group_iff [OF pods(2)] image_iff)
  then have "observed_pod_names observed = pod_name ` set (desired_pods desired)"
    by (simp add: pods(3) image_comp comp_def)
  then have "surplus_pods observed desired = {}" "surplus_cms observed desired = {}"
    using surplus_pod_names [OF keyed, of desired] surplus_cm_names [OF keyed, of desired] dom by auto
  moreover have "fmlookup (obConfigMaps observed) (cm_name d) \<noteq> None" if "d \<in> set (desired_cms desired)" for d
    using that dom by (metis fmdom_notI image_eqI)
  moreover have "observed_pod (obStatefulEntities observed) (entity_label d) (pod_name d) \<noteq> None"
    if "d \<in> set (desired_pods desired)" for d
  proof -
    have "(entity_label d, pod_name d) \<in> (\<lambda>p. (entity_label p, pod_name p)) ` set pods"
      unfolding pods(3) using that by (rule imageI)
    then obtain p where "p \<in> set pods" "entity_label p = entity_label d" "pod_name p = pod_name d" by auto
    with observed_pod_group_member [OF pods(2) this(1), of fmempty] show ?thesis by (simp add: pods(1))
  qed
  ultimately show ?thesis using revision by (simp add: in_sync_def)
qed

end
