(* ===== verification/Controller.thy ===== *)
theory Controller
  imports Resource_Reconciler
begin

section \<open>invokerdeployment_controller.go: one reconciliation\<close>

definition invokerDeploymentFinalizer :: string where
  "invokerDeploymentFinalizer = ''invokeroperator.invoker.io/finalizer''"

text \<open>\<open>recorder.Event\<close> returns nothing; it is recorded in the trace.\<close>

definition doFinalizeOperation :: "Request \<Rightarrow> InvokerDeployment \<Rightarrow> ('s world, unit) state" where
  "doFinalizeOperation req cr =
     api (EventCall cr ''Warning'' ''Deleting''
       (''Custom Resource '' @ rqName req @ '' is being deleted from the namespace '' @ rqNamespace req))
       (Pair ())"

text \<open>
  Step 2 of the handler, the finalizer part: \<open>Some\<close> is an early return of the handler with that
  result and error, \<open>None\<close> means that the handler goes on.
\<close>

definition handleFinalizer ::
  "'s env \<Rightarrow> Request \<Rightarrow> InvokerDeployment \<Rightarrow> ('s world, (Result \<times> go_error option) option) state" where
  "handleFinalizer E req cr =
     (if \<not> eContainsFinalizer E cr invokerDeploymentFinalizer then
        (case eAddFinalizer E cr invokerDeploymentFinalizer of
           (cr, ok) \<Rightarrow>
             if \<not> ok then ret (Some (zero_result, None))
             else do {
               err \<leftarrow> client_update E (ObjCR cr);
               ret (Some (zero_result, err))
             })
      else if omDeletionTimestamp (crMeta cr) \<noteq> None then
        (if eContainsFinalizer E cr invokerDeploymentFinalizer then do {
           _ \<leftarrow> doFinalizeOperation req cr;
           (case eRemoveFinalizer E cr invokerDeploymentFinalizer of
              (cr, ok) \<Rightarrow>
                if \<not> ok then ret (Some (\<lparr>rsRequeue = True, rsRequeueAfter = 0\<rparr>, None))
                else do {
                  err \<leftarrow> client_update E (ObjCR cr);
                  ret (Some (zero_result, err))
                })
         }
         else ret (Some (zero_result, None)))
      else ret None)"

text \<open>
  Steps 3 and 4: compute the desired state and act.  The error of the resource reconciler is
  logged and then overwritten by that of \<open>syncRevisions\<close>, and so is lost; its result is kept.
\<close>

definition applyDesired ::
  "'s env \<Rightarrow> ObservedInvokerDeploymentState \<Rightarrow> ('s world, (Result \<times> go_error option) go) state" where
  "applyDesired E observed = do {
     _ \<leftarrow> time_now E;
     case getDesiredClusterState E (obCR observed) of
       None \<Rightarrow> ret Panicked
     | Some desired \<Rightarrow> do {
         (result, _) \<leftarrow> reconcileResources E observed desired;
         go_bind (syncRevisions E (obCR observed)) (\<lambda>(err, cr).
           if err \<noteq> None then ret (Val (zero_result, err))
           else
             go_bind (cleanupOldRevisions E (observed\<lparr>obCR := cr\<rparr>)) (\<lambda>err.
               ret (Val (result, err))))
       }
   }"

definition handler_reconcile ::
  "'s env \<Rightarrow> Request \<Rightarrow> ObservedInvokerDeploymentState \<Rightarrow> ('s world, (Result \<times> go_error option) go) state" where
  "handler_reconcile E request observed = do {
     (err, observed) \<leftarrow> observe E request observed;
     if err \<noteq> None then ret (Val (zero_result, err))
     else do {
       early \<leftarrow> (case obCR observed of
         None \<Rightarrow> ret None
       | Some cr \<Rightarrow> handleFinalizer E request cr);
       case early of
         Some r \<Rightarrow> ret (Val r)
       | None \<Rightarrow>
           go_bind (updateStatusIfChanged E observed) (\<lambda>(statusChanged, err).
             if err \<noteq> None then ret (Val (zero_result, err))
             else if statusChanged then
               ret (Val (\<lparr>rsRequeue = True, rsRequeueAfter = 5 * Second\<rparr>, None))
             else applyDesired E observed)
     }
   }"

definition Reconcile ::
  "'s env \<Rightarrow> Request \<Rightarrow> ('s world, (Result \<times> go_error option) go) state" where
  "Reconcile E req = handler_reconcile E req zero_observed"

end
