(* ===== verification/Controller_Properties.thy ===== *)
theory Controller_Properties
  imports Controller Converter_Properties Status_Properties Revision_Properties
begin

section \<open>Properties of the observer and the controller\<close>

subsection \<open>Observing\<close>

lemma observe_stage_trace:
  assumes "run_state (observe_stage (api c f) store observed) w = ((err, observed'), w')"
  shows "wTrace w' = wTrace w @ [c]"
  using assms by (auto simp: run_observe_stage split: sum.splits)

text \<open>The reads, as one request each.\<close>

lemma observe_read_api:
  "observeSpec E req = api (observe_calls req ! 0) (sGetCR E (rqNamespace req) (rqName req))"
  "observeSecret E req = api (observe_calls req ! 1) (sGetSecret E (rqNamespace req) ''my-docker-registry-secret'')"
  "observeConfigMaps E req = api (observe_calls req ! 2)
     (sListConfigMaps E (fmupd ''type'' ''statefulEntity'' fmempty) (rqNamespace req))"
  "observeStatefulEntities E req = api (observe_calls req ! 3)
     (sListPods E (fmupd ''type'' ''statefulEntity'' fmempty) (rqNamespace req))"
  "observeRevisions E req = api (observe_calls req ! 4)
     (sListRevisions E (fmupd ''invoker.io/invokerDeployment'' (rqName req) fmempty) (rqNamespace req))"
  by (simp_all add: observe_read_defs observe_calls_def getSecretName_def Let_def)

lemma observe_stage_stores:
  "run_state (observe_stage m store observed) w = ((None, observed'), w') \<Longrightarrow>
     observed' = observed \<or> (\<exists>x. observed' = store x observed)"
  by (auto simp: run_observe_stage split: prod.splits sum.splits)

lemma time_now_trace: "run_state (time_now E) w = (t, w') \<Longrightarrow> wTrace w' = wTrace w"
  by (auto simp: time_now_def)

text \<open>\<open>reads cs m\<close>: the requests of \<open>m\<close> are a prefix of \<open>cs\<close>.\<close>

definition reads :: "api_call list \<Rightarrow> ('s world, 'a) state \<Rightarrow> bool" where
  "reads cs m \<longleftrightarrow> (\<forall>w. \<exists>n \<le> length cs. wTrace (snd (run_state m w)) = wTrace w @ take n cs)"

lemma reads_ret: "reads cs (ret x)"
  by (auto simp: reads_def intro: exI [of _ 0])

lemma reads_stage:
  assumes "\<And>r. reads cs (g r)"
  shows "reads (c # cs) (State_Monad.bind (observe_stage (api c f) store observed) g)"
  unfolding reads_def
proof
  fix w
  obtain r v where r: "run_state (observe_stage (api c f) store observed) w = (r, v)" by fastforce
  then have "wTrace v = wTrace w @ [c]" by (metis observe_stage_trace prod.collapse)
  moreover obtain n where "n \<le> length cs" "wTrace (snd (run_state (g r) v)) = wTrace v @ take n cs"
    using assms [of r] unfolding reads_def by blast
  ultimately show "\<exists>n \<le> length (c # cs). wTrace (snd (run_state
      (State_Monad.bind (observe_stage (api c f) store observed) g) w)) = wTrace w @ take n (c # cs)"
    by (intro exI [of _ "Suc n"]) (simp add: r)
qed

lemma reads_time:
  assumes "\<And>r. reads cs (g r)"
  shows "reads cs (State_Monad.bind (time_now E) g)"
  unfolding reads_def
proof
  fix w
  obtain r v where r: "run_state (time_now E) w = (r, v)" by fastforce
  then have "wTrace v = wTrace w" by (rule time_now_trace)
  with assms [of r] show "\<exists>n \<le> length cs. wTrace (snd (run_state (State_Monad.bind (time_now E) g) w)) =
      wTrace w @ take n cs"
    by (simp add: reads_def r) metis
qed

lemma reads_cases:
  "(x = None \<Longrightarrow> reads cs m) \<Longrightarrow> (\<And>a. x = Some a \<Longrightarrow> reads cs (f a)) \<Longrightarrow>
     reads cs (case x of None \<Rightarrow> m | Some a \<Rightarrow> f a)"
  "(\<And>e. y = Inl e \<Longrightarrow> reads cs (g e)) \<Longrightarrow> (\<And>b. y = Inr b \<Longrightarrow> reads cs (h b)) \<Longrightarrow>
     reads cs (case y of Inl e \<Rightarrow> g e | Inr b \<Rightarrow> h b)"
  "(b \<Longrightarrow> reads cs m) \<Longrightarrow> (\<not> b \<Longrightarrow> reads cs m') \<Longrightarrow> reads cs (if b then m else m')"
  "(\<And>a c. p = (a, c) \<Longrightarrow> reads cs (k a c)) \<Longrightarrow> reads cs (case p of (a, c) \<Rightarrow> k a c)"
  by (cases x; cases y; cases b; cases p; simp)+

lemma observe_calls_list: "observe_calls req = [observe_calls req ! 0, observe_calls req ! 1,
   observe_calls req ! 2, observe_calls req ! 3, observe_calls req ! 4]"
  by (simp add: observe_calls_def)

text \<open>
  Observing makes the five reads in their fixed order and stops after the first one whose
  answer ends it: the requests are a prefix of the list, whatever the server answers; nothing is
  written.
\<close>

theorem observe_reads_prefix:
  "\<exists>n \<le> 5. wTrace (snd (run_state (observe E req observed) w)) = wTrace w @ take n (observe_calls req)"
proof -
  have "reads (observe_calls req) (observe E req observed)"
    unfolding observe_def Let_def observe_read_api
    by (subst observe_calls_list) (intro reads_stage reads_time reads_cases reads_ret)
  moreover have "length (observe_calls req) = 5" by (simp add: observe_calls_def)
  ultimately show ?thesis unfolding reads_def by metis
qed

text \<open>An observation that finds the resource.\<close>

lemma observe_found:
  assumes "run_state (observe E req zero_observed) w = ((None, observed), w')"
    and Inr: "fst (sGetCR E (rqNamespace req) (rqName req) (wServer w)) = Inr cr"
  obtains bs cms pods where "marshalSpec (eQuantityJSON E) (crSpec cr) = Inr bs"
    and "obCR observed = Some (set_next cr (revision_name cr bs))"
    and "obConfigMaps observed = index_config_maps cms"
    and "obStatefulEntities observed = group_pods pods fmempty"
proof -
  let ?o1 = "zero_observed\<lparr>obCR := Some cr\<rparr>"
  obtain w1 where 1: "run_state (observe_stage (observeSpec E req)
      (\<lambda>cr. obCR_update (\<lambda>_. Some cr)) zero_observed) w = ((None, ?o1), w1)"
    using Inr by (simp add: run_observe_stage observe_read_api(1))
  have "\<exists>o2 o3 o4 o5 w2 w3 w4 w5 w6 t bs.
      run_state (observe_stage (observeSecret E req) (\<lambda>s. obSecret_update (\<lambda>_. Some s)) ?o1) w1 = ((None, o2), w2) \<and>
      run_state (observe_stage (observeConfigMaps E req)
        (\<lambda>cms. obConfigMaps_update (\<lambda>_. index_config_maps cms)) o2) w2 = ((None, o3), w3) \<and>
      run_state (observe_stage (observeStatefulEntities E req)
        (\<lambda>pods. obStatefulEntities_update (\<lambda>_. group_pods pods fmempty)) o3) w3 = ((None, o4), w4) \<and>
      run_state (observe_stage (observeRevisions E req)
        (\<lambda>rs. obRevisions_update (\<lambda>old. old @ rs)) (o4\<lparr>obObserveTime := Some t\<rparr>)) w5 = ((None, o5), w6) \<and>
      marshalSpec (eQuantityJSON E) (crSpec cr) = Inr bs \<and>
      observed = o5\<lparr>obCR := Some (set_next cr (revision_name cr bs))\<rparr>"
    using assms(1) by (auto simp: observe_def 1 Let_def set_next_def split: prod.splits if_splits sum.splits)
  then obtain o2 o3 o4 o5 w2 w3 w4 w5 w6 t bs where
    2: "run_state (observe_stage (observeSecret E req) (\<lambda>s. obSecret_update (\<lambda>_. Some s)) ?o1) w1 = ((None, o2), w2)" and
    3: "run_state (observe_stage (observeConfigMaps E req)
        (\<lambda>cms. obConfigMaps_update (\<lambda>_. index_config_maps cms)) o2) w2 = ((None, o3), w3)" and
    4: "run_state (observe_stage (observeStatefulEntities E req)
        (\<lambda>pods. obStatefulEntities_update (\<lambda>_. group_pods pods fmempty)) o3) w3 = ((None, o4), w4)" and
    5: "run_state (observe_stage (observeRevisions E req)
        (\<lambda>rs. obRevisions_update (\<lambda>old. old @ rs)) (o4\<lparr>obObserveTime := Some t\<rparr>)) w5 = ((None, o5), w6)" and
    bs: "marshalSpec (eQuantityJSON E) (crSpec cr) = Inr bs" and
    obs: "observed = o5\<lparr>obCR := Some (set_next cr (revision_name cr bs))\<rparr>"
    by blast
  have "obConfigMaps o2 = index_config_maps []" "obStatefulEntities o2 = group_pods [] fmempty"
    using 2 by (auto dest: observe_stage_stores simp: zero_observed_def index_config_maps_def)
  with 3 obtain cms where "obConfigMaps o3 = index_config_maps cms" "obStatefulEntities o3 = group_pods [] fmempty"
    by (auto dest!: observe_stage_stores)
  with 4 obtain pods where "obConfigMaps o4 = index_config_maps cms" "obStatefulEntities o4 = group_pods pods fmempty"
    by (auto dest!: observe_stage_stores simp del: group_pods.simps)
  with 5 obs have "obConfigMaps observed = index_config_maps cms" "obStatefulEntities observed = group_pods pods fmempty"
    by (auto dest!: observe_stage_stores)
  with bs obs show thesis by (intro that) simp_all
qed

lemma observe_missing:
  assumes "run_state (observe E req zero_observed) w = ((None, observed), w')"
    and "fst (sGetCR E (rqNamespace req) (rqName req) (wServer w)) = Inl e"
  shows "IsNotFound e \<and> observed = zero_observed"
  using assms
  by (auto simp: observe_def run_observe_stage observe_read_api(1) zero_observed_def
      IgnoreNotFound_None_iff split: if_splits)

text \<open>
  What the server answers to the reads of an observation, in the order of the reads and with the
  state each leaves, and the state after the last one.  (When the resource is missing the
  observation ends after the first.)
\<close>

record answers =
  anCR :: "go_error + InvokerDeployment"
  anSecret :: "go_error + Secret"
  anConfigMaps :: "go_error + ConfigMap list"
  anPods :: "go_error + Pod list"
  anTime :: gotime
  anRevisions :: "go_error + ControllerRevision list"

definition server_answers :: "'s env \<Rightarrow> Request \<Rightarrow> 's \<Rightarrow> answers \<times> 's" where
  "server_answers E req s0 =
     (let ns = rqNamespace req;
          managed = fmupd ''type'' ''statefulEntity'' fmempty;
          (cr, s1) = sGetCR E ns (rqName req) s0;
          (secret, s2) = sGetSecret E ns ''my-docker-registry-secret'' s1;
          (cms, s3) = sListConfigMaps E managed ns s2;
          (pods, s4) = sListPods E managed ns s3;
          (now, s5) = sNow E s4;
          (revisions, s6) = sListRevisions E (fmupd ''invoker.io/invokerDeployment'' (rqName req) fmempty) ns s5
      in (\<lparr>anCR = cr, anSecret = secret, anConfigMaps = cms, anPods = pods, anTime = now, anRevisions = revisions\<rparr>, s6))"

text \<open>A NotFound answer counts as nothing there.\<close>

definition tolerated :: "go_error + 'a \<Rightarrow> bool" where
  "tolerated r = (case r of Inl e \<Rightarrow> IsNotFound e | Inr _ \<Rightarrow> True)"

definition listed :: "go_error + 'a list \<Rightarrow> 'a list" where
  "listed r = (case r of Inl e \<Rightarrow> [] | Inr xs \<Rightarrow> xs)"

definition shown :: "answers \<Rightarrow> InvokerDeployment \<Rightarrow> string \<Rightarrow> ObservedInvokerDeploymentState" where
  "shown a cr name =
     \<lparr>obCR = Some (set_next cr name), obRevisions = listed (anRevisions a),
      obConfigMaps = index_config_maps (listed (anConfigMaps a)),
      obSecret = (case anSecret a of Inl e \<Rightarrow> None | Inr secret \<Rightarrow> Some secret),
      obObserveTime = Some (anTime a), obStatefulEntities = group_pods (listed (anPods a)) fmempty\<rparr>"

lemma observe_shows:
  assumes "run_state (observe E req zero_observed) w = ((None, observed), w')"
    and "server_answers E req (wServer w) = (a, s')" and "anCR a = Inr cr"
  obtains bs where "marshalSpec (eQuantityJSON E) (crSpec cr) = Inr bs"
    and "observed = shown a cr (revision_name cr bs)" and "wServer w' = s'"
    and "tolerated (anSecret a) \<and> tolerated (anConfigMaps a) \<and> tolerated (anPods a) \<and> tolerated (anRevisions a)"
    and "wTrace w' = wTrace w @ observe_calls req"
proof -
  let ?ns = "rqNamespace req" and ?managed = "fmupd ''type'' ''statefulEntity'' fmempty"
    and ?bs = "marshalSpec (eQuantityJSON E) (crSpec cr)"
  from assms(2) obtain s1 s2 s3 s4 s5 where reads: "sGetCR E ?ns (rqName req) (wServer w) = (anCR a, s1)"
    "sGetSecret E ?ns ''my-docker-registry-secret'' s1 = (anSecret a, s2)"
    "sListConfigMaps E ?managed ?ns s2 = (anConfigMaps a, s3)" "sListPods E ?managed ?ns s3 = (anPods a, s4)"
    "sNow E s4 = (anTime a, s5)"
    "sListRevisions E (fmupd ''invoker.io/invokerDeployment'' (rqName req) fmempty) ?ns s5 = (anRevisions a, s')"
    by (auto simp: server_answers_def Let_def split: prod.splits)
  note stages = observe_def run_observe_stage observe_read_api reads assms(3) time_now_def Let_def
    IgnoreNotFound_None_iff zero_observed_def index_config_maps_def
  have "run_state (observe E req zero_observed) w = ((None, observed), w') \<Longrightarrow>
      \<exists>bs. ?bs = Inr bs \<and> observed = shown a cr (revision_name cr bs) \<and> wServer w' = s' \<and>
      (tolerated (anSecret a) \<and> tolerated (anConfigMaps a) \<and> tolerated (anPods a) \<and> tolerated (anRevisions a)) \<and>
      wTrace w' = wTrace w @ [observe_calls req ! 0, observe_calls req ! 1, observe_calls req ! 2,
        observe_calls req ! 3, observe_calls req ! 4]"
    by (cases "anSecret a"; cases "anConfigMaps a"; cases "anPods a"; cases "anRevisions a"; cases ?bs)
      (auto simp: stages shown_def set_next_def listed_def tolerated_def split: if_splits)
  from this [OF assms(1)] have "\<exists>bs. ?bs = Inr bs \<and> observed = shown a cr (revision_name cr bs) \<and> wServer w' = s' \<and>
      (tolerated (anSecret a) \<and> tolerated (anConfigMaps a) \<and> tolerated (anPods a) \<and> tolerated (anRevisions a)) \<and>
      wTrace w' = wTrace w @ observe_calls req"
    unfolding observe_calls_list [symmetric] .
  then show thesis using that by blast
qed


subsection \<open>What a reconciliation may request\<close>

fun allowed :: "api_call \<Rightarrow> bool" where
  "allowed (CreateCall (ObjConfigMap _)) = True"
| "allowed (CreateCall (ObjPod _)) = True"
| "allowed (CreateCall (ObjRevision _)) = True"
| "allowed (CreateCall _) = False"
| "allowed (UpdateCall (ObjCR _)) = True"
| "allowed (UpdateCall (ObjConfigMap _)) = True"
| "allowed (UpdateCall (ObjRevision _)) = True"
| "allowed (UpdateCall _) = False"
| "allowed (DeleteCall (ObjConfigMap _)) = True"
| "allowed (DeleteCall (ObjPod _)) = True"
| "allowed (DeleteCall (ObjRevision _)) = True"
| "allowed (DeleteCall _) = False"
| "allowed (GetDeployment _ _) = False"
| "allowed (GetStatefulSet _ _) = False"
| "allowed (GetService _ _) = False"
| "allowed (GetIngress _ _) = False"
| "allowed _ = True"

lemma emits_observe_allowed: "emits allowed (observe E req observed)"
  by (rule emits_mono [OF emits_observe]) (auto simp: observe_calls_def)

lemma justified_allowed: "justified cr observed desired c \<Longrightarrow> allowed c"
  by (induction cr observed desired c rule: justified.induct) auto

lemma emits_reconcileResources_allowed: "emits allowed (reconcileResources E observed desired)"
proof (cases "obCR observed")
  case None
  then show ?thesis by (simp add: reconcileResources_def emits_rules)
next
  case (Some cr)
  from emits_reconcileResources [OF this] show ?thesis by (rule emits_mono) (rule justified_allowed)
qed

lemma emits_updateStatusIfChanged:
  "P IncUpgradeCounter \<Longrightarrow> (\<And>cr. P (StatusUpdateCall cr)) \<Longrightarrow> emits P (updateStatusIfChanged E observed)"
  unfolding updateStatusIfChanged_def updateClusterStatus_def Let_def
  by (intro emits_rules emits_derive) simp_all

lemma emits_createControllerRevision:
  "(\<And>ns n. P (GetRevision ns n)) \<Longrightarrow> (\<And>r. P (CreateCall (ObjRevision r))) \<Longrightarrow>
   (\<And>r. P (UpdateCall (ObjRevision r))) \<Longrightarrow> emits P (createControllerRevision E cr n)"
  unfolding createControllerRevision_def Let_def by (intro emits_rules) simp_all

lemma emits_syncRevisions:
  "(\<And>ns n. P (GetRevision ns n)) \<Longrightarrow> (\<And>r. P (CreateCall (ObjRevision r))) \<Longrightarrow>
   (\<And>r. P (UpdateCall (ObjRevision r))) \<Longrightarrow> emits P (syncRevisions E ocr)"
  unfolding syncRevisions_def Let_def
  by (intro emits_rules emits_createControllerRevision) simp_all

lemma emits_cleanupOldRevisions:
  "(\<And>r. P (DeleteCall (ObjRevision r))) \<Longrightarrow> emits P (cleanupOldRevisions E observed)"
  unfolding cleanupOldRevisions_def Let_def
  by (intro emits_rules emits_for_each) simp_all

lemma emits_handleFinalizer:
  "(\<And>c. P (UpdateCall (ObjCR c))) \<Longrightarrow> (\<And>c a b m. P (EventCall c a b m)) \<Longrightarrow>
   emits P (handleFinalizer E req cr)"
  unfolding handleFinalizer_def doFinalizeOperation_def by (intro emits_rules) simp_all

lemma emits_Reconcile_allowed: "emits allowed (Reconcile E req)"
  unfolding Reconcile_def handler_reconcile_def applyDesired_def
  by (intro emits_rules emits_observe_allowed emits_handleFinalizer
      emits_updateStatusIfChanged emits_reconcileResources_allowed emits_syncRevisions
      emits_cleanupOldRevisions) simp_all

text \<open>
  C13: For every server, clock and order, all that a reconciliation of a request asks for are the
  resource, the registry secret, config maps, pods and revisions to read, creations and deletions
  of config maps, pods and revisions, updates of the resource, of config maps and of revisions,
  status updates, events and the upgrade counter.  In particular the registry secret that the
  desired state contains is never created, and no deployment, stateful set, service or ingress is
  read or touched.
\<close>

theorem reconcile_requests_allowed: "emits allowed (Reconcile E req)"
  by (rule emits_Reconcile_allowed)

subsection \<open>The stages of a reconciliation\<close>

text \<open>The result part of the resource reconciliation is always empty.\<close>

lemma reconcileResources_zero_result:
  "run_state (reconcileResources E observed desired) w = ((res, err), w') \<Longrightarrow> res = zero_result"
  by (auto simp: reconcileResources_def split: option.splits prod.splits if_splits)

lemma applyDesired_result:
  "run_state (applyDesired E observed) w = (Val (res, err), w') \<Longrightarrow> res = zero_result"
  by (auto simp: applyDesired_def run_state_go_bind split: option.splits prod.splits if_splits go.splits
      dest: reconcileResources_zero_result)

text \<open>
  No resource, no action: when the server does not find the resource, the lookup is the only
  request, and the reconciliation succeeds without a requeue.
\<close>

theorem missing_resource_no_action:
  assumes "sGetCR E (rqNamespace req) (rqName req) (wServer w) = (Inl e, s)" and "IsNotFound e"
    and "run_state (Reconcile E req) w = (r, w')"
  shows "r = Val (zero_result, None) \<and> wTrace w' = wTrace w @ [GetCR (rqNamespace req) (rqName req)]"
proof -
  have obs: "run_state (observe E req zero_observed) w =
      ((None, zero_observed), \<lparr>wTrace = wTrace w @ [GetCR (rqNamespace req) (rqName req)], wServer = s\<rparr>)"
    using assms(1,2)
    by (simp add: observe_def run_observe_stage observeSpec_def) (simp add: zero_observed_def)
  have none: "obCR zero_observed = None" by (simp add: zero_observed_def)
  from assms(3) show ?thesis
    by (auto simp: Reconcile_def handler_reconcile_def obs none updateStatusIfChanged_def run_state_go_bind
        applyDesired_def getDesiredClusterState_def reconcileResources_def syncRevisions_def
        cleanupOldRevisions_def time_now_def)
qed

theorem missing_resource_no_action_witness:
  "fst (run_state (Reconcile mem_env \<lparr>rqNamespace = ''test'', rqName = ''other''\<rparr>) (start_world demo_store)) =
     Val (zero_result, None)"
proof -
  let ?req = "\<lparr>rqNamespace = ''test'', rqName = ''other''\<rparr>"
  have get: "sGetCR mem_env (rqNamespace ?req) (rqName ?req) (wServer (start_world demo_store)) =
      (Inl (NotFoundError ''other''), demo_store)"
    by (simp add: mem_env_def mem_get_def start_world_def demo_store_def object_key_def demo_cr_def
        demo_meta_def zero_meta_def)
  obtain r v where run: "run_state (Reconcile mem_env ?req) (start_world demo_store) = (r, v)"
    by fastforce
  from missing_resource_no_action [OF get _ run] run show ?thesis by simp
qed

subsection \<open>Observing the in-memory server\<close>

text \<open>The in-memory server always lets an existing resource be observed.\<close>

lemma mem_list_Inr: "\<exists>items. mem_list sel selector ns s = (Inr items, s)"
  by (simp add: mem_list_def)

lemma mem_get_cases:
  "mem_get kind sel ns name s = (Inl (NotFoundError name), s) \<or> (\<exists>x. mem_get kind sel ns name s = (Inr x, s))"
  by (simp add: mem_get_def split: option.splits)

lemma mem_observe:
  assumes "fst (sGetCR mem_env (rqNamespace req) (rqName req) (wServer w)) = Inr cr"
    and "marshalSpec quantity_json (crSpec cr) = Inr bs"
  obtains obs v where "run_state (observe mem_env req zero_observed) w = ((None, obs), v)"
    and "obCR obs = Some (set_next cr (revision_name cr bs))" and "wServer v = wServer w"
    and "obConfigMaps obs = index_config_maps (projr (fst (mem_list as_config_map
      (fmupd ''type'' ''statefulEntity'' fmempty) (rqNamespace req) (wServer w))))"
    and "obStatefulEntities obs = group_pods (projr (fst (mem_list as_pod
      (fmupd ''type'' ''statefulEntity'' fmempty) (rqNamespace req) (wServer w)))) fmempty"
    and "wTrace v = wTrace w @ observe_calls req"
proof -
  let ?sel = "fmupd ''type'' ''statefulEntity'' fmempty" and ?ns = "rqNamespace req" and ?s = "wServer w"
  obtain cms where cms: "mem_list as_config_map ?sel ?ns ?s = (Inr cms, ?s)" using mem_list_Inr by blast
  obtain ps where ps: "mem_list as_pod ?sel ?ns ?s = (Inr ps, ?s)" using mem_list_Inr by blast
  obtain rs where rs: "mem_list as_revision (fmupd ''invoker.io/invokerDeployment'' (rqName req) fmempty) ?ns ?s =
    (Inr rs, ?s)" using mem_list_Inr by blast
  have cr: "mem_get ''InvokerDeployment'' as_cr ?ns (rqName req) ?s = (Inr cr, ?s)"
    using assms(1) mem_get_cases [of "''InvokerDeployment''" as_cr ?ns "rqName req" ?s]
    by (auto simp: mem_env_def)
  have env: "sGetCR mem_env = mem_get ''InvokerDeployment'' as_cr"
    "sGetSecret mem_env = mem_get ''Secret'' as_secret"
    "sListConfigMaps mem_env = mem_list as_config_map" "sListPods mem_env = mem_list as_pod"
    "sListRevisions mem_env = mem_list as_revision" "eQuantityJSON mem_env = quantity_json"
    "sNow mem_env = Pair mem_now"
    by (simp_all add: mem_env_def)
  obtain secret where secret: "mem_get ''Secret'' as_secret ?ns ''my-docker-registry-secret'' ?s = (secret, ?s)"
    "isl secret \<Longrightarrow> IsNotFound (projl secret)"
    using mem_get_cases [of "''Secret''" as_secret ?ns "''my-docker-registry-secret''" ?s] by fastforce
  have "\<exists>obs v. run_state (observe mem_env req zero_observed) w = ((None, obs), v) \<and>
      obCR obs = Some (set_next cr (revision_name cr bs)) \<and> wServer v = wServer w \<and>
      obConfigMaps obs = index_config_maps cms \<and> obStatefulEntities obs = group_pods ps fmempty \<and>
      wTrace v = wTrace w @ observe_calls req"
    using secret
    by (cases secret)
      (simp_all add: observe_def run_observe_stage observe_read_api env cr cms ps rs assms(2) Let_def
        set_next_def time_now_def, simp_all add: observe_calls_def)
  then show thesis using that by (auto simp: cms ps)
qed

definition demo_request :: Request where
  "demo_request = \<lparr>rqNamespace = ''test'', rqName = ''sample''\<rparr>"

definition store_with :: "InvokerDeployment \<Rightarrow> store" where
  "store_with cr = fmupd (''InvokerDeployment'', ''test'', ''sample'') (ObjCR cr) fmempty"

lemma demo_get: "sGetCR mem_env (rqNamespace demo_request) (rqName demo_request)
    (wServer (start_world (store_with cr))) = (Inr cr, store_with cr)"
  by (simp add: mem_env_def mem_get_def demo_request_def store_with_def start_world_def)

lemma demo_observe:
  assumes "crSpec cr = demo_spec"
  obtains obs v where
    "run_state (observe mem_env demo_request zero_observed) (start_world (store_with cr)) = ((None, obs), v)"
    and "obCR obs = Some (set_next cr (revision_name cr demo_text))" and "wServer v = store_with cr"
    and "obStatefulEntities obs = fmempty" and "wTrace v = observe_calls demo_request"
proof -
  have "fst (sGetCR mem_env (rqNamespace demo_request) (rqName demo_request)
      (wServer (start_world (store_with cr)))) = Inr cr" by (simp add: demo_get)
  moreover have "marshalSpec quantity_json (crSpec cr) = Inr demo_text" by (simp add: assms demo_marshal)
  ultimately obtain obs v where
    "run_state (observe mem_env demo_request zero_observed) (start_world (store_with cr)) = ((None, obs), v)"
    "obCR obs = Some (set_next cr (revision_name cr demo_text))"
    "wServer v = wServer (start_world (store_with cr))"
    "obStatefulEntities obs = group_pods (projr (fst (mem_list as_pod (fmupd ''type'' ''statefulEntity'' fmempty)
      (rqNamespace demo_request) (wServer (start_world (store_with cr)))))) fmempty"
    "wTrace v = wTrace (start_world (store_with cr)) @ observe_calls demo_request"
    by (rule mem_observe)
  moreover have "mem_list as_pod (fmupd ''type'' ''statefulEntity'' fmempty) (rqNamespace demo_request)
      (wServer (start_world (store_with cr))) = (Inr [], store_with cr)"
    by (simp add: mem_list_def start_world_def store_with_def List.map_filter_def)
  ultimately show thesis by (intro that [of obs v]) (simp_all add: start_world_def)
qed

text \<open>The resource and one labelled pod.\<close>

definition one_pod_store :: store where
  "one_pod_store = fmupd (''Pod'', ''test'', ''sum-0'') (ObjPod (demo_pod ''sum'' ''sum-0'' ''Running'')) (store_with demo_cr)"


subsection \<open>Finalizer and deletion\<close>

text \<open>
  C26: The finalizer comes first: for a resource without it, the reconciliation adds it, writes the
  resource and ends; no status, child object or revision is written, and the error of the write
  is returned.
\<close>

theorem finalizer_first:
  assumes "run_state (observe E req zero_observed) w = ((None, obs), v)" and "obCR obs = Some cr"
    and "\<not> eContainsFinalizer E cr invokerDeploymentFinalizer"
    and "eAddFinalizer E cr invokerDeploymentFinalizer = (cr', added)"
    and "run_state (Reconcile E req) w = (r, w')"
  shows "wTrace w' = wTrace v @ (if added then [UpdateCall (ObjCR cr')] else []) \<and>
    r = Val (zero_result, if added then fst (sUpdate E (ObjCR cr') (wServer v)) else None)"
  using assms(5)
  by (auto simp: Reconcile_def handler_reconcile_def assms(1-4) handleFinalizer_def client_defs
      split: if_splits)

theorem finalizer_first_witness:
  "wTrace (snd (run_state (Reconcile mem_env demo_request) (start_world (store_with demo_cr)))) =
     observe_calls demo_request @ [UpdateCall (ObjCR (with_finalizers
       (set_next demo_cr (revision_name demo_cr demo_text)) [invokerDeploymentFinalizer]))]"
proof -
  have spec: "crSpec demo_cr = demo_spec" by (simp add: demo_cr_def)
  let ?cr = "set_next demo_cr (revision_name demo_cr demo_text)"
  obtain obs v where run: "run_state (observe mem_env demo_request zero_observed)
      (start_world (store_with demo_cr)) = ((None, obs), v)"
    and cr: "obCR obs = Some ?cr" and trace: "wTrace v = observe_calls demo_request"
    by (rule demo_observe [OF spec])
  have none: "omFinalizers (crMeta ?cr) = []"
    by (simp add: set_next_def demo_cr_def demo_meta_def zero_meta_def)
  then have contains: "\<not> eContainsFinalizer mem_env ?cr invokerDeploymentFinalizer"
    by (simp add: mem_env_def contains_finalizer_def)
  have add: "eAddFinalizer mem_env ?cr invokerDeploymentFinalizer =
      (with_finalizers ?cr [invokerDeploymentFinalizer], True)"
    using none by (simp add: mem_env_def add_finalizer_def contains_finalizer_def)
  obtain r w' where "run_state (Reconcile mem_env demo_request) (start_world (store_with demo_cr)) = (r, w')"
    by fastforce
  with finalizer_first [OF run cr contains add this] show ?thesis by (simp add: trace)
qed

text \<open>
  C27: A deletion is only acknowledged: for a resource being deleted that carries the finalizer, the
  reconciliation sends the event, removes the finalizer by one write of the resource and ends;
  no child object, status or revision is written.
\<close>

theorem deletion_acknowledged:
  assumes "run_state (observe E req zero_observed) w = ((None, obs), v)" and "obCR obs = Some cr"
    and "eContainsFinalizer E cr invokerDeploymentFinalizer" and "omDeletionTimestamp (crMeta cr) \<noteq> None"
    and "eRemoveFinalizer E cr invokerDeploymentFinalizer = (cr', removed)"
    and "run_state (Reconcile E req) w = (r, w')"
  shows "wTrace w' = wTrace v @
      EventCall cr ''Warning'' ''Deleting''
        (''Custom Resource '' @ rqName req @ '' is being deleted from the namespace '' @ rqNamespace req) #
      (if removed then [UpdateCall (ObjCR cr')] else []) \<and>
    r = Val (if removed then (zero_result, fst (sUpdate E (ObjCR cr') (wServer v)))
             else (\<lparr>rsRequeue = True, rsRequeueAfter = 0\<rparr>, None))"
  using assms(6)
  by (auto simp: Reconcile_def handler_reconcile_def assms(1-5) handleFinalizer_def doFinalizeOperation_def
      client_defs split: if_splits)

definition deleting_cr :: InvokerDeployment where
  "deleting_cr = demo_cr\<lparr>crMeta := (crMeta demo_cr)\<lparr>omFinalizers := [invokerDeploymentFinalizer],
     omDeletionTimestamp := Some mem_now\<rparr>\<rparr>"

theorem deletion_acknowledged_witness:
  "\<exists>cr message. wTrace (snd (run_state (Reconcile mem_env demo_request) (start_world (store_with deleting_cr)))) =
     observe_calls demo_request @
       [EventCall cr ''Warning'' ''Deleting'' message, UpdateCall (ObjCR (with_finalizers cr []))]"
proof -
  have spec: "crSpec deleting_cr = demo_spec" by (simp add: deleting_cr_def demo_cr_def)
  let ?cr = "set_next deleting_cr (revision_name deleting_cr demo_text)"
  obtain obs v where run: "run_state (observe mem_env demo_request zero_observed)
      (start_world (store_with deleting_cr)) = ((None, obs), v)"
    and cr: "obCR obs = Some ?cr" and trace: "wTrace v = observe_calls demo_request"
    by (rule demo_observe [OF spec])
  have meta: "omFinalizers (crMeta ?cr) = [invokerDeploymentFinalizer]"
    "omDeletionTimestamp (crMeta ?cr) \<noteq> None"
    by (simp_all add: set_next_def deleting_cr_def)
  then have contains: "eContainsFinalizer mem_env ?cr invokerDeploymentFinalizer"
    by (simp add: mem_env_def contains_finalizer_def)
  have remove: "eRemoveFinalizer mem_env ?cr invokerDeploymentFinalizer = (with_finalizers ?cr [], True)"
    using meta(1) by (simp add: mem_env_def remove_finalizer_def contains_finalizer_def)
  obtain r w' where "run_state (Reconcile mem_env demo_request) (start_world (store_with deleting_cr)) = (r, w')"
    by fastforce
  with deletion_acknowledged [OF run cr contains meta(2) remove this] show ?thesis
    by (auto simp: trace)
qed

subsection \<open>The status gate\<close>

fun is_gate_call :: "api_call \<Rightarrow> bool" where
  "is_gate_call (StatusUpdateCall _) = True"
| "is_gate_call IncUpgradeCounter = True"
| "is_gate_call c = is_read c"

text \<open>
  C16: Wait for a stable status: a reconciliation that asks to be called again after five seconds
  has only read, counted an upgrade and written the status; it has created, updated and deleted
  nothing.
\<close>

theorem requeued_without_action:
  assumes "run_state (Reconcile E req) w = (Val (res, err), w')" and "rsRequeueAfter res = 5 * Second"
  shows "\<exists>calls. wTrace w' = wTrace w @ calls \<and> list_all is_gate_call calls \<and> rsRequeue res \<and> err = None"
proof -
  obtain e obs v where obs: "run_state (observe E req zero_observed) w = ((e, obs), v)" by (metis prod.collapse)
  have "e = None"
    using assms by (cases e) (auto simp: Reconcile_def handler_reconcile_def obs zero_result_def Second_def)
  note run = assms(1) [unfolded Reconcile_def handler_reconcile_def]
  obtain early v1 where early: "run_state (case obCR obs of None \<Rightarrow> ret None | Some cr \<Rightarrow> handleFinalizer E req cr) v =
    (early, v1)" by fastforce
  have no_early: "early = None \<and> v1 = v"
  proof (cases "obCR obs")
    case None
    with early show ?thesis by simp
  next
    case (Some cr)
    with early run assms(2) obs \<open>e = None\<close> show ?thesis
      by (auto simp: handleFinalizer_def doFinalizeOperation_def client_defs zero_result_def Second_def
          split: if_splits prod.splits option.splits)
  qed
  obtain u v2 where u: "run_state (updateStatusIfChanged E obs) v = (u, v2)" by fastforce
  have "\<exists>e. u = Val (True, e) \<and> e = None" and "w' = v2" and "rsRequeue res" and "err = None"
    using run assms(2) obs early no_early u \<open>e = None\<close>
    by (auto simp: run_state_go_bind zero_result_def Second_def split: go.splits if_splits
        dest!: applyDesired_result)
  moreover have "emits is_gate_call (observe E req zero_observed)"
    by (rule emits_observe_read) (case_tac c, auto)
  from emitsE [OF this obs] obtain cs where "wTrace v = wTrace w @ cs" "list_all is_gate_call cs" .
  moreover have "emits is_gate_call (updateStatusIfChanged E obs)" by (rule emits_updateStatusIfChanged) simp_all
  from emitsE [OF this u] obtain ds where "wTrace v2 = wTrace v @ ds" "list_all is_gate_call ds" .
  ultimately show ?thesis by (intro exI [of _ "cs @ ds"]) simp
qed

definition waiting_cr :: InvokerDeployment where
  "waiting_cr = demo_cr\<lparr>crMeta := (crMeta demo_cr)\<lparr>omFinalizers := [invokerDeploymentFinalizer]\<rparr>\<rparr>"

lemma waiting_status:
  assumes "obCR obs = Some (set_next waiting_cr name)" and "obStatefulEntities obs = fmempty"
    and "wServer v = store_with waiting_cr"
  shows "fst (run_state (updateStatusIfChanged mem_env obs) v) = Val (True, None)"
proof -
  let ?cr = "set_next waiting_cr name"
  have cr: "crStatus ?cr = zero_status\<lparr>stNextRevision := name\<rparr>" "crSpec ?cr = demo_spec"
    "omName (crMeta ?cr) = ''sample''" "omNamespace (crMeta ?cr) = ''test''"
    by (simp_all add: set_next_def waiting_cr_def demo_cr_def demo_meta_def zero_meta_def)
  have entities: "length (spec_entities demo_spec) = 1" by (simp add: demo_spec_def)
  have range: "run_state (range_values mem_env (fmempty :: Pod gomap option gomap)) u = ([], u)" for u
    by (simp add: range_values_def mem_env_def sorted_list_of_fset.rep_eq List.map_filter_def)
  obtain st where st: "run_state (deriveInvokerDeploymentStatus mem_env (crStatus ?cr) obs) v = (Val st, v)"
    and "stState st = StateCreating"
    by (simp add: deriveInvokerDeploymentStatus_def assms(1,2) cr zero_status_def range entities
        next_state_def state_defs Let_def) (simp add: mem_env_def)
  then have "isStatusChanged ((crStatus ?cr)\<lparr>stLastUpdateTime := []\<rparr>) st"
    by (simp add: isStatusChanged_def cr zero_status_def state_defs)
  moreover have "fst (sStatusUpdate mem_env (?cr\<lparr>crStatus := st'\<rparr>) (store_with waiting_cr)) = None" for st'
    by (simp add: mem_env_def mem_status_update_def object_key_def store_with_def set_next_def waiting_cr_def
        demo_cr_def demo_meta_def zero_meta_def)
  ultimately show ?thesis
    by (simp add: updateStatusIfChanged_def assms(1) run_state_go_bind st updateClusterStatus_def client_defs
        assms(3)) (simp add: mem_env_def assms(3))
qed

theorem requeued_without_action_witness:
  "\<exists>calls. wTrace (snd (run_state (Reconcile mem_env demo_request) (start_world (store_with waiting_cr)))) = calls \<and>
     list_all is_gate_call calls"
proof -
  have spec: "crSpec waiting_cr = demo_spec" by (simp add: waiting_cr_def demo_cr_def)
  let ?cr = "set_next waiting_cr (revision_name waiting_cr demo_text)"
  obtain obs v where obs: "run_state (observe mem_env demo_request zero_observed)
      (start_world (store_with waiting_cr)) = ((None, obs), v)" and cr: "obCR obs = Some ?cr"
    and fields: "wServer v = store_with waiting_cr" "obStatefulEntities obs = fmempty"
    by (rule demo_observe [OF spec])
  have early: "handleFinalizer mem_env demo_request ?cr = ret None"
    by (simp add: handleFinalizer_def mem_env_def contains_finalizer_def set_next_def waiting_cr_def
        demo_cr_def demo_meta_def zero_meta_def)
  from run_result [OF waiting_status [OF cr fields(2,1)]] obtain u where
    "run_state (updateStatusIfChanged mem_env obs) v = (Val (True, None), u)" by blast
  then have run: "run_state (Reconcile mem_env demo_request) (start_world (store_with waiting_cr)) =
      (Val (\<lparr>rsRequeue = True, rsRequeueAfter = 5 * Second\<rparr>, None), u)"
    by (simp add: Reconcile_def handler_reconcile_def obs cr early run_state_go_bind)
  from requeued_without_action [OF run] run show ?thesis by (auto simp: start_world_def)
qed

subsection \<open>A failed action\<close>

text \<open>
  C30: The error of a failed action is lost: when the resource reconciliation returns an error but
  the revisions are synchronised and cleaned up without one, the whole reconciliation reports
  success and asks for no requeue, although the desired state was not reached.
\<close>

theorem action_error_lost:
  assumes "getDesiredClusterState E (obCR obs) = Some desired"
    and "run_state (time_now E) w = (t, v)"
    and "run_state (reconcileResources E obs desired) v = ((res, Some e), v1)"
    and "run_state (syncRevisions E (obCR obs)) v1 = (Val (None, cr), v2)"
    and "run_state (cleanupOldRevisions E (obs\<lparr>obCR := cr\<rparr>)) v2 = (Val None, v3)"
  shows "run_state (applyDesired E obs) w = (Val (\<lparr>rsRequeue = False, rsRequeueAfter = 0\<rparr>, None), v3)"
  using reconcileResources_zero_result [OF assms(3)]
  by (simp add: applyDesired_def assms run_state_go_bind zero_result_def)

definition refusing_env :: "store env" where
  "refusing_env = mem_env\<lparr>sCreate := \<lambda>_ s. (Some (OtherError ''refused''), s)\<rparr>"

definition recorded_cr :: InvokerDeployment where
  "recorded_cr = demo_cr\<lparr>crStatus := zero_status\<lparr>stCurrentRevision := ''rev'', stNextRevision := ''rev''\<rparr>\<rparr>"

definition recorded_observed :: ObservedInvokerDeploymentState where
  "recorded_observed = zero_observed\<lparr>obCR := Some recorded_cr\<rparr>"

definition recorded_world :: "store world" where
  "recorded_world = start_world (fmupd (''ControllerRevision'', ''test'', ''rev'')
     (ObjRevision \<lparr>rvMeta = demo_meta ''rev'', rvDataRaw = demo_text, rvRevision = 1\<rparr>) (store_with recorded_cr))"

definition recorded_desired :: DesiredInvokerDeploymentState where
  "recorded_desired = the (getDesiredClusterState refusing_env (obCR recorded_observed))"

definition refused_actions :: "(Result \<times> go_error option) \<times> store world" where
  "refused_actions = run_state (reconcileResources refusing_env recorded_observed recorded_desired) recorded_world"

lemma refused_actions_result: "fst refused_actions = (zero_result, Some (OtherError ''refused''))"
  by code_simp

definition refused_sync :: "(go_error option \<times> InvokerDeployment option) go \<times> store world" where
  "refused_sync = run_state (syncRevisions refusing_env (obCR recorded_observed)) (snd refused_actions)"

lemma refused_sync_result: "fst refused_sync = Val (None, Some recorded_cr)"
proof -
  have "fmlookup (wServer (snd refused_actions)) (''ControllerRevision'', ''test'', ''rev'') =
      Some (ObjRevision \<lparr>rvMeta = demo_meta ''rev'', rvDataRaw = demo_text, rvRevision = 1\<rparr>)"
    by code_simp
  then have get: "fst (sGetRevision refusing_env ''test'' ''rev'' (wServer (snd refused_actions))) =
      Inr \<lparr>rvMeta = demo_meta ''rev'', rvDataRaw = demo_text, rvRevision = 1\<rparr>"
    by (simp add: refusing_env_def mem_env_def mem_get_def)
  have "UnmarshalSpec refusing_env demo_text = Inr (Some demo_spec)"
    using unmarshal_marshal [OF canonical_demo_spec demo_marshal]
    by (simp add: UnmarshalSpec_def refusing_env_def mem_env_quantities normal_demo_spec)
  with get show ?thesis
    by (simp add: refused_sync_def recorded_observed_def syncRevisions_def recorded_cr_def demo_cr_def
        demo_meta_def zero_meta_def Let_def)
qed

definition refused_cleanup :: "go_error option go \<times> store world" where
  "refused_cleanup = run_state (cleanupOldRevisions refusing_env
     (recorded_observed\<lparr>obCR := Some recorded_cr\<rparr>)) (snd refused_sync)"

lemma refused_cleanup_result: "fst refused_cleanup = Val None"
  by (simp add: refused_cleanup_def cleanupOldRevisions_def recorded_observed_def zero_observed_def
      recorded_cr_def demo_cr_def demo_spec_def)

theorem action_error_lost_witness:
  "fst (run_state (applyDesired refusing_env recorded_observed) recorded_world) =
     Val (\<lparr>rsRequeue = False, rsRequeueAfter = 0\<rparr>, None)"
proof -
  have "getDesiredClusterState refusing_env (obCR recorded_observed) \<noteq> None" by code_simp
  then have 1: "getDesiredClusterState refusing_env (obCR recorded_observed) = Some recorded_desired"
    by (simp add: recorded_desired_def)
  have 2: "run_state (time_now refusing_env) recorded_world = (mem_now, recorded_world)"
    by (simp add: time_now_def refusing_env_def mem_env_def)
  have 3: "run_state (reconcileResources refusing_env recorded_observed recorded_desired) recorded_world =
      ((zero_result, Some (OtherError ''refused'')), snd refused_actions)"
    using run_result [OF refused_actions_result] unfolding refused_actions_def .
  have 4: "run_state (syncRevisions refusing_env (obCR recorded_observed)) (snd refused_actions) =
      (Val (None, Some recorded_cr), snd refused_sync)"
    using run_result [OF refused_sync_result] unfolding refused_sync_def .
  have 5: "run_state (cleanupOldRevisions refusing_env (recorded_observed\<lparr>obCR := Some recorded_cr\<rparr>)) (snd refused_sync) =
      (Val None, snd refused_cleanup)"
    using run_result [OF refused_cleanup_result] unfolding refused_cleanup_def .
  from action_error_lost [OF 1 2 3 4 5] show ?thesis by simp
qed

subsection \<open>Panics\<close>

lemma syncRevisions_panic:
  "run_state (syncRevisions E (Some cr)) w = (Panicked, w') \<Longrightarrow>
     \<exists>ns name s rv. fst (sGetRevision E ns name s) = Inr rv \<and> UnmarshalSpec E (rvDataRaw rv) = Inr None"
  by (auto simp: syncRevisions_def Let_def split: if_splits prod.splits sum.splits option.splits)

definition readable_revisions :: "'s env \<Rightarrow> bool" where
  "readable_revisions E \<longleftrightarrow>
     (\<forall>ns name s rv. fst (sGetRevision E ns name s) = Inr rv \<longrightarrow> UnmarshalSpec E (rvDataRaw rv) \<noteq> Inr None)"

lemma cleanupOldRevisions_panic:
  assumes "run_state (cleanupOldRevisions E observed) w = (Panicked, w')"
  shows "\<exists>cr. obCR observed = Some cr \<and>
    (case idHistoryLimit (crSpec cr) of None \<Rightarrow> True | Some limit \<Rightarrow> sint limit < 0)"
  using assms
  by (auto simp: cleanupOldRevisions_def Let_def split: option.splits if_splits prod.splits)

lemma syncRevisions_spec:
  "run_state (syncRevisions E (Some cr)) w = (Val (err, ocr), w') \<Longrightarrow> \<exists>cr'. ocr = Some cr' \<and> crSpec cr' = crSpec cr"
  by (auto simp: syncRevisions_def createControllerRevision_def Let_def
      split: if_splits prod.splits sum.splits option.splits)

text \<open>
  What a resource must satisfy for the operator to survive it.  Of these, the validation of the
  resource demands only that a history limit, when there is one, is at least 1.
\<close>

definition tolerable :: "InvokerDeployment \<Rightarrow> bool" where
  "tolerable cr \<longleftrightarrow> stState (crStatus cr) \<in> known_states \<and>
     list_all complete_entity (spec_entities (crSpec cr)) \<and>
     (case idHistoryLimit (crSpec cr) of None \<Rightarrow> False | Some limit \<Rightarrow> 0 \<le> sint limit)"

lemma tolerable_set_next [simp]: "tolerable (set_next cr name) = tolerable cr"
  by (simp add: tolerable_def set_next_def)

lemma updateStatusIfChanged_panic:
  assumes "run_state (updateStatusIfChanged E observed) w = (Panicked, w')"
  shows "\<exists>cr. obCR observed = Some cr \<and> \<not> tolerable cr"
proof (cases "obCR observed")
  case None
  with assms show ?thesis by (simp add: updateStatusIfChanged_def)
next
  case (Some cr)
  have "fst (run_state (deriveInvokerDeploymentStatus E (crStatus cr) observed) w) = Panicked"
    using assms by (auto simp: updateStatusIfChanged_def Some run_state_go_bind Let_def
        split: prod.splits go.splits if_splits)
  with derive_known_state [OF Some] Some show ?thesis by (auto simp: tolerable_def)
qed

lemma applyDesired_panic:
  assumes run: "run_state (applyDesired E observed) w = (Panicked, w')"
    and json: "readable_revisions E"
  shows "\<exists>cr. obCR observed = Some cr \<and> \<not> tolerable cr"
proof (cases "obCR observed")
  case None
  with run show ?thesis
    by (auto simp: applyDesired_def getDesiredClusterState_def syncRevisions_def cleanupOldRevisions_def
        run_state_go_bind split: prod.splits)
next
  case (Some cr)
  show ?thesis
  proof (cases "getDesiredClusterState E (Some cr)")
    case None
    with desired_state_exists [of cr E] Some show ?thesis by (auto simp: tolerable_def)
  next
    case desired: (Some desired)
    then have "\<exists>v1 v2. run_state (syncRevisions E (Some cr)) v1 = (Panicked, v2) \<or>
        (\<exists>err ocr. run_state (syncRevisions E (Some cr)) v1 = (Val (err, ocr), v2) \<and>
          run_state (cleanupOldRevisions E (observed\<lparr>obCR := ocr\<rparr>)) v2 = (Panicked, w'))"
      using run Some
      by (auto simp: applyDesired_def run_state_go_bind split: prod.splits go.splits if_splits)
    with syncRevisions_panic [of E cr] json obtain v1 v2 err ocr where
      val: "run_state (syncRevisions E (Some cr)) v1 = (Val (err, ocr), v2)" and
      clean: "run_state (cleanupOldRevisions E (observed\<lparr>obCR := ocr\<rparr>)) v2 = (Panicked, w')"
      unfolding readable_revisions_def by blast
    from syncRevisions_spec [OF val] cleanupOldRevisions_panic [OF clean] Some
    show ?thesis by (auto simp: tolerable_def split: option.splits)
  qed
qed

text \<open>
  C14: The operator does not crash on a tolerable resource: if a reconciliation panics, then the
  server returned a resource whose recorded state is unknown, or a stateful entity of which lacks
  a field the converter dereferences, or whose history limit is missing or negative; provided
  no revision the server returns reads back as a nil spec, as the JSON \<open>null\<close> does.
\<close>

theorem reconcile_panics_only_if:
  assumes "readable_revisions E"
    and "run_state (Reconcile E req) w = (Panicked, w')"
  shows "\<exists>cr. fst (sGetCR E (rqNamespace req) (rqName req) (wServer w)) = Inr cr \<and> \<not> tolerable cr"
proof -
  obtain e obs v where obs: "run_state (observe E req zero_observed) w = ((e, obs), v)" by (metis prod.collapse)
  have "e = None"
    using assms(2) by (cases e) (auto simp: Reconcile_def handler_reconcile_def obs)
  note run = assms(2) [unfolded Reconcile_def handler_reconcile_def]
  have "\<exists>v1 v2. run_state (updateStatusIfChanged E obs) v1 = (Panicked, v2) \<or>
      run_state (applyDesired E obs) v1 = (Panicked, v2)"
    using run \<open>e = None\<close> obs
    by (auto simp: run_state_go_bind split: prod.splits option.splits go.splits if_splits)
  then obtain cr where cr: "obCR obs = Some cr" and "\<not> tolerable cr"
    using updateStatusIfChanged_panic applyDesired_panic [OF _ assms(1)] by blast
  show ?thesis
  proof (cases "fst (sGetCR E (rqNamespace req) (rqName req) (wServer w))")
    case (Inl err)
    with observe_missing obs \<open>e = None\<close> cr show ?thesis by (fastforce simp: zero_observed_def)
  next
    case (Inr cr0)
    with observe_found obs \<open>e = None\<close> obtain bs where "obCR obs = Some (set_next cr0 (revision_name cr0 bs))"
      by metis
    with cr \<open>\<not> tolerable cr\<close> Inr show ?thesis by auto
  qed
qed

definition bogus_cr :: InvokerDeployment where
  "bogus_cr = demo_cr\<lparr>crMeta := (crMeta demo_cr)\<lparr>omFinalizers := [invokerDeploymentFinalizer]\<rparr>,
     crStatus := zero_status\<lparr>stState := ''Paused''\<rparr>\<rparr>"

text \<open>A server without revisions: none that reads back as nil.\<close>

definition revisionless_env :: "store env" where
  "revisionless_env = mem_env\<lparr>sGetRevision := \<lambda>ns name s. (Inl (NotFoundError name), s)\<rparr>"

lemma readable_revisionless: "readable_revisions revisionless_env"
  by (simp add: readable_revisions_def revisionless_env_def)

lemma observe_revisionless: "observe revisionless_env = observe mem_env"
proof -
  have reads: "observeSpec revisionless_env = observeSpec mem_env"
    "observeSecret revisionless_env = observeSecret mem_env"
    "observeConfigMaps revisionless_env = observeConfigMaps mem_env"
    "observeStatefulEntities revisionless_env = observeStatefulEntities mem_env"
    "observeRevisions revisionless_env = observeRevisions mem_env"
    "time_now revisionless_env = time_now mem_env" "eQuantityJSON revisionless_env = eQuantityJSON mem_env"
    by (auto simp: fun_eq_iff revisionless_env_def observe_read_defs time_now_def)
  show ?thesis unfolding observe_def [abs_def] reads by (rule refl)
qed

theorem reconcile_panics_only_if_witness:
  "\<exists>w'. run_state (Reconcile revisionless_env demo_request) (start_world (store_with bogus_cr)) = (Panicked, w') \<and>
     \<not> tolerable bogus_cr"
proof -
  have spec: "crSpec bogus_cr = demo_spec" by (simp add: bogus_cr_def demo_cr_def)
  let ?cr = "set_next bogus_cr (revision_name bogus_cr demo_text)"
  obtain obs v where obs: "run_state (observe revisionless_env demo_request zero_observed)
      (start_world (store_with bogus_cr)) = ((None, obs), v)" and cr: "obCR obs = Some ?cr"
    unfolding observe_revisionless by (rule demo_observe [OF spec])
  have "eContainsFinalizer revisionless_env ?cr invokerDeploymentFinalizer"
    and "omDeletionTimestamp (crMeta ?cr) = None"
    by (simp_all add: revisionless_env_def mem_env_def contains_finalizer_def set_next_def bogus_cr_def
        demo_cr_def demo_meta_def zero_meta_def)
  then have early: "handleFinalizer revisionless_env demo_request ?cr = ret None"
    by (simp add: handleFinalizer_def)
  have "stState (crStatus ?cr) \<notin> known_states"
    by (simp add: set_next_def bogus_cr_def known_states_def live_states_def state_defs)
  then have "fst (run_state (deriveInvokerDeploymentStatus revisionless_env (crStatus ?cr) obs) v) = Panicked"
    by (rule derive_unknown_state)
  from run_result [OF this] obtain v' where
    "run_state (deriveInvokerDeploymentStatus revisionless_env (crStatus ?cr) obs) v = (Panicked, v')" by blast
  then have run: "run_state (Reconcile revisionless_env demo_request) (start_world (store_with bogus_cr)) = (Panicked, v')"
    by (simp add: Reconcile_def handler_reconcile_def obs cr early updateStatusIfChanged_def run_state_go_bind)
  have "sGetCR revisionless_env = sGetCR mem_env" by (simp add: revisionless_env_def)
  with reconcile_panics_only_if [OF readable_revisionless run] run show ?thesis by (simp add: demo_get)
qed

end
