(* ===== verification/Server_Effect.thy ===== *)
theory Server_Effect
  imports Reconcile_Effect
begin

section \<open>The resource reconciliation on a server\<close>

text \<open>
  \<open>Reconcile_Effect\<close> says what the requests of a reconciliation would leave of the observed names.
  Here is the server itself: its state is abstracted to the set of the keys (kind, namespace,
  name) of the objects in it, the locale \<open>object_store\<close> states what the writes do to that set, and
  the lemmas in it lift the effect of the requests to the server's state.
\<close>

type_synonym key = "string \<times> string \<times> string"

fun key_effect :: "api_call \<Rightarrow> key set \<Rightarrow> key set" where
  "key_effect (CreateCall ob) L = insert (object_key ob) L"
| "key_effect (DeleteCall ob) L = L - {object_key ob}"
| "key_effect _ L = L"

definition keys_after :: "api_call list \<Rightarrow> key set \<Rightarrow> key set" where
  "keys_after cs L = fold key_effect cs L"

lemma keys_after_simps [simp]:
  "keys_after [] L = L" "keys_after (c # cs) L = keys_after cs (key_effect c L)"
  "keys_after (xs @ ys) L = keys_after ys (keys_after xs L)"
  by (simp_all add: keys_after_def)

text \<open>
  A successful run of a computation leaves the keys its requests say.
\<close>

definition tracks :: "('s \<Rightarrow> key set) \<Rightarrow> ('s world, go_error option) state \<Rightarrow> bool" where
  "tracks live m \<longleftrightarrow> (\<forall>w w'. run_state m w = (None, w') \<longrightarrow>
     (\<exists>cs. wTrace w' = wTrace w @ cs \<and> live (wServer w') = keys_after cs (live (wServer w))))"

lemma tracksI:
  "(\<And>w w'. run_state m w = (None, w') \<Longrightarrow>
     \<exists>cs. wTrace w' = wTrace w @ cs \<and> live (wServer w') = keys_after cs (live (wServer w))) \<Longrightarrow> tracks live m"
  by (simp add: tracks_def)

lemma tracksE:
  assumes "tracks live m" and "run_state m w = (None, w')"
  obtains cs where "wTrace w' = wTrace w @ cs" and "live (wServer w') = keys_after cs (live (wServer w))"
  using assms unfolding tracks_def by blast

lemma tracks_for_each:
  assumes "\<And>x. x \<in> set xs \<Longrightarrow> tracks live (body x)"
  shows "tracks live (for_each body xs)"
  using assms
proof (induction xs)
  case Nil
  then show ?case by (auto intro!: tracksI exI [of _ "[]"])
next
  case (Cons x xs)
  have rest: "tracks live (for_each body xs)" by (rule Cons.IH) (simp add: Cons.prems)
  have one: "tracks live (body x)" by (simp add: Cons.prems)
  show ?case
  proof (rule tracksI)
    fix w w' assume "run_state (for_each body (x # xs)) w = (None, w')"
    then obtain v where v: "run_state (body x) w = (None, v)" and w': "run_state (for_each body xs) v = (None, w')"
      by (auto split: prod.splits option.splits)
    from tracksE [OF one v] obtain cs where
      cs: "wTrace v = wTrace w @ cs" "live (wServer v) = keys_after cs (live (wServer w))" .
    from tracksE [OF rest w'] obtain ds where
      ds: "wTrace w' = wTrace v @ ds" "live (wServer w') = keys_after ds (live (wServer v))" .
    from cs ds show "\<exists>cs. wTrace w' = wTrace w @ cs \<and> live (wServer w') = keys_after cs (live (wServer w))"
      by (intro exI [of _ "cs @ ds"]) simp
  qed
qed

subsection \<open>What the server promises\<close>

locale object_store =
  fixes E :: "'s env" and live :: "'s \<Rightarrow> key set"
  assumes create: "sCreate E ob s = (None, s') \<Longrightarrow> live s' = insert (object_key ob) (live s)"
    and update: "sUpdate E ob s = (None, s') \<Longrightarrow> omDeletionTimestamp (object_meta ob) = None \<Longrightarrow> live s' = live s"
    and delete: "sDelete E ob s = (err, s') \<Longrightarrow> IgnoreNotFound err = None \<Longrightarrow> live s' = live s - {object_key ob}"
    and status_update: "sStatusUpdate E cr s = (None, s') \<Longrightarrow> live s' = live s"
    and iteration: "live (snd (sRange E A s)) = live s"
begin

lemma tracks_perform:
  assumes "\<And>ob. x = Some (Update ob) \<Longrightarrow> omDeletionTimestamp (object_meta ob) = None"
  shows "tracks live (perform E x)"
proof (rule tracksI)
  fix w w' assume run: "run_state (perform E x) w = (None, w')"
  have trace: "wTrace w' = wTrace w @ (case x of None \<Rightarrow> [] | Some a \<Rightarrow> [action_call a])"
    using perform_trace [OF run] .
  have "live (wServer w') = keys_after (case x of None \<Rightarrow> [] | Some a \<Rightarrow> [action_call a]) (live (wServer w))"
  proof (cases x)
    case None
    with run show ?thesis by simp
  next
    case (Some a)
    show ?thesis
    proof (cases a)
      case (Create ob)
      with run Some show ?thesis
        by (cases "sCreate E ob (wServer w)") (auto simp: client_defs dest: create)
    next
      case (Update ob)
      with Some have "omDeletionTimestamp (object_meta ob) = None" using assms by blast
      with Update run Some show ?thesis
        by (cases "sUpdate E ob (wServer w)") (auto simp: client_defs dest: update)
    next
      case (Delete ob)
      with run Some show ?thesis
        by (cases "sDelete E ob (wServer w)") (auto simp: client_defs dest: delete)
    qed
  qed
  with trace show "\<exists>cs. wTrace w' = wTrace w @ cs \<and> live (wServer w') = keys_after cs (live (wServer w))"
    by blast
qed

lemma range_live:
  "run_state (range_values E m) w = (vs, w') \<Longrightarrow> live (wServer w') = live (wServer w)"
  "run_state (range_entries E m) w = (es, w') \<Longrightarrow> live (wServer w') = live (wServer w)"
  using iteration by (auto simp: client_defs)

lemma tracks_entity: "tracks live (reconcileObservedEntity E cr des se)"
proof (cases se)
  case None
  then show ?thesis by (auto simp: reconcileObservedEntity_def intro!: tracksI exI [of _ "[]"])
next
  case (Some inner)
  show ?thesis
  proof (rule tracksI)
    fix w w' assume "run_state (reconcileObservedEntity E cr des se) w = (None, w')"
    with Some obtain vs v where vs: "run_state (range_values E inner) w = (vs, v)"
      and loop: "run_state (for_each (reconcileObservedPod E cr des) vs) v = (None, w')"
      by (auto simp: reconcileObservedEntity_def split: prod.splits)
    have "tracks live (for_each (reconcileObservedPod E cr des) vs)"
      unfolding reconcileObservedPod_eq by (intro tracks_for_each tracks_perform) (simp split: if_splits)
    from tracksE [OF this loop] range_trace(1) [OF vs] range_live(1) [OF vs]
    show "\<exists>cs. wTrace w' = wTrace w @ cs \<and> live (wServer w') = keys_after cs (live (wServer w))" by metis
  qed
qed

lemma tracks_loops:
  assumes "\<And>d. d \<in> set (desired_cms desired) \<Longrightarrow> omDeletionTimestamp (cmMeta d) = None"
  shows "tracks live (reconcile_loops E cr observed desired)"
proof (rule tracksI)
  fix w w' assume "run_state (reconcile_loops E cr observed desired) w = (None, w')"
  then obtain w1 d1 es w2 w3 d2 w4 ses w5 where
    p1: "run_state (reconcileDesiredConfigMaps E cr (obConfigMaps observed) (desired_cms desired) fmempty) w =
       ((None, d1), w1)" and
    p2: "run_state (range_entries E (obConfigMaps observed)) w1 = (es, w2)" and
    p3: "run_state (reconcileObservedConfigMaps E cr d1 es) w2 = (None, w3)" and
    p4: "run_state (reconcileDesiredPods E cr (obStatefulEntities observed) (desired_pods desired) fmempty) w3 =
       ((None, d2), w4)" and
    p5: "run_state (range_values E (obStatefulEntities observed)) w4 = (ses, w5)" and
    p6: "run_state (for_each (reconcileObservedEntity E cr d2) ses) w5 = (None, w')"
    by (auto simp: reconcile_loops_def split: prod.splits if_splits)
  have t1: "tracks live (for_each (\<lambda>d. perform E (cm_plan cr (obConfigMaps observed) d)) (desired_cms desired))"
    using assms cm_plan_cases by (intro tracks_for_each tracks_perform) fastforce
  have t3: "tracks live (reconcileObservedConfigMaps E cr d1 es)"
    unfolding reconcileObservedConfigMaps_eq by (intro tracks_for_each tracks_perform) (simp split: if_splits)
  have t4: "tracks live (for_each (\<lambda>d. perform E (pod_plan cr (obStatefulEntities observed) d)) (desired_pods desired))"
    using pods.action_objects
    by (intro tracks_for_each tracks_perform) (fastforce simp: pod_plan_def planned_action_def restart_present_def
        split: option.splits if_splits)
  from tracksE [OF t1] run_reconcileDesiredConfigMaps [OF p1] obtain c1 where
    c1: "wTrace w1 = wTrace w @ c1" "live (wServer w1) = keys_after c1 (live (wServer w))" by blast
  from tracksE [OF t3 p3] obtain c3 where
    c3: "wTrace w3 = wTrace w2 @ c3" "live (wServer w3) = keys_after c3 (live (wServer w2))" .
  from tracksE [OF t4] run_reconcileDesiredPods [OF p4] obtain c4 where
    c4: "wTrace w4 = wTrace w3 @ c4" "live (wServer w4) = keys_after c4 (live (wServer w3))" by blast
  from tracksE [OF tracks_for_each [OF tracks_entity] p6] obtain c6 where
    c6: "wTrace w' = wTrace w5 @ c6" "live (wServer w') = keys_after c6 (live (wServer w5))" .
  from c1 c3 c4 c6 range_trace(2) [OF p2] range_live(2) [OF p2] range_trace(1) [OF p5] range_live(1) [OF p5]
  show "\<exists>cs. wTrace w' = wTrace w @ cs \<and> live (wServer w') = keys_after cs (live (wServer w))"
    by (intro exI [of _ "c1 @ c3 @ c4 @ c6"]) simp
qed

text \<open>A resource reconciliation without error leaves the keys its requests say.\<close>

lemma reconcile_keys:
  assumes "obCR observed = Some cr"
    and "\<And>d. d \<in> set (desired_cms desired) \<Longrightarrow> omDeletionTimestamp (cmMeta d) = None"
    and "run_state (reconcileResources E observed desired) w = ((res, None), w')"
  obtains cs where "wTrace w' = wTrace w @ cs" and "live (wServer w') = keys_after cs (live (wServer w))"
proof -
  from assms(3) obtain v where loops: "run_state (reconcile_loops E cr observed desired) w = (None, v)"
    and status: "run_state (client_status_update E (promote cr)) v = (None, w')"
    by (auto simp: reconcileResources_loops [OF assms(1)] split: prod.splits if_splits)
  from status have "wTrace w' = wTrace v @ [StatusUpdateCall (promote cr)]" and "live (wServer w') = live (wServer v)"
    by (cases "sStatusUpdate E (promote cr) (wServer v)", auto simp: client_defs dest: status_update)+
  moreover from tracksE [OF tracks_loops [OF assms(2)] loops] obtain cs where
    "wTrace v = wTrace w @ cs" and "live (wServer v) = keys_after cs (live (wServer w))" .
  ultimately show thesis by (intro that [of "cs @ [StatusUpdateCall (promote cr)]"]) simp_all
qed

end

text \<open>The in-memory server is such a store.\<close>

lemma fmdom_overwrite: "fmlookup m k = Some x \<Longrightarrow> fset (fmdom (fmupd k y m)) = fset (fmdom m)"
  by (simp add: insert_absorb fmdomI)

interpretation mem_store: object_store mem_env "\<lambda>st. fset (fmdom st)"
proof
  fix ob and s s' :: store
  assume "sCreate mem_env ob s = (None, s')"
  then show "fset (fmdom s') = insert (object_key ob) (fset (fmdom s))"
    by (auto simp: mem_env_def mem_create_def split: if_splits)
next
  fix ob and s s' :: store
  assume "sUpdate mem_env ob s = (None, s')" and "omDeletionTimestamp (object_meta ob) = None"
  then show "fset (fmdom s') = fset (fmdom s)"
    by (auto simp: mem_env_def mem_update_def fmdom_overwrite simp del: fmdom_fmupd split: option.splits if_splits)
next
  fix ob err and s s' :: store
  assume "sDelete mem_env ob s = (err, s')" and "IgnoreNotFound err = None"
  then show "fset (fmdom s') = fset (fmdom s) - {object_key ob}"
    by (auto simp: mem_env_def mem_delete_def fmdom_notI split: if_splits)
next
  fix cr and s s' :: store
  assume "sStatusUpdate mem_env cr s = (None, s')"
  then show "fset (fmdom s') = fset (fmdom s)"
    by (auto simp: mem_env_def mem_status_update_def fmdom_overwrite bind_eq_Some_conv simp del: fmdom_fmupd
        split: option.splits)
next
  fix A and s :: store
  show "fset (fmdom (snd (sRange mem_env A s))) = fset (fmdom s)" by (simp add: mem_env_def)
qed

subsection \<open>One kind in one namespace\<close>

definition names_of :: "string \<Rightarrow> string \<Rightarrow> key set \<Rightarrow> string set" where
  "names_of kind ns L = {n. (kind, ns, n) \<in> L}"

text \<open>The written objects of the kind are in the namespace.\<close>

definition stays_in :: "string \<Rightarrow> (k8s_object \<Rightarrow> string option) \<Rightarrow> string \<Rightarrow> api_call \<Rightarrow> bool" where
  "stays_in kind sel ns c \<longleftrightarrow>
     (\<forall>ob. c = CreateCall ob \<or> c = DeleteCall ob \<longrightarrow>
        (case sel ob of
           Some n \<Rightarrow> object_key ob = (kind, ns, n)
         | None \<Rightarrow> fst (object_key ob) \<noteq> kind))"

lemma names_of_keys_after:
  "list_all (stays_in kind sel ns) cs \<Longrightarrow> names_of kind ns (keys_after cs L) = names_after sel cs (names_of kind ns L)"
proof (induction cs arbitrary: L)
  case Nil
  then show ?case by simp
next
  case (Cons c cs)
  then have "stays_in kind sel ns c" by simp
  then have "names_of kind ns (key_effect c L) = call_effect sel c (names_of kind ns L)"
    by (cases c) (auto simp: stays_in_def names_of_def prod_eq_iff split: option.splits)
  with Cons show ?case by simp
qed

text \<open>Names that no request deletes stay.\<close>

lemma names_after_frame:
  assumes "\<And>ob n. DeleteCall ob \<in> set cs \<Longrightarrow> sel ob = Some n \<Longrightarrow> n \<notin> T"
  shows "names_after sel cs (S \<union> T) = names_after sel cs S \<union> T"
  using assms
proof (induction cs arbitrary: S)
  case Nil
  then show ?case by simp
next
  case (Cons c cs)
  have "call_effect sel c (S \<union> T) = call_effect sel c S \<union> T"
    using Cons.prems by (cases c) (auto split: option.splits)
  moreover have "names_after sel cs (call_effect sel c S \<union> T) = names_after sel cs (call_effect sel c S) \<union> T"
    by (rule Cons.IH) (use Cons.prems in auto)
  ultimately show ?case by simp
qed

definition placed_in ::
  "string \<Rightarrow> ObservedInvokerDeploymentState \<Rightarrow> DesiredInvokerDeploymentState \<Rightarrow> bool" where
  "placed_in ns observed desired \<longleftrightarrow>
     (\<forall>d \<in> set (desired_pods desired). omNamespace (podMeta d) = ns) \<and>
     (\<forall>d \<in> set (desired_cms desired). omNamespace (cmMeta d) = ns) \<and>
     (\<forall>se n p. observed_pod (obStatefulEntities observed) se n = Some p \<longrightarrow> omNamespace (podMeta p) = ns) \<and>
     (\<forall>n x. fmlookup (obConfigMaps observed) n = Some x \<longrightarrow> omNamespace (cmMeta x) = ns)"

text \<open>What the plan creates and deletes, kind by kind.\<close>

lemma delete_action_call [simp]: "DeleteCall ob = action_call a \<longleftrightarrow> a = Delete ob"
  by (cases a) auto

lemma plan_creates:
  assumes "CreateCall ob \<in> set (plan_calls cr observed desired cmSurplus podSurplus)"
  obtains (pod) d where "ob = ObjPod d" "d \<in> set (desired_pods desired)"
    | (config_map) d where "ob = ObjConfigMap d" "d \<in> set (desired_cms desired)"
  using assms
  by (auto simp: plan_calls_def set_map_filter dest!: pod_plan_cases cm_plan_cases)

lemma plan_deletes:
  assumes "DeleteCall ob \<in> set (plan_calls cr observed desired cmSurplus podSurplus)"
    and "set cmSurplus = surplus_cms observed desired" and "set podSurplus = surplus_pods observed desired"
  obtains (restart) d x where "ob = ObjPod d" "d \<in> set (desired_pods desired)"
      "observed_pod (obStatefulEntities observed) (entity_label d) (pod_name d) = Some x"
    | (pod) p se n where "ob = ObjPod p" "observed_pod (obStatefulEntities observed) se n = Some p"
    | (config_map) x n where "ob = ObjConfigMap x" "fmlookup (obConfigMaps observed) n = Some x"
proof -
  from assms consider
      (1) d where "d \<in> set (desired_cms desired)" "cm_plan cr (obConfigMaps observed) d = Some (Delete ob)"
    | (2) x where "ob = ObjConfigMap x" "x \<in> surplus_cms observed desired"
    | (3) d where "d \<in> set (desired_pods desired)" "pod_plan cr (obStatefulEntities observed) d = Some (Delete ob)"
    | (4) p where "ob = ObjPod p" "p \<in> surplus_pods observed desired"
    by (auto simp: plan_calls_def set_map_filter)
  then show thesis
  proof cases
    case 1
    then show thesis by (simp add: cm_plan_never_deletes)
  next
    case 2
    then show thesis unfolding surplus_cms_def using config_map by blast
  next
    case 3
    then show thesis unfolding pod_plan_deleted using restart by blast
  next
    case 4
    then show thesis unfolding surplus_pods_def using pod by blast
  qed
qed

lemma plan_stays:
  assumes placed: "placed_in ns observed desired"
    and surplus: "set cmSurplus = surplus_cms observed desired" "set podSurplus = surplus_pods observed desired"
    and cs: "cs = plan_calls cr observed desired cmSurplus podSurplus"
  shows "list_all (stays_in ''Pod'' pod_sel ns) cs" and "list_all (stays_in ''ConfigMap'' cm_sel ns) cs"
proof -
  have "(\<exists>p. ob = ObjPod p \<and> omNamespace (podMeta p) = ns) \<or> (\<exists>x. ob = ObjConfigMap x \<and> omNamespace (cmMeta x) = ns)"
    if "CreateCall ob \<in> set cs \<or> DeleteCall ob \<in> set cs" for ob
    using that placed unfolding cs placed_in_def
    by (elim disjE plan_creates plan_deletes [OF _ surplus]) blast+
  then show "list_all (stays_in ''Pod'' pod_sel ns) cs" and "list_all (stays_in ''ConfigMap'' cm_sel ns) cs"
    by (fastforce simp: list_all_iff stays_in_def pod_sel_def cm_sel_def object_key_def)+
qed

text \<open>The names the plan deletes were observed.\<close>

lemma plan_deletes_observed:
  assumes keyed: "keyed_by_name observed"
    and surplus: "set cmSurplus = surplus_cms observed desired" "set podSurplus = surplus_pods observed desired"
    and delete: "DeleteCall ob \<in> set (plan_calls cr observed desired cmSurplus podSurplus)"
  shows "pod_sel ob = Some n \<Longrightarrow> n \<in> observed_pod_names observed"
    and "cm_sel ob = Some n \<Longrightarrow> n \<in> fset (fmdom (obConfigMaps observed))"
proof -
  have "(pod_sel ob = Some n \<longrightarrow> n \<in> observed_pod_names observed) \<and>
      (cm_sel ob = Some n \<longrightarrow> n \<in> fset (fmdom (obConfigMaps observed)))"
    using delete surplus
  proof (cases rule: plan_deletes)
    case (restart d x)
    then show ?thesis by (auto simp: pod_sel_def cm_sel_def observed_pod_names_def)
  next
    case (pod p se k)
    moreover from this keyed have "pod_name p = k" by (simp add: keyed_by_name_def)
    ultimately show ?thesis by (auto simp: pod_sel_def cm_sel_def observed_pod_names_def)
  next
    case (config_map x k)
    moreover from this keyed have "cm_name x = k" by (simp add: keyed_by_name_def)
    ultimately show ?thesis by (auto simp: pod_sel_def cm_sel_def fmlookup_dom_iff)
  qed
  then show "pod_sel ob = Some n \<Longrightarrow> n \<in> observed_pod_names observed"
    and "cm_sel ob = Some n \<Longrightarrow> n \<in> fset (fmdom (obConfigMaps observed))"
    by simp_all
qed

text \<open>The hypotheses of the theorems below, on a resource, its observation and its desired state.\<close>

definition well_planned ::
  "string \<Rightarrow> ObservedInvokerDeploymentState \<Rightarrow> DesiredInvokerDeploymentState \<Rightarrow> bool" where
  "well_planned ns observed desired \<longleftrightarrow>
     keyed_by_name observed \<and> placed_in ns observed desired \<and>
     distinct (map pod_name (desired_pods desired)) \<and> distinct (map cm_name (desired_cms desired)) \<and>
     (\<forall>d \<in> set (desired_cms desired). omDeletionTimestamp (cmMeta d) = None)"

text \<open>The observation lists only what is on the server.\<close>

definition well_observed ::
  "('s \<Rightarrow> key set) \<Rightarrow> string \<Rightarrow> 's \<Rightarrow> ObservedInvokerDeploymentState \<Rightarrow> DesiredInvokerDeploymentState \<Rightarrow> bool" where
  "well_observed live ns s observed desired \<longleftrightarrow>
     well_planned ns observed desired \<and>
     observed_pod_names observed \<subseteq> names_of ''Pod'' ns (live s) \<and>
     fset (fmdom (obConfigMaps observed)) \<subseteq> names_of ''ConfigMap'' ns (live s)"

lemma reconcile_on_server:
  assumes store: "object_store E live" and range: "range_ok E" and cr: "obCR observed = Some cr"
    and ok: "well_observed live ns (wServer w) observed desired"
    and run: "run_state (reconcileResources E observed desired) w = ((res, None), w')"
  shows "names_of ''Pod'' ns (live (wServer w')) =
      (pod_name ` set (desired_pods desired) - restarted_names cr observed desired) \<union>
      (names_of ''Pod'' ns (live (wServer w)) - observed_pod_names observed)"
    and "names_of ''ConfigMap'' ns (live (wServer w')) =
      cm_name ` set (desired_cms desired) \<union>
      (names_of ''ConfigMap'' ns (live (wServer w)) - fset (fmdom (obConfigMaps observed)))"
proof -
  note ok = ok [unfolded well_observed_def well_planned_def]
  then have keyed: "keyed_by_name observed" by blast
  obtain cs where cs: "wTrace w' = wTrace w @ cs" "live (wServer w') = keys_after cs (live (wServer w))"
    using object_store.reconcile_keys [OF store cr _ run] ok by blast
  obtain cmSurplus podSurplus where plan: "cs = plan_calls cr observed desired cmSurplus podSurplus"
    and surplus: "set cmSurplus = surplus_cms observed desired" "set podSurplus = surplus_pods observed desired"
    using reconcileResources_success [OF range cr run] cs(1) by (metis same_append_eq)
  have stays: "list_all (stays_in ''Pod'' pod_sel ns) cs" "list_all (stays_in ''ConfigMap'' cm_sel ns) cs"
    using ok plan_stays [OF _ surplus plan] by blast+
  let ?pods = "names_of ''Pod'' ns (live (wServer w))" and ?cms = "names_of ''ConfigMap'' ns (live (wServer w))"
  have "names_after pod_sel cs ?pods =
      names_after pod_sel cs (observed_pod_names observed \<union> (?pods - observed_pod_names observed))"
    using ok by (simp add: Un_absorb1)
  also have "\<dots> = names_after pod_sel cs (observed_pod_names observed) \<union> (?pods - observed_pod_names observed)"
    by (rule names_after_frame) (use plan_deletes_observed(1) [OF keyed surplus] plan in blast)
  finally show "names_of ''Pod'' ns (live (wServer w')) =
      (pod_name ` set (desired_pods desired) - restarted_names cr observed desired) \<union>
      (?pods - observed_pod_names observed)"
    using ok by (simp add: cs(2) names_of_keys_after [OF stays(1) [unfolded plan]] plan plan_effect_pods [OF surplus(2)])
  have "names_after cm_sel cs ?cms =
      names_after cm_sel cs (fset (fmdom (obConfigMaps observed)) \<union> (?cms - fset (fmdom (obConfigMaps observed))))"
    using ok by (simp add: Un_absorb1)
  also have "\<dots> = names_after cm_sel cs (fset (fmdom (obConfigMaps observed))) \<union>
      (?cms - fset (fmdom (obConfigMaps observed)))"
    by (rule names_after_frame) (use plan_deletes_observed(2) [OF keyed surplus] plan in blast)
  finally show "names_of ''ConfigMap'' ns (live (wServer w')) =
      cm_name ` set (desired_cms desired) \<union> (?cms - fset (fmdom (obConfigMaps observed)))"
    using ok by (simp add: cs(2) names_of_keys_after [OF stays(2) [unfolded plan]] plan plan_effect_cms [OF surplus(1)])
qed

text \<open>What the grouping of the observer shows was listed.\<close>

lemma observed_pod_in_list:
  "observed_pod (group_pods ps fmempty) se n = Some p \<Longrightarrow> p \<in> set ps \<and> n = pod_name p"
  using observed_pod_group_SomeD by (fastforce simp: observed_pod_def index_ptr_def)

subsection \<open>Objects for the witnesses\<close>

definition put :: "k8s_object \<Rightarrow> store \<Rightarrow> store" where
  "put ob st = fmupd (object_key ob) ob st"

text \<open>A pod without the labels the observer lists by.\<close>

definition unlabelled_pod :: Pod where
  "unlabelled_pod = (demo_pod ''sum'' ''stray'' ''Running'')\<lparr>podMeta := demo_meta ''stray''\<rparr>"

end
