(* ===== verification/Cluster_Refinement.thy ===== *)
theory Cluster_Refinement
  imports Server_Effect Controller_Properties
begin

section \<open>From the spec to the server\<close>

text \<open>
  The reconciliation as a whole, from the spec of the resource to the objects on the server: the
  observer's reads, the converter and the resource reconciler put together.  The locale
  \<open>labelled_store\<close> extends \<open>object_store\<close> by what the reads promise; \<open>good\<close> is the server's own
  invariant.
\<close>

subsection \<open>The converter's output\<close>

definition spec_pod_names :: "InvokerDeploymentSpec \<Rightarrow> string set" where
  "spec_pod_names spec =
     {n. \<exists>se pc. se \<in> set (spec_entities spec) \<and> pc \<in> set (entity_pods se) \<and> pcName pc = Some n}"

definition spec_config_map_names :: "InvokerDeploymentSpec \<Rightarrow> string set" where
  "spec_config_map_names spec = {getConfigMapName n | n se. se \<in> set (spec_entities spec) \<and> seName se = Some n}"

text \<open>No two entities and no two pods of the spec have the same name.\<close>

definition distinct_names :: "InvokerDeploymentSpec \<Rightarrow> bool" where
  "distinct_names spec \<longleftrightarrow>
     distinct (map seName (spec_entities spec)) \<and>
     distinct (concat (map (\<lambda>se. map pcName (entity_pods se)) (spec_entities spec)))"

lemma those_map_proj:
  assumes "those (map f xs) = Some ys" and "\<And>x y. x \<in> set xs \<Longrightarrow> f x = Some y \<Longrightarrow> g x = h y"
  shows "map g xs = map h ys"
  using assms by (auto simp: those_map_Some list_eq_iff_nth_eq)

lemma entityPods_names:
  assumes "only_owner_references E" and "entityPods E cr se = Some pods"
  shows "map pcName (entity_pods se) = map (Some \<circ> pod_name) pods"
proof -
  from assms(2) obtain name where "those (map (entityPod E cr (entity_labels cr name) se) (entity_pods se)) = Some pods"
    by (auto simp: entityPods_def entity_labels_def Let_def bind_eq_Some_conv)
  then show ?thesis by (rule those_map_proj) (simp add: entityPod_fields(1) [OF _ assms(1)])
qed

lemma desired_pod_names:
  assumes "only_owner_references E" and "getDesiredClusterState E (Some cr) = Some desired"
  shows "concat (map (\<lambda>se. map pcName (entity_pods se)) (spec_entities (crSpec cr))) =
    map (Some \<circ> pod_name) (desired_pods desired)"
proof -
  from desired_state_parts(2) [OF assms(2)] obtain podss where
    podss: "those (map (entityPods E cr) (spec_entities (crSpec cr))) = Some podss" "desired_pods desired = concat podss"
    by blast
  have "map (\<lambda>se. map pcName (entity_pods se)) (spec_entities (crSpec cr)) = map (map (Some \<circ> pod_name)) podss"
    by (rule those_map_proj [OF podss(1)]) (simp add: entityPods_names [OF assms(1)])
  then show ?thesis by (simp add: podss(2) map_concat)
qed

lemma entityConfigMap_meta:
  assumes "only_owner_references E" and "entityConfigMap E cr lbls se = Some cm"
  shows "seName se = Some (the (seName se))" and "cm_name cm = getConfigMapName (the (seName se))"
    and "omNamespace (cmMeta cm) = omNamespace (crMeta cr)"
  using assms(2) by (auto simp: entityConfigMap_def only_owner_references_fields [OF assms(1)] bind_eq_Some_conv Let_def)

lemma desired_cm_names:
  assumes "only_owner_references E" and "getDesiredClusterState E (Some cr) = Some desired"
  shows "map (\<lambda>se. getConfigMapName (the (seName se))) (spec_entities (crSpec cr)) =
    map cm_name (desired_cms desired)"
  by (rule those_map_proj [OF desired_state_parts(1) [OF assms(2)]]) (simp add: entityConfigMap_meta(2) [OF assms(1)])

lemma only_owner_references_deletion:
  assumes "only_owner_references E"
  shows "omDeletionTimestamp (eSetControllerReference E cr m) = omDeletionTimestamp m"
proof -
  from assms obtain refs where "eSetControllerReference E cr m = m\<lparr>omOwnerReferences := refs\<rparr>"
    unfolding only_owner_references_def by blast
  then show ?thesis by simp
qed

lemma desired_names:
  assumes owner: "only_owner_references E" and conv: "getDesiredClusterState E (Some cr) = Some desired"
  shows "pod_name ` set (desired_pods desired) = spec_pod_names (crSpec cr)"
    and "cm_name ` set (desired_cms desired) = spec_config_map_names (crSpec cr)"
proof -
  let ?es = "spec_entities (crSpec cr)"
  note pods = desired_pod_names [OF owner conv] and cms = desired_cm_names [OF owner conv]
  have named: "seName se = Some (the (seName se))" if "se \<in> set ?es" for se
    using those_map_memD(1) [OF desired_state_parts(1) [OF conv] that] entityConfigMap_meta(1) [OF owner] by blast
  show "pod_name ` set (desired_pods desired) = spec_pod_names (crSpec cr)"
  proof (rule set_eqI)
    fix n
    have "n \<in> pod_name ` set (desired_pods desired) \<longleftrightarrow> Some n \<in> set (map (Some \<circ> pod_name) (desired_pods desired))"
      by auto
    also have "\<dots> \<longleftrightarrow> (\<exists>se \<in> set ?es. Some n \<in> pcName ` set (entity_pods se))" by (simp flip: pods)
    also have "\<dots> \<longleftrightarrow> n \<in> spec_pod_names (crSpec cr)"
      unfolding spec_pod_names_def image_iff mem_Collect_eq by metis
    finally show "n \<in> pod_name ` set (desired_pods desired) \<longleftrightarrow> n \<in> spec_pod_names (crSpec cr)" .
  qed
  show "cm_name ` set (desired_cms desired) = spec_config_map_names (crSpec cr)"
  proof (rule set_eqI)
    fix n
    have "n \<in> cm_name ` set (desired_cms desired) \<longleftrightarrow> n \<in> set (map (\<lambda>se. getConfigMapName (the (seName se))) ?es)"
      by (simp add: cms)
    also have "\<dots> \<longleftrightarrow> n \<in> spec_config_map_names (crSpec cr)"
      unfolding spec_config_map_names_def set_map image_iff mem_Collect_eq using named by (metis option.sel)
    finally show "n \<in> cm_name ` set (desired_cms desired) \<longleftrightarrow> n \<in> spec_config_map_names (crSpec cr)" .
  qed
qed

text \<open>The pods of the spec, each with the name of its entity.\<close>

definition spec_pods :: "InvokerDeploymentSpec \<Rightarrow> (string \<times> string) set" where
  "spec_pods spec = {(n, m). \<exists>se pc. se \<in> set (spec_entities spec) \<and> seName se = Some n \<and>
     pc \<in> set (entity_pods se) \<and> pcName pc = Some m}"

lemma entityPod_position:
  assumes "only_owner_references E" and "entityPod E cr (entity_labels cr name) se pc = Some p"
  shows "entity_label p = name" and "pcName pc = Some (pod_name p)"
  using entityPod_fields(1,3) [OF assms(2,1)] by (simp_all add: entity_label_def entity_labels_def index_string_def)

lemma desired_positions:
  assumes owner: "only_owner_references E" and conv: "getDesiredClusterState E (Some cr) = Some desired"
  shows "(\<lambda>p. (entity_label p, pod_name p)) ` set (desired_pods desired) = spec_pods (crSpec cr)"
proof (intro equalityI subsetI)
  fix x assume "x \<in> (\<lambda>p. (entity_label p, pod_name p)) ` set (desired_pods desired)"
  then obtain p where p: "p \<in> set (desired_pods desired)" and x: "x = (entity_label p, pod_name p)" by blast
  from desired_pods_cases [OF conv p] obtain se name pc where "se \<in> set (spec_entities (crSpec cr))"
    "seName se = Some name" "pc \<in> set (entity_pods se)" "entityPod E cr (entity_labels cr name) se pc = Some p" .
  with entityPod_position [OF owner this(4)] show "x \<in> spec_pods (crSpec cr)"
    unfolding spec_pods_def x by blast
next
  fix x assume "x \<in> spec_pods (crSpec cr)"
  then obtain se pc n m where se: "se \<in> set (spec_entities (crSpec cr))" "seName se = Some n"
    and pc: "pc \<in> set (entity_pods se)" "pcName pc = Some m" and x: "x = (n, m)"
    unfolding spec_pods_def by blast
  from desired_state_parts(2) [OF conv] obtain podss where
    podss: "those (map (entityPods E cr) (spec_entities (crSpec cr))) = Some podss" "desired_pods desired = concat podss"
    by blast
  from those_map_memD(1) [OF podss(1) se(1)] obtain pods where pods: "pods \<in> set podss" "entityPods E cr se = Some pods"
    by blast
  from pc(1) obtain i where i: "i < length (entity_pods se)" "entity_pods se ! i = pc" by (auto simp: in_set_conv_nth)
  with entityPods_member [OF pods(2)] se(2) have "length pods = length (entity_pods se)"
    and pod: "entityPod E cr (entity_labels cr n) se pc = Some (pods ! i)" by auto
  with i have "pods ! i \<in> set pods" by simp
  with pods(1) have "pods ! i \<in> set (desired_pods desired)" by (auto simp: podss(2))
  moreover have "x = (entity_label (pods ! i), pod_name (pods ! i))"
    using entityPod_position [OF owner pod] pc(2) by (simp add: x)
  ultimately show "x \<in> (\<lambda>p. (entity_label p, pod_name p)) ` set (desired_pods desired)" by blast
qed

text \<open>What is true of every desired state of a spec without duplicate names.\<close>

definition well_formed :: "InvokerDeployment \<Rightarrow> DesiredInvokerDeploymentState \<Rightarrow> bool" where
  "well_formed cr desired \<longleftrightarrow>
     distinct (map pod_name (desired_pods desired)) \<and> distinct (map cm_name (desired_cms desired)) \<and>
     pod_name ` set (desired_pods desired) = spec_pod_names (crSpec cr) \<and>
     cm_name ` set (desired_cms desired) = spec_config_map_names (crSpec cr) \<and>
     (\<forall>d \<in> set (desired_pods desired). omNamespace (podMeta d) = omNamespace (crMeta cr) \<and>
        omDeletionTimestamp (podMeta d) = None) \<and>
     (\<forall>d \<in> set (desired_cms desired). omNamespace (cmMeta d) = omNamespace (crMeta cr) \<and>
        omDeletionTimestamp (cmMeta d) = None)"

lemma converter_well_formed:
  assumes owner: "only_owner_references E" and conv: "getDesiredClusterState E (Some cr) = Some desired"
    and names: "distinct_names (crSpec cr)"
  shows "well_formed cr desired"
proof -
  let ?es = "spec_entities (crSpec cr)" and ?lbls = "fmupd ''type'' ''statefulEntity'' (labels cr)"
  note pods = desired_pod_names [OF owner conv] and cms = desired_cm_names [OF owner conv]
  note entity = those_map_memD [OF desired_state_parts(1) [OF conv]]
  have named: "seName se = Some (the (seName se))" if "se \<in> set ?es" for se
    using entity(1) [OF that] entityConfigMap_meta(1) [OF owner] by blast
  have "distinct (map (Some \<circ> pod_name) (desired_pods desired))"
    using names by (simp add: distinct_names_def pods)
  then have 1: "distinct (map pod_name (desired_pods desired))" by (simp add: distinct_map inj_on_def)
  have "distinct (map seName ?es)" using names by (simp add: distinct_names_def)
  moreover have "map seName ?es = map (Some \<circ> (the \<circ> seName)) ?es" using named by simp
  ultimately have "distinct (map (Some \<circ> (the \<circ> seName)) ?es)" by simp
  then have "distinct (map (\<lambda>se. getConfigMapName (the (seName se))) ?es)"
    by (auto simp: distinct_map inj_on_def getConfigMapName_def)
  then have 2: "distinct (map cm_name (desired_cms desired))" by (simp add: cms)
  note 34 = desired_names [OF owner conv]
  have 5: "omNamespace (podMeta d) = omNamespace (crMeta cr) \<and> omDeletionTimestamp (podMeta d) = None"
    if d: "d \<in> set (desired_pods desired)" for d
  proof -
    obtain se name pc where pod: "entityPod E cr (entity_labels cr name) se pc = Some d"
      using desired_pods_cases [OF conv d] by metis
    then have "omDeletionTimestamp (podMeta d) = None"
      by (auto simp: entityPod_def bind_eq_Some_conv only_owner_references_deletion [OF owner] zero_meta_def)
    with entityPod_fields(2) [OF pod owner] show ?thesis by simp
  qed
  have 6: "omNamespace (cmMeta d) = omNamespace (crMeta cr) \<and> omDeletionTimestamp (cmMeta d) = None"
    if d: "d \<in> set (desired_cms desired)" for d
  proof -
    obtain se where se: "entityConfigMap E cr ?lbls se = Some d" using entity(2) [OF d] by blast
    then have "omDeletionTimestamp (cmMeta d) = None"
      by (auto simp: entityConfigMap_def bind_eq_Some_conv Let_def only_owner_references_deletion [OF owner] zero_meta_def)
    with entityConfigMap_meta(3) [OF owner se] show ?thesis by simp
  qed
  from 1 2 34 5 6 show ?thesis by (simp add: well_formed_def)
qed


subsection \<open>What the reads promise\<close>

locale labelled_store = object_store E live
  for E :: "'s env" and live :: "'s \<Rightarrow> key set" +
  fixes good :: "'s \<Rightarrow> bool"
  assumes get_cr: "good s \<Longrightarrow> sGetCR E ns n s = (r, s') \<Longrightarrow> good s' \<and> live s' = live s"
    and get_cr_namespace: "good s \<Longrightarrow> sGetCR E ns n s = (Inr cr, s') \<Longrightarrow> omNamespace (crMeta cr) = ns"
    and get_secret: "good s \<Longrightarrow> sGetSecret E ns n s = (sec, s') \<Longrightarrow> good s' \<and> live s' = live s"
    and list_config_maps: "good s \<Longrightarrow> sListConfigMaps E sel ns s = (cms, s') \<Longrightarrow> good s' \<and> live s' = live s"
    and listed_config_map: "good s \<Longrightarrow> sListConfigMaps E sel ns s = (Inr xs, s') \<Longrightarrow> x \<in> set xs \<Longrightarrow>
      omNamespace (cmMeta x) = ns \<and> (''ConfigMap'', ns, cm_name x) \<in> live s"
    and list_pods: "good s \<Longrightarrow> sListPods E sel ns s = (pods, s') \<Longrightarrow> good s' \<and> live s' = live s"
    and listed_pod: "good s \<Longrightarrow> sListPods E sel ns s = (Inr ps, s') \<Longrightarrow> p \<in> set ps \<Longrightarrow>
      omNamespace (podMeta p) = ns \<and> (''Pod'', ns, pod_name p) \<in> live s"
    and list_revisions: "good s \<Longrightarrow> sListRevisions E sel ns s = (rs, s') \<Longrightarrow> good s' \<and> live s' = live s"
    and clock: "good s \<Longrightarrow> sNow E s = (t, s') \<Longrightarrow> good s' \<and> live s' = live s"
begin

text \<open>A stage that went well: what it stored and what it left of the server.\<close>

lemma stage_cases:
  assumes "run_state (observe_stage (api c f) store observed) w = ((None, observed'), w')"
  obtains (missing) e where "f (wServer w) = (Inl e, wServer w')" "observed' = observed"
    | (stored) x where "f (wServer w) = (Inr x, wServer w')" "observed' = store x observed"
proof (cases "fst (f (wServer w))")
  case (Inl e)
  with assms missing show thesis by (cases "f (wServer w)") (auto simp: run_observe_stage)
next
  case (Inr x)
  with assms stored show thesis by (cases "f (wServer w)") (auto simp: run_observe_stage)
qed

text \<open>What an observation that found the resource shows is on the server.\<close>

lemma observe_accurate:
  assumes good: "good (wServer w)" and run: "run_state (observe E req zero_observed) w = ((None, observed), v)"
    and cr: "obCR observed = Some cr"
  obtains cms pods where "obConfigMaps observed = index_config_maps cms"
    and "obStatefulEntities observed = group_pods pods fmempty"
    and "\<And>x. x \<in> set cms \<Longrightarrow> omNamespace (cmMeta x) = rqNamespace req \<and> (''ConfigMap'', rqNamespace req, cm_name x) \<in> live (wServer w)"
    and "\<And>p. p \<in> set pods \<Longrightarrow> omNamespace (podMeta p) = rqNamespace req \<and> (''Pod'', rqNamespace req, pod_name p) \<in> live (wServer w)"
    and "omNamespace (crMeta cr) = rqNamespace req" and "live (wServer v) = live (wServer w)"
    and "good (wServer v)"
    and "\<exists>stored s' name. sGetCR E (rqNamespace req) (rqName req) (wServer w) = (Inr stored, s') \<and> cr = set_next stored name"
proof -
  obtain o1 w1 where 1: "run_state (observe_stage (observeSpec E req)
      (\<lambda>cr. obCR_update (\<lambda>_. Some cr)) zero_observed) w = ((None, o1), w1)"
    using run by (auto simp: observe_def split: prod.splits if_splits)
  have "obCR o1 \<noteq> None" using run cr by (auto simp: observe_def 1 split: option.splits)
  with 1 obtain cr1 where cr1: "sGetCR E (rqNamespace req) (rqName req) (wServer w) = (Inr cr1, wServer w1)"
    and o1: "o1 = zero_observed\<lparr>obCR := Some cr1\<rparr>"
    unfolding observe_read_api by (cases rule: stage_cases) (auto simp: zero_observed_def)
  have "\<exists>o2 o3 o4 o5 w2 w3 w4 w5 t name.
      run_state (observe_stage (observeSecret E req) (\<lambda>s. obSecret_update (\<lambda>_. Some s)) o1) w1 = ((None, o2), w2) \<and>
      run_state (observe_stage (observeConfigMaps E req)
        (\<lambda>cms. obConfigMaps_update (\<lambda>_. index_config_maps cms)) o2) w2 = ((None, o3), w3) \<and>
      run_state (observe_stage (observeStatefulEntities E req)
        (\<lambda>pods. obStatefulEntities_update (\<lambda>_. group_pods pods fmempty)) o3) w3 = ((None, o4), w4) \<and>
      run_state (time_now E) w4 = (t, w5) \<and>
      run_state (observe_stage (observeRevisions E req)
        (\<lambda>rs. obRevisions_update (\<lambda>old. old @ rs)) (o4\<lparr>obObserveTime := Some t\<rparr>)) w5 = ((None, o5), v) \<and>
      observed = o5\<lparr>obCR := Some (set_next cr1 name)\<rparr>"
    using run by (auto simp: observe_def 1 o1 Let_def set_next_def split: prod.splits if_splits sum.splits)
  then obtain o2 o3 o4 o5 w2 w3 w4 w5 t name where
    2: "run_state (observe_stage (observeSecret E req) (\<lambda>s. obSecret_update (\<lambda>_. Some s)) o1) w1 = ((None, o2), w2)" and
    3: "run_state (observe_stage (observeConfigMaps E req)
        (\<lambda>cms. obConfigMaps_update (\<lambda>_. index_config_maps cms)) o2) w2 = ((None, o3), w3)" and
    4: "run_state (observe_stage (observeStatefulEntities E req)
        (\<lambda>pods. obStatefulEntities_update (\<lambda>_. group_pods pods fmempty)) o3) w3 = ((None, o4), w4)" and
    now: "run_state (time_now E) w4 = (t, w5)" and
    5: "run_state (observe_stage (observeRevisions E req)
        (\<lambda>rs. obRevisions_update (\<lambda>old. old @ rs)) (o4\<lparr>obObserveTime := Some t\<rparr>)) w5 = ((None, o5), v)" and
    obs: "observed = o5\<lparr>obCR := Some (set_next cr1 name)\<rparr>"
    by blast
  have s1: "good (wServer w1)" "live (wServer w1) = live (wServer w)"
    using get_cr [OF good cr1] by simp_all
  have s2: "good (wServer w2)" "live (wServer w2) = live (wServer w)"
    "obConfigMaps o2 = index_config_maps []" "obStatefulEntities o2 = group_pods [] fmempty"
    using 2 s1 unfolding observe_read_api
    by (cases rule: stage_cases; auto dest: get_secret simp: o1 zero_observed_def index_config_maps_def)+
  obtain cms where s3: "good (wServer w3)" "live (wServer w3) = live (wServer w)"
    "obConfigMaps o3 = index_config_maps cms" "obStatefulEntities o3 = group_pods [] fmempty"
    and cms: "\<And>x. x \<in> set cms \<Longrightarrow> omNamespace (cmMeta x) = rqNamespace req \<and> (''ConfigMap'', rqNamespace req, cm_name x) \<in> live (wServer w)"
    using 3 unfolding observe_read_api
  proof (cases rule: stage_cases)
    case (missing e)
    from list_config_maps [OF s2(1) missing(1)] missing(2) s2 show thesis by (intro that [of "[]"]) simp_all
  next
    case (stored xs)
    from list_config_maps [OF s2(1) stored(1)] listed_config_map [OF s2(1) stored(1)] stored(2) s2
    show thesis by (intro that [of xs]) simp_all
  qed
  obtain pods where s4: "good (wServer w4)" "live (wServer w4) = live (wServer w)"
    "obConfigMaps o4 = index_config_maps cms" "obStatefulEntities o4 = group_pods pods fmempty"
    and pods: "\<And>p. p \<in> set pods \<Longrightarrow> omNamespace (podMeta p) = rqNamespace req \<and> (''Pod'', rqNamespace req, pod_name p) \<in> live (wServer w)"
    using 4 unfolding observe_read_api
  proof (cases rule: stage_cases)
    case (missing e)
    from list_pods [OF s3(1) missing(1)] missing(2) s3 show thesis by (intro that [of "[]"]) simp_all
  next
    case (stored xs)
    from list_pods [OF s3(1) stored(1)] listed_pod [OF s3(1) stored(1)] stored(2) s3
    show thesis by (intro that [of xs]) simp_all
  qed
  have s5: "good (wServer w5)" "live (wServer w5) = live (wServer w)"
    using clock [OF s4(1)] now s4(2) by (auto simp: time_now_def prod_eq_iff)
  have s6: "live (wServer v) = live (wServer w)" "good (wServer v)" "obConfigMaps o5 = index_config_maps cms"
    "obStatefulEntities o5 = group_pods pods fmempty"
    using 5 s4 s5 unfolding observe_read_api by (cases rule: stage_cases; auto dest: list_revisions)+
  from cr have named: "cr = set_next cr1 name" by (simp add: obs)
  then have ns: "omNamespace (crMeta cr) = rqNamespace req"
    using get_cr_namespace [OF good cr1] by (simp add: set_next_def)
  show thesis
  proof (rule that [OF _ _ cms pods ns s6(1,2)])
    show "obConfigMaps observed = index_config_maps cms" "obStatefulEntities observed = group_pods pods fmempty"
      using s6 by (simp_all add: obs)
    show "\<exists>stored s' name. sGetCR E (rqNamespace req) (rqName req) (wServer w) = (Inr stored, s') \<and> cr = set_next stored name"
      using cr1 named by blast
  qed
qed

end


subsection \<open>The in-memory server\<close>

text \<open>The invariant of the store: every object is under its key.\<close>

definition well_keyed :: "store \<Rightarrow> bool" where
  "well_keyed st \<longleftrightarrow> fmpred (\<lambda>k ob. object_key ob = k) st"

lemma mem_list_member:
  assumes "well_keyed st" and "mem_list sel selector ns st = (Inr xs, st')" and "x \<in> set xs"
  obtains ob where "sel ob = Some x" "omNamespace (object_meta ob) = ns" "object_key ob \<in> fset (fmdom st)"
proof -
  from assms(2,3) obtain k where "(case fmlookup st k of None \<Rightarrow> None | Some ob \<Rightarrow>
      if omNamespace (object_meta ob) = ns \<and> matches_labels selector (omLabels (object_meta ob)) then sel ob else None) =
      Some x"
    by (auto simp: mem_list_def set_map_filter)
  then obtain ob where "fmlookup st k = Some ob" "sel ob = Some x" "omNamespace (object_meta ob) = ns"
    by (auto split: option.splits if_splits)
  moreover from this assms(1) have "object_key ob = k"
    by (simp add: well_keyed_def fmpred_iff del: split_paired_All)
  ultimately show thesis by (intro that [of ob]) (auto dest: fmdomI)
qed

lemma mem_list_store: "mem_list sel selector ns st = (r, st') \<Longrightarrow> st' = st"
  by (simp add: mem_list_def)

lemma mem_get_store: "mem_get kind sel ns name st = (r, st') \<Longrightarrow> st' = st"
  by (auto simp: mem_get_def split: option.splits)

interpretation mem_labelled: labelled_store mem_env "\<lambda>st. fset (fmdom st)" well_keyed
proof
  fix st st' :: store and ns n r
  assume "sGetCR mem_env ns n st = (r, st')" and "well_keyed st"
  then show "well_keyed st' \<and> fset (fmdom st') = fset (fmdom st)"
    by (auto simp: mem_env_def dest: mem_get_store)
next
  fix st st' :: store and ns n cr
  assume "sGetCR mem_env ns n st = (Inr cr, st')" and "well_keyed st"
  then have "fmlookup st (''InvokerDeployment'', ns, n) = Some (ObjCR cr)"
    by (auto simp: mem_env_def mem_get_def as_object_iff bind_eq_Some_conv split: option.splits)
  with \<open>well_keyed st\<close> have "object_key (ObjCR cr) = (''InvokerDeployment'', ns, n)"
    by (auto simp: well_keyed_def fmpred_iff)
  then show "omNamespace (crMeta cr) = ns" by (simp add: object_key_def)
next
  fix st st' :: store and ns n sec
  assume "sGetSecret mem_env ns n st = (sec, st')" and "well_keyed st"
  then show "well_keyed st' \<and> fset (fmdom st') = fset (fmdom st)"
    by (auto simp: mem_env_def dest: mem_get_store)
next
  fix st st' :: store and sel ns cms
  assume "sListConfigMaps mem_env sel ns st = (cms, st')" and "well_keyed st"
  then show "well_keyed st' \<and> fset (fmdom st') = fset (fmdom st)"
    by (auto simp: mem_env_def dest: mem_list_store)
next
  fix st st' :: store and sel ns xs x
  assume "sListConfigMaps mem_env sel ns st = (Inr xs, st')" and "well_keyed st" and "x \<in> set xs"
  then show "omNamespace (cmMeta x) = ns \<and> (''ConfigMap'', ns, cm_name x) \<in> fset (fmdom st)"
    by (elim mem_list_member [where sel = as_config_map])
      (auto simp: mem_env_def as_object_iff object_key_def)
next
  fix st st' :: store and sel ns pods
  assume "sListPods mem_env sel ns st = (pods, st')" and "well_keyed st"
  then show "well_keyed st' \<and> fset (fmdom st') = fset (fmdom st)"
    by (auto simp: mem_env_def dest: mem_list_store)
next
  fix st st' :: store and sel ns ps p
  assume "sListPods mem_env sel ns st = (Inr ps, st')" and "well_keyed st" and "p \<in> set ps"
  then show "omNamespace (podMeta p) = ns \<and> (''Pod'', ns, pod_name p) \<in> fset (fmdom st)"
    by (elim mem_list_member [where sel = as_pod])
      (auto simp: mem_env_def as_object_iff object_key_def)
next
  fix st st' :: store and sel ns rs
  assume "sListRevisions mem_env sel ns st = (rs, st')" and "well_keyed st"
  then show "well_keyed st' \<and> fset (fmdom st') = fset (fmdom st)"
    by (auto simp: mem_env_def dest: mem_list_store)
next
  fix st st' :: store and t
  assume "sNow mem_env st = (t, st')" and "well_keyed st"
  then show "well_keyed st' \<and> fset (fmdom st') = fset (fmdom st)" by (simp add: mem_env_def)
qed

lemma spec_on_server:
  assumes store: "labelled_store E live good" and owner: "only_owner_references E" and range: "range_ok E"
    and good: "good (wServer w)"
    and observe: "run_state (observe E req zero_observed) w = ((None, observed), v)"
    and cr: "obCR observed = Some cr" and conv: "getDesiredClusterState E (Some cr) = Some desired"
    and names: "distinct_names (crSpec cr)" and quiet: "live (wServer v') = live (wServer v)"
    and run: "run_state (reconcileResources E observed desired) v' = ((res, None), w')"
  shows "names_of ''Pod'' (rqNamespace req) (live (wServer w')) =
      (spec_pod_names (crSpec cr) - restarted_names cr observed desired) \<union>
      (names_of ''Pod'' (rqNamespace req) (live (wServer w)) - observed_pod_names observed) \<and>
    names_of ''ConfigMap'' (rqNamespace req) (live (wServer w')) =
      spec_config_map_names (crSpec cr) \<union>
      (names_of ''ConfigMap'' (rqNamespace req) (live (wServer w)) - fset (fmdom (obConfigMaps observed)))"
proof -
  obtain cms pods where obs: "obConfigMaps observed = index_config_maps cms"
      "obStatefulEntities observed = group_pods pods fmempty"
    and cms: "\<And>x. x \<in> set cms \<Longrightarrow> omNamespace (cmMeta x) = rqNamespace req \<and>
      (''ConfigMap'', rqNamespace req, cm_name x) \<in> live (wServer w)"
    and pods: "\<And>p. p \<in> set pods \<Longrightarrow> omNamespace (podMeta p) = rqNamespace req \<and>
      (''Pod'', rqNamespace req, pod_name p) \<in> live (wServer w)"
    and ns: "omNamespace (crMeta cr) = rqNamespace req" and same: "live (wServer v) = live (wServer w)"
    by (rule labelled_store.observe_accurate [OF store good observe cr]) (rule that; blast)
  note wf = converter_well_formed [OF owner conv names, unfolded well_formed_def ns]
  have "well_observed live (rqNamespace req) (wServer v') observed desired"
  proof -
    have p: "omNamespace (podMeta p) = rqNamespace req" "n \<in> names_of ''Pod'' (rqNamespace req) (live (wServer v'))"
      if "observed_pod (obStatefulEntities observed) se n = Some p" for se n p
      using observed_pod_in_list [of pods se n p] pods [of p] that by (auto simp: obs names_of_def quiet same)
    have c: "omNamespace (cmMeta x) = rqNamespace req" "n \<in> names_of ''ConfigMap'' (rqNamespace req) (live (wServer v'))"
      if "fmlookup (obConfigMaps observed) n = Some x" for n x
      using fmlookup_insert_all_SomeD [OF that [unfolded obs index_config_maps_def]] cms [of x]
      by (auto simp: names_of_def quiet same)
    have "keyed_by_name observed" by (rule keyed_by_name_indexed [OF obs(2,1)])
    moreover have "placed_in (rqNamespace req) observed desired"
      unfolding placed_in_def using wf p(1) c(1) by blast
    moreover have "observed_pod_names observed \<subseteq> names_of ''Pod'' (rqNamespace req) (live (wServer v'))"
      unfolding observed_pod_names_def using p(2) by blast
    moreover have "fset (fmdom (obConfigMaps observed)) \<subseteq> names_of ''ConfigMap'' (rqNamespace req) (live (wServer v'))"
      using c(2) by (auto simp: fmlookup_dom_iff)
    ultimately show ?thesis unfolding well_observed_def well_planned_def using wf by blast
  qed
  moreover have "object_store E live" using store by (simp add: labelled_store_def)
  ultimately show ?thesis
    using reconcile_on_server [OF _ range cr _ run, of live "rqNamespace req"] wf
    by (simp add: quiet same)
qed

subsection \<open>Properties\<close>

text \<open>
  C7: The desired state is well formed: for a spec without duplicate names of entities and pods,
  the converter's pods and config maps have distinct names, exactly the pod names of the spec and
  one config map name per entity, lie in the namespace of the resource, and are not marked for
  deletion.
\<close>

theorem desired_state_well_formed:
  assumes "only_owner_references E" and "getDesiredClusterState E (Some cr) = Some desired"
    and "distinct_names (crSpec cr)"
  shows "well_formed cr desired"
  by (rule converter_well_formed [OF assms])

theorem desired_state_well_formed_witness: "well_formed demo_cr demo_converted"
proof -
  have "distinct_names (crSpec demo_cr)" by code_simp
  from desired_state_well_formed [OF only_owner_references_mem_env demo_conversion this] show ?thesis .
qed

text \<open>
  C1: From the spec to the server: when the operator observes a server that keeps its promises,
  converts the spec it read and reconciles without error, and nobody else writes meanwhile, then
  the namespace holds the pods of the spec, but for those deleted for a restart, one config map
  per entity, and whatever the observation did not list; nothing else.
\<close>

theorem spec_reaches_server:
  assumes store: "labelled_store E live good" and owner: "only_owner_references E" and range: "range_ok E"
    and good: "good (wServer w)"
    and observe: "run_state (observe E req zero_observed) w = ((None, observed), v)"
    and cr: "obCR observed = Some cr" and conv: "getDesiredClusterState E (Some cr) = Some desired"
    and names: "distinct_names (crSpec cr)" and quiet: "live (wServer v') = live (wServer v)"
    and run: "run_state (reconcileResources E observed desired) v' = ((res, None), w')"
  shows "names_of ''Pod'' (rqNamespace req) (live (wServer w')) =
      (spec_pod_names (crSpec cr) - restarted_names cr observed desired) \<union>
      (names_of ''Pod'' (rqNamespace req) (live (wServer w)) - observed_pod_names observed) \<and>
    names_of ''ConfigMap'' (rqNamespace req) (live (wServer w')) =
      spec_config_map_names (crSpec cr) \<union>
      (names_of ''ConfigMap'' (rqNamespace req) (live (wServer w)) - fset (fmdom (obConfigMaps observed)))"
  by (rule spec_on_server [OF assms])

text \<open>
  C21: The desired state is a fixed point of observing, converting and reconciling: when the server
  lists one config map per entity of the spec and one pod per pod of the spec, under its entity's
  label, and the current revision is that of the spec, then the whole pass makes the five reads
  and writes the observed status back; no object is created, updated or deleted.
\<close>

theorem desired_state_fixed_point:
  assumes owner: "only_owner_references E"
    and answers: "server_answers E req (wServer w) = (a, s')" "anCR a = Inr cr"
    and cms: "cm_name ` set (listed (anConfigMaps a)) = spec_config_map_names (crSpec cr)"
    and pods: "distinct (map pod_name (listed (anPods a)))"
      "(\<lambda>p. (entity_label p, pod_name p)) ` set (listed (anPods a)) = spec_pods (crSpec cr)"
    and revision: "marshalSpec (eQuantityJSON E) (crSpec cr) = Inr bs" "stCurrentRevision (crStatus cr) = revision_name cr bs"
    and observe: "run_state (observe E req zero_observed) w = ((None, observed), v)"
    and conv: "getDesiredClusterState E (obCR observed) = Some desired"
    and run: "run_state (reconcileResources E observed desired) v = ((res, err), w')"
  shows "wTrace w' = wTrace w @ observe_calls req @ [StatusUpdateCall (set_next cr (revision_name cr bs))] \<and>
    res = zero_result"
proof -
  let ?cr = "set_next cr (revision_name cr bs)"
  from observe_shows [OF observe answers] revision(1) have obs: "observed = shown a cr (revision_name cr bs)"
    and v: "wTrace v = wTrace w @ observe_calls req" by auto
  have cr: "obCR observed = Some ?cr" and spec: "crSpec ?cr = crSpec cr"
    by (simp_all add: obs shown_def set_next_def)
  note conv = conv [unfolded cr]
  have "in_sync ?cr observed desired"
  proof (rule same_names_in_sync [OF _ _ _ pods(1)])
    show "obConfigMaps observed = index_config_maps (listed (anConfigMaps a))"
      and "obStatefulEntities observed = group_pods (listed (anPods a)) fmempty"
      by (simp_all add: obs shown_def)
    show "cm_name ` set (listed (anConfigMaps a)) = cm_name ` set (desired_cms desired)"
      using desired_names(2) [OF owner conv] by (simp add: cms spec)
    show "(\<lambda>p. (entity_label p, pod_name p)) ` set (listed (anPods a)) =
        (\<lambda>p. (entity_label p, pod_name p)) ` set (desired_pods desired)"
      using desired_positions [OF owner conv] by (simp add: pods(2) spec)
    show "stCurrentRevision (crStatus ?cr) = stNextRevision (crStatus ?cr)"
      using revision(2) by (simp add: set_next_def)
  qed
  from in_sync_run [OF cr this run] show ?thesis by (simp add: v)
qed

text \<open>The demo resource with its promoted revision, and its objects as the server keeps them.\<close>

definition settled_cr :: "string \<Rightarrow> InvokerDeployment" where
  "settled_cr name = demo_cr\<lparr>crStatus := zero_status\<lparr>stCurrentRevision := name\<rparr>\<rparr>"

definition settled_store :: "string \<Rightarrow> store" where
  "settled_store name = fold put (ObjCR (settled_cr name) # map ObjConfigMap (desired_cms demo_converted)
     @ map (\<lambda>p. ObjPod (p\<lparr>podPhase := ''Running''\<rparr>)) (desired_pods demo_converted)) fmempty"

lemma settled_answers:
  "anCR (fst (server_answers mem_env demo_request (settled_store name))) = Inr (settled_cr name)"
  "cm_name ` set (listed (anConfigMaps (fst (server_answers mem_env demo_request (settled_store name))))) =
     {''sum-configmap''}"
  "map (\<lambda>p. (entity_label p, pod_name p))
     (listed (anPods (fst (server_answers mem_env demo_request (settled_store name))))) = [(''sum'', ''sum-0'')]"
  by code_simp+

text \<open>The status does not matter to the converter.\<close>

lemma mem_conversion:
  assumes "cr = demo_cr\<lparr>crStatus := st\<rparr>"
  shows "getDesiredClusterState mem_env (Some cr) = Some demo_converted"
proof -
  have owner: "eSetControllerReference mem_env cr = eSetControllerReference mem_env demo_cr"
    by (rule ext) (simp add: mem_env_def set_controller_reference_def controller_ref_def assms)
  have keeps: "crMeta cr = crMeta demo_cr" "crSpec cr = crSpec demo_cr" "labels cr = labels demo_cr"
    by (simp_all add: assms labels_def)
  have "entityConfigMap mem_env cr = entityConfigMap mem_env demo_cr"
    by (intro ext) (simp add: entityConfigMap_def owner keeps)
  moreover have pod: "entityPod mem_env cr = entityPod mem_env demo_cr"
    by (intro ext) (simp add: entityPod_def owner keeps)
  moreover have "entityPods mem_env cr = entityPods mem_env demo_cr"
    by (intro ext) (simp add: entityPods_def pod keeps)
  moreover have "getDesiredSecret mem_env cr = getDesiredSecret mem_env demo_cr"
    by (simp add: getDesiredSecret_def owner keeps)
  ultimately have "getDesiredClusterState mem_env (Some cr) = getDesiredClusterState mem_env (Some demo_cr)"
    by (simp add: getDesiredClusterState_def getDesiredConfigMaps_def getDesiredStatefulEntities_def keeps)
  then show ?thesis by (simp add: demo_conversion)
qed

lemma named_conversion: "getDesiredClusterState mem_env (Some (set_next demo_cr name)) = Some demo_converted"
  by (rule mem_conversion) (simp add: set_next_def)

lemma demo_spec_parts:
  "spec_config_map_names demo_spec = {''sum-configmap''}" "spec_pods demo_spec = {(''sum'', ''sum-0'')}"
  by (auto simp: spec_config_map_names_def spec_pods_def demo_spec_def demo_entity_def getConfigMapName_def)

theorem desired_state_fixed_point_witness:
  "\<exists>observed v w'. let name = revision_name demo_cr demo_text in
     run_state (observe mem_env demo_request zero_observed) (start_world (settled_store name)) = ((None, observed), v) \<and>
     snd (run_state (reconcileResources mem_env observed demo_converted) v) = w' \<and>
     wTrace w' = observe_calls demo_request @ [StatusUpdateCall (set_next (settled_cr name) name)]"
proof -
  let ?name = "revision_name demo_cr demo_text"
  let ?w = "start_world (settled_store ?name)" and ?a = "fst (server_answers mem_env demo_request (settled_store ?name))"
  have cr: "crSpec (settled_cr ?name) = demo_spec" "revision_name (settled_cr ?name) demo_text = ?name"
    "stCurrentRevision (crStatus (settled_cr ?name)) = ?name"
    by (simp_all add: settled_cr_def demo_cr_def)
  have spec: "marshalSpec (eQuantityJSON mem_env) (crSpec (settled_cr ?name)) = Inr demo_text"
    using demo_marshal by (simp add: cr mem_env_quantities)
  have answers: "server_answers mem_env demo_request (wServer ?w) =
      (?a, snd (server_answers mem_env demo_request (settled_store ?name)))"
    by (simp add: start_world_def)
  have "fst (sGetCR mem_env (rqNamespace demo_request) (rqName demo_request) (wServer ?w)) = Inr (settled_cr ?name)"
    using settled_answers(1) [of ?name] by (simp add: server_answers_def Let_def start_world_def split: prod.splits)
  from mem_observe [OF this spec [unfolded mem_env_quantities]] obtain observed v where
    observe: "run_state (observe mem_env demo_request zero_observed) ?w = ((None, observed), v)"
    and obs: "obCR observed = Some (set_next (settled_cr ?name) ?name)" unfolding cr by blast
  have conv: "getDesiredClusterState mem_env (obCR observed) = Some demo_converted"
    unfolding obs by (rule mem_conversion) (simp add: set_next_def settled_cr_def)
  obtain res err w' where run: "run_state (reconcileResources mem_env observed demo_converted) v = ((res, err), w')"
    by (metis prod.collapse)
  have listed: "map (\<lambda>p. (entity_label p, pod_name p)) (listed (anPods ?a)) = [(''sum'', ''sum-0'')]"
    by (rule settled_answers(3))
  then have "map snd (map (\<lambda>p. (entity_label p, pod_name p)) (listed (anPods ?a))) = [''sum-0'']" by simp
  then have names: "distinct (map pod_name (listed (anPods ?a)))" by (simp add: comp_def)
  have positions: "(\<lambda>p. (entity_label p, pod_name p)) ` set (listed (anPods ?a)) = spec_pods (crSpec (settled_cr ?name))"
    using arg_cong [OF listed, of set] by (simp add: cr demo_spec_parts)
  have cms: "cm_name ` set (listed (anConfigMaps ?a)) = spec_config_map_names (crSpec (settled_cr ?name))"
    using settled_answers(2) [of ?name] by (simp add: cr demo_spec_parts)
  have "stCurrentRevision (crStatus (settled_cr ?name)) = revision_name (settled_cr ?name) demo_text" by (simp add: cr)
  from desired_state_fixed_point [OF only_owner_references_mem_env answers settled_answers(1) cms names positions
      spec this observe conv run]
  have "wTrace w' = observe_calls demo_request @ [StatusUpdateCall (set_next (settled_cr ?name) ?name)]"
    by (simp add: start_world_def cr)
  with observe run show ?thesis unfolding Let_def by (intro exI [of _ observed] exI [of _ v] exI [of _ w']) simp
qed

text \<open>
  The demo resource, a labelled pod the spec does not have, and a pod and a config map without
  labels.
\<close>

definition cluster_store :: store where
  "cluster_store = fold put [ObjCR demo_cr, ObjPod (demo_pod ''sum'' ''old-0'' ''Running''), ObjPod unlabelled_pod,
     ObjConfigMap (demo_config_map ''old-configmap'')] fmempty"

lemma cluster_well_keyed: "well_keyed cluster_store"
  by code_simp

definition named_observed :: "string \<Rightarrow> ObservedInvokerDeploymentState" where
  "named_observed name = zero_observed\<lparr>obCR := Some (set_next demo_cr name),
     obStatefulEntities := group_pods [demo_pod ''sum'' ''old-0'' ''Running''] fmempty\<rparr>"

lemma named_run:
  "fst (run_state (reconcileResources mem_env (named_observed name) demo_converted) (start_world cluster_store)) =
     (zero_result, None)"
  by code_simp

lemma cluster_observe:
  obtains observed v where "run_state (observe mem_env demo_request zero_observed) (start_world cluster_store) =
      ((None, observed), v)"
    and "obCR observed = Some (set_next demo_cr (revision_name demo_cr demo_text))"
    and "wServer v = cluster_store"
    and "reconcileResources mem_env observed = reconcileResources mem_env (named_observed (revision_name demo_cr demo_text))"
    and "obStatefulEntities observed = group_pods [demo_pod ''sum'' ''old-0'' ''Running''] fmempty"
proof -
  let ?w = "start_world cluster_store" and ?sel = "fmupd ''type'' ''statefulEntity'' fmempty"
  have get: "fst (sGetCR mem_env (rqNamespace demo_request) (rqName demo_request) (wServer ?w)) = Inr demo_cr"
    by code_simp
  have spec: "marshalSpec quantity_json (crSpec demo_cr) = Inr demo_text"
    using demo_marshal by (simp add: demo_cr_def)
  have lists: "projr (fst (mem_list as_config_map ?sel (rqNamespace demo_request) (wServer ?w))) = []"
    "projr (fst (mem_list as_pod ?sel (rqNamespace demo_request) (wServer ?w))) =
      [demo_pod ''sum'' ''old-0'' ''Running'']"
    by code_simp+
  obtain obs v where run: "run_state (observe mem_env demo_request zero_observed) ?w = ((None, obs), v)"
    and obs: "obCR obs = Some (set_next demo_cr (revision_name demo_cr demo_text))" "wServer v = wServer ?w"
      "obConfigMaps obs = index_config_maps []"
      "obStatefulEntities obs = group_pods [demo_pod ''sum'' ''old-0'' ''Running''] fmempty"
    using mem_observe [OF get spec] unfolding lists by metis
  show thesis
  proof (rule that [OF run obs(1) _ _ obs(4)])
    show "wServer v = cluster_store" by (simp add: obs(2) start_world_def)
    let ?named = "named_observed (revision_name demo_cr demo_text)"
    have "obCR obs = obCR ?named" "obConfigMaps obs = obConfigMaps ?named"
      "obStatefulEntities obs = obStatefulEntities ?named"
      by (simp_all add: obs named_observed_def zero_observed_def index_config_maps_def del: group_pods.simps)
    then show "reconcileResources mem_env obs = reconcileResources mem_env ?named"
      by (intro ext) (simp only: reconcileResources_def)
  qed
qed

theorem spec_reaches_server_witness:
  "\<exists>observed v w'.
    run_state (observe mem_env demo_request zero_observed) (start_world cluster_store) = ((None, observed), v) \<and>
    run_state (reconcileResources mem_env observed demo_converted) (start_world cluster_store) =
      ((zero_result, None), w') \<and>
    names_of ''Pod'' ''test'' (fset (fmdom (wServer w'))) =
      (spec_pod_names demo_spec - restarted_names (the (obCR observed)) observed demo_converted) \<union>
      (names_of ''Pod'' ''test'' (fset (fmdom cluster_store)) - observed_pod_names observed) \<and>
    names_of ''ConfigMap'' ''test'' (fset (fmdom (wServer w'))) =
      spec_config_map_names demo_spec \<union>
      (names_of ''ConfigMap'' ''test'' (fset (fmdom cluster_store)) - fset (fmdom (obConfigMaps observed)))"
proof -
  let ?name = "revision_name demo_cr demo_text" and ?w = "start_world cluster_store"
  obtain observed v where observe: "run_state (observe mem_env demo_request zero_observed) ?w = ((None, observed), v)"
    and cr: "obCR observed = Some (set_next demo_cr ?name)" and v: "wServer v = cluster_store"
    and same: "reconcileResources mem_env observed = reconcileResources mem_env (named_observed ?name)"
    by (rule cluster_observe)
  obtain w' where run: "run_state (reconcileResources mem_env observed demo_converted) ?w = ((zero_result, None), w')"
    using run_result [OF named_run [of ?name]] unfolding same by metis
  have spec: "crSpec (set_next demo_cr ?name) = demo_spec" by (simp add: set_next_def demo_cr_def)
  have names: "distinct_names (crSpec (set_next demo_cr ?name))" unfolding spec by code_simp
  have good: "well_keyed (wServer ?w)" by (simp add: start_world_def cluster_well_keyed)
  have quiet: "fset (fmdom (wServer ?w)) = fset (fmdom (wServer v))" by (simp add: v start_world_def)
  from spec_reaches_server [OF mem_labelled.labelled_store_axioms only_owner_references_mem_env range_ok_mem_env
      good observe cr named_conversion names quiet run]
  show ?thesis
    using observe run
    by (intro exI [of _ observed] exI [of _ v] exI [of _ w']) (simp add: spec cr demo_request_def start_world_def)
qed

end
