(* ===== verification/Graceful_Server.thy ===== *)
theory Graceful_Server
  imports Cluster_Refinement
begin

section \<open>Rolling restarts under graceful deletion\<close>

text \<open>
  The API server deletes a pod gracefully: the request marks the object, the node ends its
  containers, and until then the pod is still listed and its name is taken.  Here the keys of
  \<open>object_store\<close> are read as those of the objects that are not marked for deletion, the effect of
  a reconciliation is stated for observations that may list marked pods, and a server with
  graceful deletion is a second model of the locale.
\<close>

subsection \<open>An observation that lists what is going away\<close>

text \<open>
  The desired pods an observation shows in their place although they are no longer among the
  live ones: the operator takes them for present and does not create them.
\<close>

definition gone_names ::
  "string set \<Rightarrow> ObservedInvokerDeploymentState \<Rightarrow> DesiredInvokerDeploymentState \<Rightarrow> string set" where
  "gone_names L observed desired =
     {pod_name d | d x. d \<in> set (desired_pods desired) \<and>
        observed_pod (obStatefulEntities observed) (entity_label d) (pod_name d) = Some x \<and> pod_name d \<notin> L}"

lemma reach_remaining_set:
  assumes "R \<subseteq> D \<inter> U" and "G \<subseteq> D" and "C \<subseteq> D"
    and "\<And>n. n \<in> D \<Longrightarrow> n \<in> G \<longleftrightarrow> n \<notin> C \<and> n \<notin> L" and "\<And>n. n \<in> C \<Longrightarrow> n \<notin> R"
  shows "((L - R) \<union> C) - (U - D) = (D - R - G) \<union> (L - U)"
  using assms by blast

lemma pods_on_server:
  assumes store: "object_store E live" and range: "range_ok E" and cr: "obCR observed = Some cr"
    and ok: "well_planned ns observed desired"
    and run: "run_state (reconcileResources E observed desired) w = ((res, None), w')"
    and L: "L = names_of ''Pod'' ns (live (wServer w))"
  shows "names_of ''Pod'' ns (live (wServer w')) =
      (pod_name ` set (desired_pods desired) - restarted_names cr observed desired - gone_names L observed desired) \<union>
      (L - observed_pod_names observed)"
proof -
  note ok = ok [unfolded well_planned_def]
  then have keyed: "keyed_by_name observed" and distinct: "distinct (map pod_name (desired_pods desired))"
    and placed: "placed_in ns observed desired" by blast+
  obtain cs where cs: "wTrace w' = wTrace w @ cs" "live (wServer w') = keys_after cs (live (wServer w))"
    using object_store.reconcile_keys [OF store cr _ run] ok by blast
  obtain cmSurplus podSurplus where plan: "cs = plan_calls cr observed desired cmSurplus podSurplus"
    and surplus: "set cmSurplus = surplus_cms observed desired" "set podSurplus = surplus_pods observed desired"
    using reconcileResources_success [OF range cr run] cs(1) by (metis same_append_eq)
  let ?ds = "desired_pods desired" and ?m = "obStatefulEntities observed"
  let ?D = "pod_name ` set ?ds" and ?R = "restarted_names cr observed desired" and ?O = "observed_pod_names observed"
  let ?G = "gone_names L observed desired"
  let ?C = "{pod_name d | d. d \<in> set ?ds \<and> pod_plan cr ?m d = Some (Create (ObjPod d))}"
  have "names_of ''Pod'' ns (live (wServer w')) = ((L - ?R) \<union> ?C) - (?O - ?D)"
    using names_of_keys_after [OF plan_stays(1) [OF placed surplus plan], of "live (wServer w)"]
    by (simp add: cs(2) L plan pod_effect_plan_calls [OF surplus(2) keyed distinct])
  also have "\<dots> = (?D - ?R - ?G) \<union> (L - ?O)"
  proof (rule reach_remaining_set)
    show "?R \<subseteq> ?D \<inter> ?O" "?G \<subseteq> ?D" "?C \<subseteq> ?D"
      unfolding restarted_names_def gone_names_def observed_pod_names_def by blast+
    fix n
    have place: "n \<in> ?C \<longleftrightarrow> observed_pod ?m (entity_label d) n = None"
        "n \<in> ?G \<longleftrightarrow> observed_pod ?m (entity_label d) n \<noteq> None \<and> n \<notin> L"
        "n \<in> ?R \<Longrightarrow> observed_pod ?m (entity_label d) n \<noteq> None"
      if d: "d \<in> set ?ds" "n = pod_name d" for d
    proof -
      have only: "d' = d" if "d' \<in> set ?ds" "n = pod_name d'" for d'
        using distinct d that by (auto simp: distinct_map inj_on_def)
      show "n \<in> ?C \<longleftrightarrow> observed_pod ?m (entity_label d) n = None"
        using d only by (auto simp: pod_plan_created)
      show "n \<in> ?G \<longleftrightarrow> observed_pod ?m (entity_label d) n \<noteq> None \<and> n \<notin> L"
        "n \<in> ?R \<Longrightarrow> observed_pod ?m (entity_label d) n \<noteq> None"
        using d only unfolding gone_names_def restarted_names_def by blast+
    qed
    show "n \<in> ?G \<longleftrightarrow> n \<notin> ?C \<and> n \<notin> L" if "n \<in> ?D"
      using that place by blast
    show "n \<notin> ?R" if "n \<in> ?C"
    proof -
      from that obtain d where "d \<in> set ?ds" "n = pod_name d" by blast
      with that place show ?thesis by blast
    qed
  qed
  finally show ?thesis .
qed

subsection \<open>A server with graceful deletion\<close>

text \<open>
  The in-memory server with other writes: a pod and an object with finalizers are only marked by
  a deletion; a new object is never marked, and an update does not change the mark.
\<close>

primrec map_meta :: "(ObjectMeta \<Rightarrow> ObjectMeta) \<Rightarrow> k8s_object \<Rightarrow> k8s_object" where
  "map_meta f (ObjCR x) = ObjCR (x\<lparr>crMeta := f (crMeta x)\<rparr>)"
| "map_meta f (ObjPod x) = ObjPod (x\<lparr>podMeta := f (podMeta x)\<rparr>)"
| "map_meta f (ObjConfigMap x) = ObjConfigMap (x\<lparr>cmMeta := f (cmMeta x)\<rparr>)"
| "map_meta f (ObjSecret x) = ObjSecret (x\<lparr>scMeta := f (scMeta x)\<rparr>)"
| "map_meta f (ObjRevision x) = ObjRevision (x\<lparr>rvMeta := f (rvMeta x)\<rparr>)"
| "map_meta f (ObjDeployment x) = ObjDeployment (x\<lparr>dpMeta := f (dpMeta x)\<rparr>)"
| "map_meta f (ObjStatefulSet x) = ObjStatefulSet (x\<lparr>ssMeta := f (ssMeta x)\<rparr>)"
| "map_meta f (ObjService x) = ObjService (x\<lparr>svMeta := f (svMeta x)\<rparr>)"
| "map_meta f (ObjIngress x) = ObjIngress (x\<lparr>igMeta := f (igMeta x)\<rparr>)"

definition set_mark :: "gotime option \<Rightarrow> k8s_object \<Rightarrow> k8s_object" where
  "set_mark t = map_meta (\<lambda>m. m\<lparr>omDeletionTimestamp := t\<rparr>)"

definition marked :: "k8s_object \<Rightarrow> bool" where
  "marked ob \<longleftrightarrow> omDeletionTimestamp (object_meta ob) \<noteq> None"

definition graceful_create :: "k8s_object \<Rightarrow> store \<Rightarrow> go_error option \<times> store" where
  "graceful_create ob = mem_create (set_mark None ob)"

definition graceful_update :: "k8s_object \<Rightarrow> store \<Rightarrow> go_error option \<times> store" where
  "graceful_update ob st =
     (case fmlookup st (object_key ob) of
        None \<Rightarrow> (Some (NotFoundError (omName (object_meta ob))), st)
      | Some old \<Rightarrow> mem_update (set_mark (omDeletionTimestamp (object_meta old)) ob) st)"

definition graceful_delete :: "k8s_object \<Rightarrow> store \<Rightarrow> go_error option \<times> store" where
  "graceful_delete ob st =
     (case fmlookup st (object_key ob) of
        None \<Rightarrow> (Some (NotFoundError (omName (object_meta ob))), st)
      | Some old \<Rightarrow>
          if object_kind old = ''Pod'' \<or> omFinalizers (object_meta old) \<noteq> []
          then (None, fmupd (object_key ob) (if marked old then old else set_mark (Some mem_now) old) st)
          else (None, fmdrop (object_key ob) st))"

definition graceful_env :: "store env" where
  "graceful_env = mem_env\<lparr>sCreate := graceful_create, sUpdate := graceful_update, sDelete := graceful_delete\<rparr>"

definition unmarked_keys :: "store \<Rightarrow> key set" where
  "unmarked_keys st = {k. \<exists>ob. fmlookup st k = Some ob \<and> \<not> marked ob}"

text \<open>The end of the grace period: the marked objects disappear.\<close>

definition expire :: "store \<Rightarrow> store" where
  "expire st = fmfilter (\<lambda>k. case fmlookup st k of None \<Rightarrow> False | Some ob \<Rightarrow> \<not> marked ob) st"

lemma set_mark_simps [simp]:
  "object_key (set_mark t ob) = object_key ob" "omDeletionTimestamp (object_meta (set_mark t ob)) = t"
  "marked (set_mark t ob) \<longleftrightarrow> t \<noteq> None"
  by (cases ob; simp add: set_mark_def object_key_def marked_def)+

lemma keep_status_mark [simp]:
  "omDeletionTimestamp (object_meta (keep_status old ob)) = omDeletionTimestamp (object_meta ob)"
  by (cases old; cases ob) (simp_all add: keep_status_def)

lemma unmarked_keys_upd [simp]:
  "unmarked_keys (fmupd k ob st) = (if marked ob then unmarked_keys st - {k} else insert k (unmarked_keys st))"
  by (auto simp: unmarked_keys_def)

lemma unmarked_keys_drop [simp]: "unmarked_keys (fmdrop k st) = unmarked_keys st - {k}"
  by (auto simp: unmarked_keys_def)

lemma unmarked_keys_expire: "unmarked_keys (expire st) = unmarked_keys st"
  by (auto simp: unmarked_keys_def expire_def split: option.splits)

lemma not_unmarked: "fmlookup st k = None \<Longrightarrow> k \<notin> unmarked_keys st"
  by (simp add: unmarked_keys_def)

lemma unmarked_lookup: "fmlookup st k = Some ob \<Longrightarrow> k \<in> unmarked_keys st \<longleftrightarrow> \<not> marked ob"
  by (simp add: unmarked_keys_def)

interpretation graceful: object_store graceful_env unmarked_keys
proof
  fix ob and s s' :: store
  assume "sCreate graceful_env ob s = (None, s')"
  then show "unmarked_keys s' = insert (object_key ob) (unmarked_keys s)"
    by (auto simp: graceful_env_def graceful_create_def mem_create_def split: if_splits)
next
  fix ob and s s' :: store
  assume "sUpdate graceful_env ob s = (None, s')"
  then show "unmarked_keys s' = unmarked_keys s"
    by (auto simp: graceful_env_def graceful_update_def mem_update_def unmarked_lookup marked_def
        insert_absorb split: option.splits if_splits)
next
  fix ob err and s s' :: store
  assume "sDelete graceful_env ob s = (err, s')" and "IgnoreNotFound err = None"
  then show "unmarked_keys s' = unmarked_keys s - {object_key ob}"
    by (auto simp: graceful_env_def graceful_delete_def not_unmarked split: option.splits if_splits)
next
  fix cr and s s' :: store
  assume "sStatusUpdate graceful_env cr s = (None, s')"
  then show "unmarked_keys s' = unmarked_keys s"
    by (auto simp: graceful_env_def mem_env_def mem_status_update_def as_object_iff unmarked_lookup
        bind_eq_Some_conv marked_def insert_absorb split: option.splits if_splits)
next
  fix A and s :: store
  show "unmarked_keys (snd (sRange graceful_env A s)) = unmarked_keys s"
    by (simp add: graceful_env_def mem_env_def)
qed

text \<open>
  Its reads are those of the in-memory server.  As long as no deletion is under way it keeps the
  promises of \<open>labelled_store\<close>, so \<open>Cluster_Refinement\<close> applies to it: the deletions of the run itself
  may take their time.
\<close>

definition nothing_marked :: "store \<Rightarrow> bool" where
  "nothing_marked st \<longleftrightarrow> well_keyed st \<and> fset (fmdom st) \<subseteq> unmarked_keys st"

lemma graceful_reads:
  "sGetCR graceful_env = sGetCR mem_env" "sGetSecret graceful_env = sGetSecret mem_env"
  "sListConfigMaps graceful_env = sListConfigMaps mem_env" "sListPods graceful_env = sListPods mem_env"
  "sListRevisions graceful_env = sListRevisions mem_env" "sNow graceful_env = sNow mem_env"
  by (simp_all add: graceful_env_def)

lemma mem_reads_store:
  "sGetCR mem_env ns n st = (cr, st') \<Longrightarrow> st' = st" "sGetSecret mem_env ns n st = (sec, st') \<Longrightarrow> st' = st"
  "sListConfigMaps mem_env sel ns st = (cms, st') \<Longrightarrow> st' = st" "sListPods mem_env sel ns st = (ps, st') \<Longrightarrow> st' = st"
  "sListRevisions mem_env sel ns st = (rs, st') \<Longrightarrow> st' = st" "sNow mem_env st = (t, st') \<Longrightarrow> st' = st"
  by (auto simp: mem_env_def dest: mem_get_store mem_list_store)

interpretation graceful_labelled: labelled_store graceful_env unmarked_keys nothing_marked
  by unfold_locales
    (auto simp: graceful_reads nothing_marked_def dest: mem_reads_store mem_labelled.get_cr_namespace
      mem_labelled.listed_config_map mem_labelled.listed_pod)

lemma range_ok_graceful [simp]: "range_ok graceful_env"
  using range_ok_mem_env by (simp add: range_ok_def graceful_env_def)

subsection \<open>The second reconciliation\<close>

text \<open>
  C2: A rolling restart completes: when a reconciliation without error has promoted the revision
  and nobody else wrote in between, a second one that reads the promoted status back and ends
  without error leaves on the server every desired pod, the restarted ones included, but for
  those the second observation still listed in their place although their deletion was under way
  or over, and no other pod but those neither observation showed.  So the restart is complete
  with the first reconciliation that no longer sees the deleted pods; before, these are missing.
\<close>

theorem restart_completes:
  assumes store: "object_store E live" and range: "range_ok E"
    and first: "obCR observed = Some cr" "well_planned ns observed desired"
      "run_state (reconcileResources E observed desired) w = ((res, None), w1)"
    and undisturbed: "live (wServer u) = live (wServer w1)"
    and second: "obCR observed' = Some cr'" "well_planned ns observed' desired"
      "run_state (reconcileResources E observed' desired) u = ((res', None), w2)"
    and promoted: "crStatus cr' = crStatus (promote cr)"
  shows "names_of ''Pod'' ns (live (wServer w2)) =
      (pod_name ` set (desired_pods desired) -
        gone_names (names_of ''Pod'' ns (live (wServer w1))) observed' desired) \<union>
      (names_of ''Pod'' ns (live (wServer w)) - observed_pod_names observed - observed_pod_names observed')"
proof -
  have "restarted_names cr' observed' desired = {}"
    using promoted by (simp add: restarted_names_def revision_changed_def promote_def)
  moreover have "gone_names L observed' desired \<subseteq> observed_pod_names observed'" for L
    unfolding gone_names_def observed_pod_names_def by blast
  ultimately show ?thesis
    using pods_on_server [OF store range first refl] pods_on_server [OF store range second refl]
    unfolding undisturbed by blast
qed

text \<open>
  The store holds what \<open>demo_observed\<close> shows and one more pod, without the labels the observer
  lists by.
\<close>

definition populated_store :: store where
  "populated_store =
     fold put [ObjCR demo_running_cr, ObjConfigMap (demo_config_map ''old-configmap''),
       ObjPod (demo_pod ''sum'' ''sum-0'' ''Running''), ObjPod (demo_pod ''sum'' ''old-0'' ''Running''),
       ObjPod unlabelled_pod] fmempty"

definition first_run :: "(Result \<times> go_error option) \<times> store world" where
  "first_run = run_state (reconcileResources graceful_env demo_observed demo_desired) (start_world populated_store)"

text \<open>
  After the first run the server still lists the deleted pods, the restarted \<open>sum-0\<close> and the
  surplus \<open>old-0\<close>, marked; when they have expired it lists the created \<open>sum-1\<close> alone.
\<close>

definition listed_pods :: "store \<Rightarrow> Pod list" where
  "listed_pods st = projr (fst (sListPods graceful_env (fmupd ''type'' ''statefulEntity'' fmempty) ''test'' st))"

definition expired_world :: "store world \<Rightarrow> store world" where
  "expired_world w = w\<lparr>wServer := expire (wServer w)\<rparr>"

definition shown_pods :: "Pod list \<Rightarrow> ObservedInvokerDeploymentState" where
  "shown_pods pods = zero_observed\<lparr>obCR := Some (promote demo_running_cr),
     obConfigMaps := index_config_maps [demo_config_map ''sum-configmap''],
     obStatefulEntities := group_pods pods fmempty\<rparr>"

definition second_run :: "store world \<Rightarrow> (Result \<times> go_error option) \<times> store world" where
  "second_run u =
     run_state (reconcileResources graceful_env (shown_pods (listed_pods (wServer u))) demo_desired) u"

lemma listed_after_first:
  "map pod_name (listed_pods (wServer (snd first_run))) = [''old-0'', ''sum-0'', ''sum-1'']"
  "map pod_name (listed_pods (wServer (expired_world (snd first_run)))) = [''sum-1'']"
  "list_all (\<lambda>p. omNamespace (podMeta p) = ''test'') (listed_pods (wServer (snd first_run)))"
  "list_all (\<lambda>p. omNamespace (podMeta p) = ''test'') (listed_pods (wServer (expired_world (snd first_run))))"
  by code_simp+

lemma run_results:
  "fst first_run = (zero_result, None)"
  "fst (second_run (snd first_run)) = (zero_result, None)"
  "fst (second_run (expired_world (snd first_run))) = (zero_result, None)"
  by code_simp+

lemma first_run_eq:
  "run_state (reconcileResources graceful_env demo_observed demo_desired) (start_world populated_store) =
     ((zero_result, None), snd first_run)"
  using run_result [OF run_results(1)] unfolding first_run_def .

lemma second_run_eq:
  assumes "fst (second_run u) = (zero_result, None)"
  shows "run_state (reconcileResources graceful_env (shown_pods (listed_pods (wServer u))) demo_desired) u =
     ((zero_result, None), snd (second_run u))"
  using run_result [OF assms] unfolding second_run_def .

lemma shown_cr: "obCR (shown_pods pods) = Some (promote demo_running_cr)"
  by (simp add: shown_pods_def)

lemma demo_planned:
  assumes "\<And>se n p. observed_pod (obStatefulEntities observed) se n = Some p \<Longrightarrow> omNamespace (podMeta p) = ''test''"
    and "obConfigMaps observed = index_config_maps [demo_config_map name]" and "keyed_by_name observed"
  shows "well_planned ''test'' observed demo_desired"
proof -
  have "placed_in ''test'' observed demo_desired"
    using assms(1)
    by (fastforce simp: placed_in_def demo_desired_def desired_pods_def desired_cms_def demo_wanted_pod_def
        demo_config_map_def assms(2) index_config_maps_def demo_defs split: if_splits)
  moreover have "\<forall>d \<in> set (desired_cms demo_desired). omDeletionTimestamp (cmMeta d) = None"
    by code_simp
  ultimately show ?thesis
    using assms(3) demo_distinct by (simp add: well_planned_def)
qed

lemma demo_well_planned: "well_planned ''test'' demo_observed demo_desired"
proof (rule demo_planned [OF _ _ demo_keyed])
  fix se n p assume "observed_pod (obStatefulEntities demo_observed) se n = Some p"
  then have "p \<in> set [demo_pod ''sum'' ''sum-0'' ''Running'', demo_pod ''sum'' ''old-0'' ''Running'']"
    by (intro conjunct1 [OF observed_pod_in_list [where se = se and n = n]])
      (simp add: demo_observed_def del: group_pods.simps)
  then show "omNamespace (podMeta p) = ''test''" by (auto simp: demo_defs)
qed (simp add: demo_observed_def)

lemma shown_well_planned:
  assumes "list_all (\<lambda>p. omNamespace (podMeta p) = ''test'') pods"
  shows "well_planned ''test'' (shown_pods pods) demo_desired"
proof (rule demo_planned)
  fix se n p assume "observed_pod (obStatefulEntities (shown_pods pods)) se n = Some p"
  then have "p \<in> set pods"
    by (intro conjunct1 [OF observed_pod_in_list [where se = se and n = n]])
      (simp add: shown_pods_def del: group_pods.simps)
  with assms show "omNamespace (podMeta p) = ''test''" by (simp add: list_all_iff)
next
  show "obConfigMaps (shown_pods pods) = index_config_maps [demo_config_map ''sum-configmap'']"
    by (simp add: shown_pods_def)
  show "keyed_by_name (shown_pods pods)"
    by (rule keyed_by_name_indexed) (simp_all add: shown_pods_def del: group_pods.simps)
qed

definition gone_list :: "store \<Rightarrow> store \<Rightarrow> string list" where
  "gone_list st st' = map pod_name (filter (\<lambda>d.
     observed_pod (obStatefulEntities (shown_pods (listed_pods st'))) (entity_label d) (pod_name d) \<noteq> None \<and>
     (case fmlookup st (''Pod'', ''test'', pod_name d) of None \<Rightarrow> True | Some ob \<Rightarrow> marked ob))
     (desired_pods demo_desired))"

lemma gone_list:
  "gone_names (names_of ''Pod'' ''test'' (unmarked_keys st)) (shown_pods (listed_pods st')) demo_desired =
     set (gone_list st st')"
  unfolding gone_names_def gone_list_def names_of_def unmarked_keys_def
  by (auto split: option.splits)

lemma gone_after_first:
  "gone_list (wServer (snd first_run)) (wServer (snd first_run)) = [''sum-0'']"
  "gone_list (wServer (snd first_run)) (wServer (expired_world (snd first_run))) = []"
  by code_simp+

lemma expired_world_live: "unmarked_keys (wServer (expired_world w)) = unmarked_keys (wServer w)"
  by (simp add: expired_world_def unmarked_keys_expire)

text \<open>
  The second run while \<open>sum-0\<close> is still listed leaves it missing; after the grace period it is
  created again.
\<close>

theorem restart_completes_witness:
  "let soon = snd first_run; later = expired_world (snd first_run);
       others = (\<lambda>w. names_of ''Pod'' ''test'' (unmarked_keys populated_store) - observed_pod_names demo_observed
         - observed_pod_names (shown_pods (listed_pods (wServer w)))) in
   names_of ''Pod'' ''test'' (unmarked_keys (wServer (snd (second_run soon)))) =
     (pod_name ` set (desired_pods demo_desired) - {''sum-0''}) \<union> others soon \<and>
   names_of ''Pod'' ''test'' (unmarked_keys (wServer (snd (second_run later)))) =
     pod_name ` set (desired_pods demo_desired) \<union> others later"
  using restart_completes [OF graceful.object_store_axioms range_ok_graceful demo_observed_cr demo_well_planned
      first_run_eq refl shown_cr shown_well_planned [OF listed_after_first(3)] second_run_eq [OF run_results(2)] refl]
    restart_completes [OF graceful.object_store_axioms range_ok_graceful demo_observed_cr demo_well_planned
      first_run_eq expired_world_live shown_cr shown_well_planned [OF listed_after_first(4)]
      second_run_eq [OF run_results(3)] refl]
  unfolding gone_list gone_after_first Let_def by (simp add: start_world_def)

end
