(* ===== verification/Reliable_Server.thy ===== *)
theory Reliable_Server
  imports Cluster_Refinement
begin

section \<open>A server without failures\<close>

text \<open>
  The theorems so far say what a reconciliation that ends without error has done.  Here it does
  end without error: on a server whose requests succeed when their object is (or is not yet)
  there, the actions for a spec whose names are free all succeed.
\<close>

subsection \<open>When an action succeeds\<close>

fun ready :: "key set \<Rightarrow> action option \<Rightarrow> bool" where
  "ready L (Some (Create ob)) \<longleftrightarrow> object_key ob \<notin> L"
| "ready L (Some (Update ob)) \<longleftrightarrow> object_key ob \<in> L \<and> omDeletionTimestamp (object_meta ob) = None"
| "ready L _ \<longleftrightarrow> True"

fun action_key :: "action \<Rightarrow> key" where
  "action_key (Create ob) = object_key ob"
| "action_key (Update ob) = object_key ob"
| "action_key (Delete ob) = object_key ob"

definition same_except :: "key set \<Rightarrow> key set \<Rightarrow> key set \<Rightarrow> bool" where
  "same_except K L L' \<longleftrightarrow> L - K = L' - K"

lemma same_except_refl [simp]: "same_except K L L"
  by (simp add: same_except_def)

lemma same_except_trans: "same_except K L M \<Longrightarrow> same_except K M N \<Longrightarrow> same_except K L N"
  by (simp add: same_except_def)

lemma same_except_mono: "same_except K L M \<Longrightarrow> K \<subseteq> K' \<Longrightarrow> same_except K' L M"
  by (auto simp: same_except_def)

lemma same_except_mem: "same_except K L M \<Longrightarrow> k \<notin> K \<Longrightarrow> k \<in> L \<longleftrightarrow> k \<in> M"
  by (auto simp: same_except_def)

lemma ready_same:
  assumes "same_except K L M" and "\<And>a. x = Some a \<Longrightarrow> action_key a \<notin> K"
  shows "ready L x \<longleftrightarrow> ready M x"
  using assms(2) same_except_mem [OF assms(1)] by (cases "(L, x)" rule: ready.cases) auto

locale reliable_store = labelled_store E live good
  for E :: "'s env" and live :: "'s \<Rightarrow> key set" and good :: "'s \<Rightarrow> bool" +
  assumes create_succeeds: "good s \<Longrightarrow> object_key ob \<notin> live s \<Longrightarrow> \<exists>s'. sCreate E ob s = (None, s') \<and> good s'"
    and update_succeeds: "good s \<Longrightarrow> object_key ob \<in> live s \<Longrightarrow> omDeletionTimestamp (object_meta ob) = None \<Longrightarrow>
      \<exists>s'. sUpdate E ob s = (None, s') \<and> good s'"
    and delete_succeeds: "good s \<Longrightarrow> \<exists>err s'. sDelete E ob s = (err, s') \<and> IgnoreNotFound err = None \<and> good s'"
    and status_succeeds: "good s \<Longrightarrow> object_key (ObjCR cr) \<in> live s \<Longrightarrow> \<exists>s'. sStatusUpdate E cr s = (None, s') \<and> good s'"
    and get_cr_live: "good s \<Longrightarrow> sGetCR E ns n s = (Inr cr, s') \<Longrightarrow> object_key (ObjCR cr) \<in> live s"
    and iteration_good: "good s \<Longrightarrow> good (snd (sRange E A s))"
begin

definition goes_well :: "('s world, go_error option) state \<Rightarrow> 's world \<Rightarrow> key set \<Rightarrow> bool" where
  "goes_well m w K \<longleftrightarrow> (\<exists>w'. run_state m w = (None, w') \<and> good (wServer w') \<and>
     same_except K (live (wServer w)) (live (wServer w')))"

lemma goes_well_perform:
  assumes "good (wServer w)" and "ready (live (wServer w)) x"
  shows "goes_well (perform E x) w (case x of None \<Rightarrow> {} | Some a \<Rightarrow> {action_key a})"
proof (cases x)
  case None
  with assms show ?thesis by (simp add: goes_well_def)
next
  case (Some a)
  show ?thesis
  proof (cases a)
    case (Create ob)
    with assms Some obtain s' where "sCreate E ob (wServer w) = (None, s')" "good s'"
      using create_succeeds by fastforce
    with create [of ob "wServer w" s'] Some Create show ?thesis
      by (auto simp: goes_well_def client_defs same_except_def)
  next
    case (Update ob)
    with assms Some obtain s' where "sUpdate E ob (wServer w) = (None, s')" "good s'"
      using update_succeeds by fastforce
    with update [of ob "wServer w" s'] assms Some Update show ?thesis
      by (auto simp: goes_well_def client_defs same_except_def)
  next
    case (Delete ob)
    obtain err s' where "sDelete E ob (wServer w) = (err, s')" "IgnoreNotFound err = None" "good s'"
      using delete_succeeds [OF assms(1)] by blast
    with delete [of ob "wServer w" err s'] Some Delete show ?thesis
      by (auto simp: goes_well_def client_defs same_except_def)
  qed
qed

lemma goes_wellE:
  assumes "goes_well m w K"
  obtains w' where "run_state m w = (None, w')" "good (wServer w')"
    "same_except K (live (wServer w)) (live (wServer w'))"
  using assms unfolding goes_well_def by blast

lemma goes_well_mono: "goes_well m w K \<Longrightarrow> K \<subseteq> K' \<Longrightarrow> goes_well m w K'"
  unfolding goes_well_def using same_except_mono by blast

lemma goes_well_for_each_Cons:
  assumes "goes_well (body x) w K" and "\<And>w'. good (wServer w') \<Longrightarrow>
      same_except K (live (wServer w)) (live (wServer w')) \<Longrightarrow> goes_well (for_each body xs) w' K'"
  shows "goes_well (for_each body (x # xs)) w (K \<union> K')"
proof -
  obtain v where v: "run_state (body x) w = (None, v)" "good (wServer v)"
    "same_except K (live (wServer w)) (live (wServer v))"
    using assms(1) by (rule goes_wellE)
  obtain w' where w': "run_state (for_each body xs) v = (None, w')" "good (wServer w')"
    "same_except K' (live (wServer v)) (live (wServer w'))"
    using assms(2) [OF v(2,3)] by (rule goes_wellE)
  have "same_except (K \<union> K') (live (wServer w)) (live (wServer w'))"
    using v(3) w'(3) same_except_trans same_except_mono by (metis sup_ge1 sup_ge2)
  with v(1) w' show ?thesis by (auto simp: goes_well_def)
qed

text \<open>A loop over desired objects with distinct keys.\<close>

lemma goes_well_desired:
  assumes "good (wServer w)" and "distinct (map key ds)"
    and "\<And>d a. d \<in> set ds \<Longrightarrow> plan d = Some a \<Longrightarrow> action_key a = key d"
    and "\<And>d. d \<in> set ds \<Longrightarrow> ready (live (wServer w)) (plan d)"
  shows "goes_well (for_each (\<lambda>d. perform E (plan d)) ds) w (key ` set ds)"
  using assms
proof (induction ds arbitrary: w)
  case Nil
  then show ?case by (simp add: goes_well_def)
next
  case (Cons d ds)
  have "goes_well (perform E (plan d)) w {key d}"
    by (rule goes_well_mono [OF goes_well_perform])
      (use Cons.prems in \<open>auto split: option.splits\<close>)
  moreover have "goes_well (for_each (\<lambda>d. perform E (plan d)) ds) v (key ` set ds)"
    if "good (wServer v)" "same_except {key d} (live (wServer w)) (live (wServer v))" for v
  proof (rule Cons.IH [OF that(1)])
    fix x assume x: "x \<in> set ds"
    have "ready (live (wServer w)) (plan x)" using Cons.prems(4) x by simp
    moreover have "action_key a \<notin> {key d}" if a: "plan x = Some a" for a
    proof -
      have "action_key a = key x" by (rule Cons.prems(3) [OF _ a]) (simp add: x)
      moreover have "key d \<notin> key ` set ds" "key x \<in> key ` set ds" using Cons.prems(2) x by simp_all
      ultimately show ?thesis by (metis singletonD)
    qed
    ultimately show "ready (live (wServer v)) (plan x)" using ready_same [OF that(2)] by blast
  qed (use Cons.prems in auto)
  ultimately have "goes_well (for_each (\<lambda>d. perform E (plan d)) (d # ds)) w ({key d} \<union> key ` set ds)"
    by (rule goes_well_for_each_Cons)
  then show ?case by simp
qed

text \<open>A loop in which every step goes well from every good state.\<close>

lemma goes_well_each:
  assumes "\<And>x w. x \<in> set xs \<Longrightarrow> good (wServer w) \<Longrightarrow> goes_well (body x) w K" and "good (wServer w)"
  shows "goes_well (for_each body xs) w K"
  using assms
proof (induction xs arbitrary: w)
  case Nil
  then show ?case by (simp add: goes_well_def)
next
  case (Cons x xs)
  have "goes_well (for_each body (x # xs)) w (K \<union> K)"
    by (rule goes_well_for_each_Cons) (use Cons in auto)
  then show ?case by simp
qed

lemma range_good:
  "good (wServer w) \<Longrightarrow> run_state (range_values E m) w = (vs, w') \<Longrightarrow> good (wServer w')"
  "good (wServer w) \<Longrightarrow> run_state (range_entries E m) w = (es, w') \<Longrightarrow> good (wServer w')"
  using iteration_good by (auto simp: client_defs)

lemma goes_well_entity:
  assumes "good (wServer w)"
  shows "goes_well (reconcileObservedEntity E cr des se) w {k. fst k = ''Pod''}"
proof (cases se)
  case None
  with assms show ?thesis by (simp add: goes_well_def reconcileObservedEntity_def)
next
  case (Some inner)
  obtain vs v where vs: "run_state (range_values E inner) w = (vs, v)" by fastforce
  have "goes_well (for_each (reconcileObservedPod E cr des) vs) v {k. fst k = ''Pod''}"
  proof (rule goes_well_each)
    fix p and u :: "'s world" assume "good (wServer u)"
    then show "goes_well (reconcileObservedPod E cr des p) u {k. fst k = ''Pod''}"
      unfolding reconcileObservedPod_eq
      by (intro goes_well_mono [OF goes_well_perform]) (auto simp: object_key_def)
  qed (rule range_good(1) [OF assms vs])
  with vs range_live(1) [OF vs] Some show ?thesis by (simp add: goes_well_def reconcileObservedEntity_def)
qed

text \<open>
  The actions of a run succeed when those of the desired objects are ready at its start and the
  resource is on the server.
\<close>

lemma reconcile_succeeds:
  assumes good: "good (wServer w)" and cr: "obCR observed = Some cr"
    and pods: "distinct (map (\<lambda>d. object_key (ObjPod d)) (desired_pods desired))"
      "\<And>d. d \<in> set (desired_pods desired) \<Longrightarrow> ready (live (wServer w)) (pod_plan cr (obStatefulEntities observed) d)"
    and cms: "distinct (map (\<lambda>d. object_key (ObjConfigMap d)) (desired_cms desired))"
      "\<And>d. d \<in> set (desired_cms desired) \<Longrightarrow> ready (live (wServer w)) (cm_plan cr (obConfigMaps observed) d)"
    and present: "object_key (ObjCR cr) \<in> live (wServer w)"
  obtains w' where "run_state (reconcileResources E observed desired) w = ((zero_result, None), w')"
proof -
  let ?cms = "obConfigMaps observed" and ?ses = "obStatefulEntities observed"
  let ?K = "{k :: key. fst k = ''ConfigMap''}" and ?P = "{k :: key. fst k = ''Pod''}"
  obtain e1 d1 w1 where p1: "run_state (reconcileDesiredConfigMaps E cr ?cms (desired_cms desired) fmempty) w =
      ((e1, d1), w1)" by (metis prod.collapse)
  have "goes_well (for_each (\<lambda>d. perform E (cm_plan cr ?cms d)) (desired_cms desired)) w
      ((\<lambda>d. object_key (ObjConfigMap d)) ` set (desired_cms desired))"
    by (rule goes_well_desired [OF good cms(1) _ cms(2)]) (auto dest!: cm_plan_cases)
  then have w1: "e1 = None" "good (wServer w1)" "same_except ?K (live (wServer w)) (live (wServer w1))"
    using run_reconcileDesiredConfigMaps [OF p1]
    by (auto simp: goes_well_def object_key_def elim: same_except_mono)
  obtain es w2 where p2: "run_state (range_entries E ?cms) w1 = (es, w2)" by fastforce
  have "goes_well (reconcileObservedConfigMaps E cr d1 es) w2 ?K"
    unfolding reconcileObservedConfigMaps_eq
  proof (rule goes_well_each)
    fix e and u :: "'s world" assume "good (wServer u)"
    then show "goes_well (perform E (if fmlookup d1 (fst e) = None then Some (Delete (ObjConfigMap (snd e))) else None)) u ?K"
      by (intro goes_well_mono [OF goes_well_perform]) (auto simp: object_key_def)
  qed (rule range_good(2) [OF w1(2) p2])
  then obtain w3 where p3: "run_state (reconcileObservedConfigMaps E cr d1 es) w2 = (None, w3)"
    and w3: "good (wServer w3)" "same_except ?K (live (wServer w2)) (live (wServer w3))"
    by (rule goes_wellE)
  have same3: "same_except ?K (live (wServer w)) (live (wServer w3))"
    using same_except_trans [OF w1(3)] w3(2) by (simp add: range_live(2) [OF p2])
  obtain e4 d4 w4 where p4: "run_state (reconcileDesiredPods E cr ?ses (desired_pods desired) fmempty) w3 =
      ((e4, d4), w4)" by (metis prod.collapse)
  have "goes_well (for_each (\<lambda>d. perform E (pod_plan cr ?ses d)) (desired_pods desired)) w3
      ((\<lambda>d. object_key (ObjPod d)) ` set (desired_pods desired))"
  proof (rule goes_well_desired [OF w3(1) pods(1)])
    fix d assume d: "d \<in> set (desired_pods desired)"
    show "ready (live (wServer w3)) (pod_plan cr ?ses d)"
      using pods(2) [OF d] ready_same [OF same3] by (fastforce dest!: pod_plan_cases simp: object_key_def)
  qed (auto dest!: pod_plan_cases)
  then have w4: "e4 = None" "good (wServer w4)" "same_except ?P (live (wServer w3)) (live (wServer w4))"
    using run_reconcileDesiredPods [OF p4]
    by (auto simp: goes_well_def object_key_def elim: same_except_mono)
  obtain ses w5 where p5: "run_state (range_values E ?ses) w4 = (ses, w5)" by fastforce
  have "goes_well (for_each (reconcileObservedEntity E cr d4) ses) w5 ?P"
    by (rule goes_well_each [OF goes_well_entity range_good(1) [OF w4(2) p5]])
  then obtain w6 where p6: "run_state (for_each (reconcileObservedEntity E cr d4) ses) w5 = (None, w6)"
    and w6: "good (wServer w6)" "same_except ?P (live (wServer w5)) (live (wServer w6))"
    by (rule goes_wellE)
  have loops: "run_state (reconcile_loops E cr observed desired) w = (None, w6)"
    by (simp add: reconcile_loops_def p1 w1(1) p2 p3 p4 w4(1) p5 p6)
  have key: "object_key (ObjCR (promote cr)) = (''InvokerDeployment'', omNamespace (crMeta cr), omName (crMeta cr))"
    "object_key (ObjCR cr) = object_key (ObjCR (promote cr))"
    by (simp_all add: object_key_def promote_def)
  have "object_key (ObjCR (promote cr)) \<in> live (wServer w6)"
    using present same_except_mem [OF same3] same_except_mem [OF w4(3)] same_except_mem [OF w6(2)] range_live(1) [OF p5]
    by (simp add: key)
  then obtain s' where "sStatusUpdate E (promote cr) (wServer w6) = (None, s')"
    using status_succeeds [OF w6(1)] by blast
  with loops show thesis
    by (intro that) (simp add: reconcileResources_loops [OF cr] client_defs)
qed

end

text \<open>The in-memory server is such a server.\<close>

lemma well_keyed_upd: "well_keyed st \<Longrightarrow> object_key ob = k \<Longrightarrow> well_keyed (fmupd k ob st)"
  by (auto simp: well_keyed_def fmpred_iff)

lemma well_keyed_drop: "well_keyed st \<Longrightarrow> well_keyed (fmdrop k st)"
  by (auto simp: well_keyed_def fmpred_iff)

lemma keep_status_key [simp]: "object_key (keep_status old ob) = object_key ob"
  by (cases old; cases ob) (simp_all add: keep_status_def object_key_def)

lemma well_keyed_cr:
  assumes "well_keyed st" and "object_key (ObjCR cr) \<in> fset (fmdom st)"
  obtains old where "fmlookup st (object_key (ObjCR cr)) = Some (ObjCR old)" "object_key (ObjCR old) = object_key (ObjCR cr)"
proof -
  from assms(2) obtain ob where ob: "fmlookup st (object_key (ObjCR cr)) = Some ob" by (auto simp: fmlookup_dom_iff)
  with assms(1) have key: "object_key ob = object_key (ObjCR cr)"
    by (simp add: well_keyed_def fmpred_iff del: split_paired_All)
  then have "object_kind ob = ''InvokerDeployment''" by (simp add: object_key_def)
  then obtain old where "ob = ObjCR old" by (cases ob) auto
  with ob key that show thesis by blast
qed

interpretation mem_reliable: reliable_store mem_env "\<lambda>st. fset (fmdom st)" well_keyed
proof
  fix st :: store and ob
  assume "object_key ob \<notin> fset (fmdom st)" and "well_keyed st"
  then show "\<exists>s'. sCreate mem_env ob st = (None, s') \<and> well_keyed s'"
    by (auto simp: mem_env_def mem_create_def fmlookup_dom_iff well_keyed_upd)
next
  fix st :: store and ob
  assume "object_key ob \<in> fset (fmdom st)" and "omDeletionTimestamp (object_meta ob) = None" and "well_keyed st"
  then show "\<exists>s'. sUpdate mem_env ob st = (None, s') \<and> well_keyed s'"
    by (auto simp: mem_env_def mem_update_def fmlookup_dom_iff well_keyed_upd)
next
  fix st :: store and ob
  assume "well_keyed st"
  then show "\<exists>err s'. sDelete mem_env ob st = (err, s') \<and> IgnoreNotFound err = None \<and> well_keyed s'"
    by (auto simp: mem_env_def mem_delete_def well_keyed_drop)
next
  fix st :: store and cr
  assume "well_keyed st" and "object_key (ObjCR cr) \<in> fset (fmdom st)"
  then obtain old where "fmlookup st (object_key (ObjCR cr)) = Some (ObjCR old)"
    and "object_key (ObjCR old) = object_key (ObjCR cr)" by (rule well_keyed_cr)
  with \<open>well_keyed st\<close> show "\<exists>s'. sStatusUpdate mem_env cr st = (None, s') \<and> well_keyed s'"
    by (simp add: mem_env_def mem_status_update_def well_keyed_upd object_key_def)
next
  fix st st' :: store and ns n cr
  assume "sGetCR mem_env ns n st = (Inr cr, st')" and "well_keyed st"
  then have "fmlookup st (''InvokerDeployment'', ns, n) = Some (ObjCR cr)"
    by (auto simp: mem_env_def mem_get_def as_object_iff bind_eq_Some_conv split: option.splits)
  with \<open>well_keyed st\<close> show "object_key (ObjCR cr) \<in> fset (fmdom st)"
    by (auto simp: well_keyed_def fmpred_iff intro: fmdomI)
next
  fix st :: store and A
  assume "well_keyed st"
  then show "well_keyed (snd (sRange mem_env A st))" by (simp add: mem_env_def)
qed

subsection \<open>The reconciliation succeeds\<close>

text \<open>
  Nothing is in the way of the desired objects: every one is observed, in its place, or its name
  is free.
\<close>

definition unobstructed ::
  "string \<Rightarrow> key set \<Rightarrow> InvokerDeploymentSpec \<Rightarrow> ObservedInvokerDeploymentState \<Rightarrow> bool" where
  "unobstructed ns L spec observed \<longleftrightarrow>
     (\<forall>(se, n) \<in> spec_pods spec.
        observed_pod (obStatefulEntities observed) se n \<noteq> None \<or> n \<notin> names_of ''Pod'' ns L) \<and>
     (\<forall>n \<in> spec_config_map_names spec.
        fmlookup (obConfigMaps observed) n \<noteq> None \<or> n \<notin> names_of ''ConfigMap'' ns L)"

lemma distinct_keys:
  assumes "distinct (map name xs)" and "\<And>x. x \<in> set xs \<Longrightarrow> object_key (obj x) = (kind, ns, name x)"
  shows "distinct (map (\<lambda>x. object_key (obj x)) xs)"
  using assms by (auto simp: distinct_map inj_on_def)

lemma pod_plan_no_update: "pod_plan cr m d \<noteq> Some (Update ob)"
  by (cases "observed_pod m (entity_label d) (pod_name d)") (auto simp: pod_plan_def restart_present_def)

lemma ready_pod_plan:
  assumes "observed_pod m (entity_label d) (pod_name d) \<noteq> None \<or> object_key (ObjPod d) \<notin> L"
  shows "ready L (pod_plan cr m d)"
proof (cases "pod_plan cr m d")
  case (Some a)
  with assms have "ready L (Some a)"
    by (cases a) (auto simp: pod_plan_created pod_plan_no_update)
  with Some show ?thesis by simp
qed simp

lemma cm_plan_updated: "cm_plan cr m d = Some (Update ob) \<Longrightarrow> ob = ObjConfigMap d \<and> fmlookup m (cm_name d) \<noteq> None"
  by (cases "fmlookup m (cm_name d)") (auto simp: cm_plan_def update_present_def split: if_splits)

lemma ready_cm_plan:
  assumes "fmlookup m (cm_name d) \<noteq> None \<or> object_key (ObjConfigMap d) \<notin> L"
    and "fmlookup m (cm_name d) \<noteq> None \<Longrightarrow> object_key (ObjConfigMap d) \<in> L"
    and "omDeletionTimestamp (cmMeta d) = None"
  shows "ready L (cm_plan cr m d)"
proof (cases "cm_plan cr m d")
  case (Some a)
  with assms have "ready L (Some a)"
    by (cases a) (auto simp: cm_plan_created dest!: cm_plan_updated)
  with Some show ?thesis by simp
qed simp

text \<open>
  C39: The operator reaches its goal: on a server whose requests succeed when their object is (or
  is not yet) there, and on which nothing else has the name of a desired object that is not
  observed, the reconciliation after an observation that found the resource ends without error,
  with the pods of the spec, but for those deleted for a restart, and one config map per entity
  on the server.
\<close>

theorem reconciliation_succeeds:
  assumes store: "reliable_store E live good" and owner: "only_owner_references E" and range: "range_ok E"
    and good: "good (wServer w)"
    and observe: "run_state (observe E req zero_observed) w = ((None, observed), v)"
    and cr: "obCR observed = Some cr" and conv: "getDesiredClusterState E (Some cr) = Some desired"
    and names: "distinct_names (crSpec cr)"
    and free: "unobstructed (rqNamespace req) (live (wServer w)) (crSpec cr) observed"
  shows "\<exists>w'. run_state (reconcileResources E observed desired) v = ((zero_result, None), w') \<and>
    spec_pod_names (crSpec cr) - restarted_names cr observed desired
      \<subseteq> names_of ''Pod'' (rqNamespace req) (live (wServer w')) \<and>
    spec_config_map_names (crSpec cr) \<subseteq> names_of ''ConfigMap'' (rqNamespace req) (live (wServer w'))"
proof -
  let ?ns = "rqNamespace req" and ?ds = "desired_pods desired" and ?cs = "desired_cms desired"
  have labelled: "labelled_store E live good" using store by (simp add: reliable_store_def)
  obtain cms pods where obs: "obConfigMaps observed = index_config_maps cms"
    and cms: "\<And>x. x \<in> set cms \<Longrightarrow> omNamespace (cmMeta x) = ?ns \<and> (''ConfigMap'', ?ns, cm_name x) \<in> live (wServer w)"
    and ns: "omNamespace (crMeta cr) = ?ns" and same: "live (wServer v) = live (wServer w)" and v: "good (wServer v)"
    and stored: "\<exists>stored s' name. sGetCR E ?ns (rqName req) (wServer w) = (Inr stored, s') \<and> cr = set_next stored name"
    by (rule labelled_store.observe_accurate [OF labelled good observe cr]) (rule that; blast)
  note wf = converter_well_formed [OF owner conv names, unfolded well_formed_def ns]
  have pod_key: "object_key (ObjPod d) = (''Pod'', ?ns, pod_name d)" if "d \<in> set ?ds" for d
    using wf that by (simp add: object_key_def)
  have cm_key: "object_key (ObjConfigMap d) = (''ConfigMap'', ?ns, cm_name d)" if "d \<in> set ?cs" for d
    using wf that by (simp add: object_key_def)
  have "ready (live (wServer v)) (pod_plan cr (obStatefulEntities observed) d)" if d: "d \<in> set ?ds" for d
  proof (rule ready_pod_plan)
    have "(entity_label d, pod_name d) \<in> spec_pods (crSpec cr)"
      using desired_positions [OF owner conv] d by blast
    with free show "observed_pod (obStatefulEntities observed) (entity_label d) (pod_name d) \<noteq> None \<or>
        object_key (ObjPod d) \<notin> live (wServer v)"
      unfolding unobstructed_def by (auto simp: pod_key [OF d] names_of_def same)
  qed
  moreover have "ready (live (wServer v)) (cm_plan cr (obConfigMaps observed) d)" if d: "d \<in> set ?cs" for d
  proof (rule ready_cm_plan)
    have "cm_name d \<in> spec_config_map_names (crSpec cr)" using wf d by blast
    with free show "fmlookup (obConfigMaps observed) (cm_name d) \<noteq> None \<or> object_key (ObjConfigMap d) \<notin> live (wServer v)"
      unfolding unobstructed_def by (auto simp: cm_key [OF d] names_of_def same)
    show "object_key (ObjConfigMap d) \<in> live (wServer v)" if found: "fmlookup (obConfigMaps observed) (cm_name d) \<noteq> None"
    proof -
      from found obtain x where "fmlookup (index_config_maps cms) (cm_name d) = Some x" by (auto simp: obs)
      from fmlookup_insert_all_SomeD [OF this [unfolded index_config_maps_def]] cms show ?thesis
        by (fastforce simp: cm_key [OF d] same)
    qed
    show "omDeletionTimestamp (cmMeta d) = None" using wf d by blast
  qed
  moreover have "object_key (ObjCR cr) \<in> live (wServer v)"
    using stored reliable_store.get_cr_live [OF store good] by (fastforce simp: object_key_def set_next_def same)
  moreover have "distinct (map (\<lambda>d. object_key (ObjPod d)) ?ds)" "distinct (map (\<lambda>d. object_key (ObjConfigMap d)) ?cs)"
    using wf distinct_keys [of pod_name ?ds ObjPod] distinct_keys [of cm_name ?cs ObjConfigMap] pod_key cm_key by blast+
  ultimately obtain w' where run: "run_state (reconcileResources E observed desired) v = ((zero_result, None), w')"
    using reliable_store.reconcile_succeeds [OF store v cr] by blast
  with spec_on_server [OF labelled owner range good observe cr conv names refl run] show ?thesis by blast
qed

lemma restarted_listed:
  assumes "obStatefulEntities observed = group_pods pods fmempty"
  shows "restarted_names cr observed desired \<subseteq> pod_name ` set pods"
  unfolding restarted_names_def assms using observed_pod_in_list by blast

lemma cluster_store_keys:
  "(''Pod'', ''test'', ''sum-0'') |\<notin>| fmdom cluster_store"
  "(''ConfigMap'', ''test'', ''sum-configmap'') |\<notin>| fmdom cluster_store"
  by code_simp+

theorem reconciliation_succeeds_witness:
  "\<exists>observed v w'.
    run_state (observe mem_env demo_request zero_observed) (start_world cluster_store) = ((None, observed), v) \<and>
    run_state (reconcileResources mem_env observed demo_converted) v = ((zero_result, None), w') \<and>
    ''sum-0'' \<in> names_of ''Pod'' ''test'' (fset (fmdom (wServer w'))) \<and>
    ''sum-configmap'' \<in> names_of ''ConfigMap'' ''test'' (fset (fmdom (wServer w')))"
proof -
  let ?name = "revision_name demo_cr demo_text" and ?w = "start_world cluster_store"
  obtain observed v where observe: "run_state (observe mem_env demo_request zero_observed) ?w = ((None, observed), v)"
    and cr: "obCR observed = Some (set_next demo_cr ?name)"
    and entities: "obStatefulEntities observed = group_pods [demo_pod ''sum'' ''old-0'' ''Running''] fmempty"
    by (rule cluster_observe)
  have spec: "crSpec (set_next demo_cr ?name) = demo_spec" by (simp add: set_next_def demo_cr_def)
  have names: "distinct_names (crSpec (set_next demo_cr ?name))" unfolding spec by code_simp
  have good: "well_keyed (wServer ?w)" by (simp add: start_world_def cluster_well_keyed)
  have free: "unobstructed (rqNamespace demo_request) (fset (fmdom (wServer ?w))) (crSpec (set_next demo_cr ?name)) observed"
    using cluster_store_keys
    by (simp add: unobstructed_def spec demo_spec_parts names_of_def demo_request_def start_world_def)
  have pods: "spec_pod_names demo_spec = {''sum-0''}"
    by (auto simp: spec_pod_names_def demo_spec_def demo_entity_def)
  have "restarted_names (set_next demo_cr ?name) observed demo_converted \<subseteq> {''old-0''}"
    using restarted_listed [OF entities] by (simp add: demo_pod_def demo_meta_def zero_meta_def)
  then have "''sum-0'' \<notin> restarted_names (set_next demo_cr ?name) observed demo_converted" by auto
  moreover have "rqNamespace demo_request = ''test''" by (simp add: demo_request_def)
  moreover obtain w' where run: "run_state (reconcileResources mem_env observed demo_converted) v = ((zero_result, None), w')"
    and "spec_pod_names demo_spec - restarted_names (set_next demo_cr ?name) observed demo_converted
      \<subseteq> names_of ''Pod'' (rqNamespace demo_request) (fset (fmdom (wServer w')))"
    and "spec_config_map_names demo_spec \<subseteq> names_of ''ConfigMap'' (rqNamespace demo_request) (fset (fmdom (wServer w')))"
    using reconciliation_succeeds [OF mem_reliable.reliable_store_axioms only_owner_references_mem_env range_ok_mem_env
        good observe cr named_conversion names free] unfolding spec by blast
  ultimately have "''sum-0'' \<in> names_of ''Pod'' ''test'' (fset (fmdom (wServer w')))"
    "''sum-configmap'' \<in> names_of ''ConfigMap'' ''test'' (fset (fmdom (wServer w')))"
    unfolding pods demo_spec_parts by auto
  with observe run show ?thesis by blast
qed

end
