(* ===== verification/Deep_Copy.thy ===== *)
theory Deep_Copy
  imports Status_Updater
begin

section \<open>zz_generated.deepcopy.go: copies on the heap\<close>

text \<open>
  The other theories treat a resource as a value.  In the program it is a struct with pointers,
  slices and maps, and \<open>DeepCopyInto\<close> is what separates one value from another.  Here the
  structs are kept with their references: an address names a cell of a heap, a pointer or a
  slice is nil or an address, and a slice is the address of a cell that holds its elements.
  \<open>view\<close> functions read the value a struct stands for; \<open>reach\<close> lists the addresses it can reach.

  The deep copies of the client libraries' types (\<open>ResourceRequirements\<close>, \<open>ObjectMeta\<close>,
  \<open>ListMeta\<close>, \<open>Condition\<close>) are not part of the repository: they are the fields of a record, and
  what is required of them is the contract \<open>deep_copier\<close>, the same that is proved for every type
  of the repository.
\<close>

subsection \<open>The heap\<close>

type_synonym addr = nat

record hResources =
  hrLimits :: "addr option"
  hrRequests :: "addr option"
  hrClaims :: "addr option"

record hPodConfig =
  hpName :: "addr option"
  hpPartitions :: "addr option"
  hpResources :: hResources

record hEntity =
  heName :: "addr option"
  heExecutorImage :: "addr option"
  heIOImage :: "addr option"
  heStateImage :: "addr option"
  heIOAddress :: "addr option"
  heInputTopic :: "addr option"
  heOutputTopic :: "addr option"
  hePods :: "addr option"

record hSpec =
  hsVersion :: string
  hsImagePullPolicy :: string
  hsImagePullSecrets :: "addr option"
  hsStatefulEntities :: "addr option"
  hsHistoryLimit :: "addr option"

record hStatus =
  htConditions :: "addr option"
  htComponents :: ComponentsStatus
  htState :: string
  htLastUpdateTime :: string
  htCurrentRevision :: string
  htNextRevision :: string

record hMeta =
  hmName :: string
  hmNamespace :: string
  hmUID :: string
  hmLabels :: "addr option"
  hmFinalizers :: "addr option"
  hmDeletionTimestamp :: "addr option"
  hmOwnerReferences :: "addr option"

record hDeployment =
  hdAPIVersion :: string
  hdKind :: string
  hdMeta :: hMeta
  hdSpec :: hSpec
  hdStatus :: hStatus

record hListMeta =
  hlResourceVersion :: string
  hlRemainingItemCount :: "addr option"

record hList =
  hiAPIVersion :: string
  hiKind :: string
  hiListMeta :: hListMeta
  hiItems :: "addr option"

text \<open>What a cell can hold: the pointed-to values, the elements of slices, and maps.\<close>

datatype cell =
    CString string
  | CInt32 "32 word"
  | CInt64 "64 word"
  | CTime gotime
  | CStrings "string list"
  | CQuantities "quantity gomap"
  | CLabels "string gomap"
  | COwners "OwnerReference list"
  | CSecretRefs "LocalObjectReference list"
  | CConditions "Condition list"
  | CPodConfigs "hPodConfig list"
  | CEntities "hEntity list"
  | CDeployments "hDeployment list"
  | CComponents ComponentsStatus
  | CPodConfig hPodConfig
  | CEntity hEntity
  | CSpec hSpec
  | CStatus hStatus
  | CDeployment hDeployment
  | CList hList

type_synonym heap = "cell list"

text \<open>
  Reading a cell at its type.  A cell of another type does not occur: the language is typed.
\<close>

fun the_string :: "cell \<Rightarrow> string" where "the_string (CString s) = s" | "the_string _ = []"
fun the_int32 :: "cell \<Rightarrow> 32 word" where "the_int32 (CInt32 w) = w" | "the_int32 _ = 0"
fun the_int64 :: "cell \<Rightarrow> 64 word" where "the_int64 (CInt64 w) = w" | "the_int64 _ = 0"
fun the_time :: "cell \<Rightarrow> gotime option" where "the_time (CTime t) = Some t" | "the_time _ = None"
fun the_strings :: "cell \<Rightarrow> string list" where "the_strings (CStrings ss) = ss" | "the_strings _ = []"
fun the_quantities :: "cell \<Rightarrow> quantity gomap" where
  "the_quantities (CQuantities m) = m" | "the_quantities _ = fmempty"
fun the_labels :: "cell \<Rightarrow> string gomap" where "the_labels (CLabels m) = m" | "the_labels _ = fmempty"
fun the_owners :: "cell \<Rightarrow> OwnerReference list" where "the_owners (COwners os) = os" | "the_owners _ = []"
fun the_secret_refs :: "cell \<Rightarrow> LocalObjectReference list" where
  "the_secret_refs (CSecretRefs rs) = rs" | "the_secret_refs _ = []"
fun the_conditions :: "cell \<Rightarrow> Condition list" where
  "the_conditions (CConditions cs) = cs" | "the_conditions _ = []"
fun the_pod_configs :: "cell \<Rightarrow> hPodConfig list" where
  "the_pod_configs (CPodConfigs ps) = ps" | "the_pod_configs _ = []"
fun the_entities :: "cell \<Rightarrow> hEntity list" where "the_entities (CEntities es) = es" | "the_entities _ = []"
fun the_deployments :: "cell \<Rightarrow> hDeployment list" where
  "the_deployments (CDeployments ds) = ds" | "the_deployments _ = []"

subsection \<open>The contract of a deep copy\<close>

text \<open>
  A copier turns a value and a heap into a copy and a heap.  What a value stands for depends on
  the cells it reaches only; a copy leaves the old cells alone, stands for the same value and
  reaches new cells only.
\<close>

definition agree :: "heap \<Rightarrow> heap \<Rightarrow> addr list \<Rightarrow> bool" where
  "agree h h' as \<longleftrightarrow> list_all (\<lambda>a. a < length h \<and> a < length h' \<and> h' ! a = h ! a) as"

definition within :: "heap \<Rightarrow> addr list \<Rightarrow> bool" where
  "within h as \<longleftrightarrow> list_all (\<lambda>a. a < length h) as"

definition beyond :: "heap \<Rightarrow> addr list \<Rightarrow> bool" where
  "beyond h as \<longleftrightarrow> list_all (\<lambda>a. length h \<le> a) as"

lemma agree_simps [simp]:
  "agree h h' []" "agree h h' (a # as) \<longleftrightarrow> a < length h \<and> a < length h' \<and> h' ! a = h ! a \<and> agree h h' as"
  "agree h h' (as @ bs) \<longleftrightarrow> agree h h' as \<and> agree h h' bs"
  by (auto simp: agree_def)

lemma within_simps [simp]:
  "within h []" "within h (a # as) \<longleftrightarrow> a < length h \<and> within h as"
  "within h (as @ bs) \<longleftrightarrow> within h as \<and> within h bs"
  by (auto simp: within_def)

lemma beyond_simps [simp]:
  "beyond h []" "beyond h (a # as) \<longleftrightarrow> length h \<le> a \<and> beyond h as"
  "beyond h (as @ bs) \<longleftrightarrow> beyond h as \<and> beyond h bs"
  by (auto simp: beyond_def)

lemma agree_append: "within h as \<Longrightarrow> agree h (h @ new) as"
  by (auto simp: agree_def within_def list_all_iff nth_append)

lemma within_append: "within h as \<Longrightarrow> within (h @ new) as"
  by (auto simp: within_def list_all_iff)

lemma beyond_prefix: "beyond (h @ new) as \<Longrightarrow> beyond h as"
  by (auto simp: beyond_def list_all_iff)

lemma agree_update: "within h as \<Longrightarrow> a \<notin> set as \<Longrightarrow> agree h (h[a := c]) as"
  by (auto simp: agree_def within_def list_all_iff) (metis nth_list_update_neq)

lemma within_not_beyond: "within h as \<Longrightarrow> beyond h bs \<Longrightarrow> b \<in> set bs \<Longrightarrow> b \<notin> set as"
  by (fastforce simp: within_def beyond_def list_all_iff)

locale deep_copier =
  fixes cp :: "'a \<Rightarrow> heap \<Rightarrow> 'a \<times> heap"
    and reach :: "heap \<Rightarrow> 'a \<Rightarrow> addr list"
    and view :: "heap \<Rightarrow> 'a \<Rightarrow> 'v"
  assumes frame: "agree h h' (reach h x) \<Longrightarrow> view h' x = view h x \<and> reach h' x = reach h x"
    and copies: "within h (reach h x) \<Longrightarrow> cp x h = (y, h') \<Longrightarrow>
      \<exists>new. h' = h @ new \<and> view h' y = view h x \<and> within h' (reach h' y) \<and> beyond h (reach h' y)"
begin

lemma later:
  "within h (reach h x) \<Longrightarrow> view (h @ new) x = view h x \<and> reach (h @ new) x = reach h x"
  using frame [OF agree_append] .

text \<open>The copy and the original stand for the same value, before and after.\<close>

lemma copy_equal:
  assumes "within h (reach h x)" and "cp x h = (y, h')"
  shows "view h' y = view h x" and "view h' x = view h x" and "\<exists>new. h' = h @ new"
  using copies [OF assms] later [OF assms(1)] by auto

text \<open>A write to a cell of the copy is not seen through the original.\<close>

lemma copy_independent:
  assumes "within h (reach h x)" and "cp x h = (y, h')" and "a \<in> set (reach h' y)"
  shows "view (h'[a := c]) x = view h x"
proof -
  from copies [OF assms(1,2)] obtain new where h': "h' = h @ new" and "beyond h (reach h' y)" by blast
  with assms(1,3) have "a \<notin> set (reach h x)" by (intro within_not_beyond)
  moreover have "within h' (reach h' x)" and "reach h' x = reach h x" and "view h' x = view h x"
    using later [OF assms(1), of new] within_append [OF assms(1)] by (simp_all add: h')
  ultimately show ?thesis using frame [OF agree_update] by metis
qed

text \<open>A write to a cell that was there before is not seen through the copy.\<close>

lemma original_independent:
  assumes "within h (reach h x)" and "cp x h = (y, h')" and "a < length h"
  shows "view (h'[a := c]) y = view h x"
proof -
  from copies [OF assms(1,2)] have y: "view h' y = view h x" "within h' (reach h' y)" "beyond h (reach h' y)"
    by blast+
  then have "a \<notin> set (reach h' y)" using assms(3) by (auto simp: beyond_def list_all_iff)
  with y show ?thesis using frame [OF agree_update] by metis
qed

end

subsection \<open>Building copiers\<close>

text \<open>A field without references is copied by the assignment \<open>*out = *in\<close>.\<close>

lemma deep_copier_plain: "deep_copier Pair (\<lambda>h x. []) (\<lambda>h x. x)"
  by unfold_locales auto

text \<open>
  \<open>*out = new(T); **out = **in\<close>, and \<open>*out = make([]T, len(*in)); copy(*out, *in)\<close>, for a \<open>T\<close>
  without references.
\<close>

definition copy_cell :: "addr option \<Rightarrow> heap \<Rightarrow> addr option \<times> heap" where
  "copy_cell p h = (case p of None \<Rightarrow> (None, h) | Some a \<Rightarrow> (Some (length h), h @ [h ! a]))"

definition reach_cell :: "heap \<Rightarrow> addr option \<Rightarrow> addr list" where
  "reach_cell h p = (case p of None \<Rightarrow> [] | Some a \<Rightarrow> [a])"

definition view_cell :: "(cell \<Rightarrow> 'v) \<Rightarrow> heap \<Rightarrow> addr option \<Rightarrow> 'v option" where
  "view_cell des h p = map_option (\<lambda>a. des (h ! a)) p"

lemma deep_copier_cell: "deep_copier copy_cell reach_cell (view_cell des)"
  by unfold_locales (auto simp: copy_cell_def reach_cell_def view_cell_def split: option.splits)

text \<open>
  \<open>*out = make([]T, len(*in)); for i := range *in { (*in)[i].DeepCopyInto(&(*out)[i]) }\<close>: the
  elements are written into the new slice's cell, which nobody reads before it is complete.
\<close>

fun copy_list :: "('e \<Rightarrow> heap \<Rightarrow> 'e \<times> heap) \<Rightarrow> 'e list \<Rightarrow> heap \<Rightarrow> 'e list \<times> heap" where
  "copy_list cp [] h = ([], h)"
| "copy_list cp (x # xs) h = (case cp x h of (y, h1) \<Rightarrow> case copy_list cp xs h1 of (ys, h2) \<Rightarrow> (y # ys, h2))"

definition reach_list :: "(heap \<Rightarrow> 'e \<Rightarrow> addr list) \<Rightarrow> heap \<Rightarrow> 'e list \<Rightarrow> addr list" where
  "reach_list reach h xs = concat (map (reach h) xs)"

lemma deep_copier_list:
  assumes elem: "deep_copier cp reach view"
  shows "deep_copier (copy_list cp) (reach_list reach) (\<lambda>h. map (view h))"
proof
  fix h h' :: heap and xs
  assume "agree h h' (reach_list reach h xs)"
  then show "map (view h') xs = map (view h) xs \<and> reach_list reach h' xs = reach_list reach h xs"
    by (induction xs) (auto simp: reach_list_def dest: deep_copier.frame [OF elem])
next
  fix h h' :: heap and xs ys
  assume "within h (reach_list reach h xs)" and "copy_list cp xs h = (ys, h')"
  then show "\<exists>new. h' = h @ new \<and> map (view h') ys = map (view h) xs \<and>
      within h' (reach_list reach h' ys) \<and> beyond h (reach_list reach h' ys)"
  proof (induction xs arbitrary: h ys)
    case Nil
    then show ?case by (simp add: reach_list_def)
  next
    case (Cons x xs)
    from Cons.prems have x: "within h (reach h x)" and xs: "within h (reach_list reach h xs)"
      by (simp_all add: reach_list_def)
    from Cons.prems(2) obtain y h1 zs where y: "cp x h = (y, h1)" and zs: "copy_list cp xs h1 = (zs, h')"
      and ys: "ys = y # zs" by (auto split: prod.splits)
    from deep_copier.copies [OF elem x y] obtain new1 where h1: "h1 = h @ new1"
      and y1: "view h1 y = view h x" "within h1 (reach h1 y)" "beyond h (reach h1 y)" by blast
    have "agree h h1 (reach_list reach h xs)" using agree_append [OF xs] by (simp add: h1)
    then have same: "map (view h1) xs = map (view h) xs \<and> reach_list reach h1 xs = reach_list reach h xs"
      by (induction xs) (auto simp: reach_list_def dest: deep_copier.frame [OF elem])
    then have "within h1 (reach_list reach h1 xs)" using within_append [OF xs] by (simp add: h1)
    from Cons.IH [OF this zs] obtain new2 where h': "h' = h1 @ new2" "map (view h') zs = map (view h1) xs"
      "within h' (reach_list reach h' zs)" "beyond h1 (reach_list reach h' zs)" by blast
    from deep_copier.later [OF elem y1(2)] h'(1)
    have "view h' y = view h1 y" "reach h' y = reach h1 y" by simp_all
    then show ?case
      using h1 h' y1 same within_append [OF y1(2)] beyond_prefix [of h new1]
      by (auto simp: ys reach_list_def)
  qed
qed

text \<open>
  A new cell, written when its content has been copied: \<open>out := new(T); in.DeepCopyInto(out)\<close>, and
  the slices above.
\<close>

definition new_copy ::
  "('t \<Rightarrow> cell) \<Rightarrow> (cell \<Rightarrow> 't) \<Rightarrow> 't \<Rightarrow> ('t \<Rightarrow> heap \<Rightarrow> 't \<times> heap) \<Rightarrow> addr option \<Rightarrow> heap \<Rightarrow> addr option \<times> heap"
where
  "new_copy con des zero cp p h =
     (case p of
        None \<Rightarrow> (None, h)
      | Some a \<Rightarrow>
        (case cp (des (h ! a)) (h @ [con zero]) of
           (out, h1) \<Rightarrow> (Some (length h), h1[length h := con out])))"

definition reach_new :: "(cell \<Rightarrow> 't) \<Rightarrow> (heap \<Rightarrow> 't \<Rightarrow> addr list) \<Rightarrow> heap \<Rightarrow> addr option \<Rightarrow> addr list" where
  "reach_new des reach h p = (case p of None \<Rightarrow> [] | Some a \<Rightarrow> a # reach h (des (h ! a)))"

definition view_new :: "(cell \<Rightarrow> 't) \<Rightarrow> (heap \<Rightarrow> 't \<Rightarrow> 'v) \<Rightarrow> heap \<Rightarrow> addr option \<Rightarrow> 'v option" where
  "view_new des view h p = map_option (\<lambda>a. view h (des (h ! a))) p"

lemma deep_copier_new:
  assumes payload: "deep_copier cp reach view" and des: "\<And>x. des (con x) = x"
  shows "deep_copier (new_copy con des zero cp) (reach_new des reach) (view_new des view)"
proof
  fix h h' :: heap and p
  assume "agree h h' (reach_new des reach h p)"
  then show "view_new des view h' p = view_new des view h p \<and> reach_new des reach h' p = reach_new des reach h p"
    using deep_copier.frame [OF payload]
    by (auto simp: view_new_def reach_new_def split: option.splits)
next
  fix h h' :: heap and p q
  assume within: "within h (reach_new des reach h p)" and copy: "new_copy con des zero cp p h = (q, h')"
  show "\<exists>new. h' = h @ new \<and> view_new des view h' q = view_new des view h p \<and>
      within h' (reach_new des reach h' q) \<and> beyond h (reach_new des reach h' q)"
  proof (cases p)
    case None
    with copy show ?thesis by (simp add: new_copy_def view_new_def reach_new_def)
  next
    case (Some a)
    let ?x = "des (h ! a)" and ?h0 = "h @ [con zero]"
    from copy Some obtain y h1 where y: "cp ?x ?h0 = (y, h1)"
      and q: "q = Some (length h)" "h' = h1[length h := con y]"
      by (auto simp: new_copy_def split: prod.splits)
    have x: "within h (reach h ?x)" using within Some by (simp add: reach_new_def)
    from deep_copier.later [OF payload x]
    have x0: "view ?h0 ?x = view h ?x" "reach ?h0 ?x = reach h ?x" by simp_all
    then have "within ?h0 (reach ?h0 ?x)" using within_append [OF x] by simp
    from deep_copier.copies [OF payload this y] obtain new where h1: "h1 = ?h0 @ new"
      and y1: "view h1 y = view ?h0 ?x" "within h1 (reach h1 y)" "beyond ?h0 (reach h1 y)" by blast
    have h': "h' = h @ con y # new" by (simp add: q h1)
    have "length h \<notin> set (reach h1 y)" using y1(3) by (auto simp: beyond_def list_all_iff)
    then have "agree h1 h' (reach h1 y)" using agree_update [OF y1(2)] by (simp add: q(2))
    from deep_copier.frame [OF payload this] have "view h' y = view h1 y" "reach h' y = reach h1 y" by auto
    moreover have "des (h' ! length h) = y" by (simp add: h' des)
    moreover have "length h' = length h1" by (simp add: q(2))
    ultimately show ?thesis
      using x0 y1 within Some beyond_prefix [OF y1(3)]
      by (auto simp: h' q(1) view_new_def reach_new_def within_def)
  qed
qed

abbreviation copy_slice where "copy_slice con des cp \<equiv> new_copy con des [] (copy_list cp)"
abbreviation reach_slice where "reach_slice des reach \<equiv> reach_new des (reach_list reach)"
abbreviation view_slice where "view_slice des view \<equiv> view_new des (\<lambda>h. map (view h))"

lemmas deep_copier_slice = deep_copier_new [OF deep_copier_list, where zero = "[]"]

text \<open>Two fields, copied one after the other; and a struct as its fields.\<close>

definition copy_pair ::
  "('a \<Rightarrow> heap \<Rightarrow> 'a \<times> heap) \<Rightarrow> ('b \<Rightarrow> heap \<Rightarrow> 'b \<times> heap) \<Rightarrow> 'a \<times> 'b \<Rightarrow> heap \<Rightarrow> ('a \<times> 'b) \<times> heap"
where
  "copy_pair cp1 cp2 x h =
     (case cp1 (fst x) h of (y, h1) \<Rightarrow> case cp2 (snd x) h1 of (z, h2) \<Rightarrow> ((y, z), h2))"

definition reach_pair ::
  "(heap \<Rightarrow> 'a \<Rightarrow> addr list) \<Rightarrow> (heap \<Rightarrow> 'b \<Rightarrow> addr list) \<Rightarrow> heap \<Rightarrow> 'a \<times> 'b \<Rightarrow> addr list" where
  "reach_pair r1 r2 h x = r1 h (fst x) @ r2 h (snd x)"

definition view_pair :: "(heap \<Rightarrow> 'a \<Rightarrow> 'v) \<Rightarrow> (heap \<Rightarrow> 'b \<Rightarrow> 'w) \<Rightarrow> heap \<Rightarrow> 'a \<times> 'b \<Rightarrow> 'v \<times> 'w" where
  "view_pair v1 v2 h x = (v1 h (fst x), v2 h (snd x))"

lemma deep_copier_pair:
  assumes c1: "deep_copier cp1 r1 v1" and c2: "deep_copier cp2 r2 v2"
  shows "deep_copier (copy_pair cp1 cp2) (reach_pair r1 r2) (view_pair v1 v2)"
proof
  fix h h' :: heap and x
  assume "agree h h' (reach_pair r1 r2 h x)"
  then show "view_pair v1 v2 h' x = view_pair v1 v2 h x \<and> reach_pair r1 r2 h' x = reach_pair r1 r2 h x"
    using deep_copier.frame [OF c1] deep_copier.frame [OF c2] by (auto simp: view_pair_def reach_pair_def)
next
  fix h h' :: heap and x q
  assume within: "within h (reach_pair r1 r2 h x)" and copy: "copy_pair cp1 cp2 x h = (q, h')"
  from copy obtain y z h1 where y: "cp1 (fst x) h = (y, h1)" and z: "cp2 (snd x) h1 = (z, h')" and q: "q = (y, z)"
    by (auto simp: copy_pair_def split: prod.splits)
  have w: "within h (r1 h (fst x))" "within h (r2 h (snd x))" using within by (simp_all add: reach_pair_def)
  from deep_copier.copies [OF c1 w(1) y] obtain new1 where h1: "h1 = h @ new1" and
    y1: "v1 h1 y = v1 h (fst x)" "within h1 (r1 h1 y)" "beyond h (r1 h1 y)" by blast
  from deep_copier.later [OF c2 w(2), of new1]
  have x2: "v2 h1 (snd x) = v2 h (snd x)" "r2 h1 (snd x) = r2 h (snd x)" by (simp_all add: h1)
  then have "within h1 (r2 h1 (snd x))" using within_append [OF w(2)] by (simp add: h1)
  from deep_copier.copies [OF c2 this z] obtain new2 where h': "h' = h1 @ new2" and
    z2: "v2 h' z = v2 h1 (snd x)" "within h' (r2 h' z)" "beyond h1 (r2 h' z)" by blast
  from deep_copier.later [OF c1 y1(2), of new2] have "v1 h' y = v1 h1 y" "r1 h' y = r1 h1 y" by (simp_all add: h')
  then show "\<exists>new. h' = h @ new \<and> view_pair v1 v2 h' q = view_pair v1 v2 h x \<and>
      within h' (reach_pair r1 r2 h' q) \<and> beyond h (reach_pair r1 r2 h' q)"
    using h1 h' x2 y1 z2 within_append [OF y1(2), of new2] beyond_prefix [of h new1 "r2 h' z"]
    by (auto simp: q view_pair_def reach_pair_def)
qed

text \<open>A struct and the tuple of its fields: \<open>f\<close> takes the struct apart, \<open>g\<close> builds it.\<close>

lemma deep_copier_struct:
  assumes t: "deep_copier cp reach view" and inv: "\<And>y. f (g y) = y"
    and cp: "\<And>x h. cp' x h = (case cp (f x) h of (y, h') \<Rightarrow> (g y, h'))"
    and reach: "\<And>h x. reach' h x = reach h (f x)" and view: "\<And>h x. view' h x = V (view h (f x))"
  shows "deep_copier cp' reach' view'"
proof
  fix h h' :: heap and x
  assume "agree h h' (reach' h x)"
  then show "view' h' x = view' h x \<and> reach' h' x = reach' h x"
    using deep_copier.frame [OF t, of h h' "f x"] by (simp add: reach view)
next
  fix h h' :: heap and x q
  assume "within h (reach' h x)" and "cp' x h = (q, h')"
  then obtain y where "cp (f x) h = (y, h')" and "q = g y" and "within h (reach h (f x))"
    by (auto simp: cp reach split: prod.splits)
  with deep_copier.copies [OF t, of h "f x" y h'] show "\<exists>new. h' = h @ new \<and> view' h' q = view' h x \<and>
      within h' (reach' h' q) \<and> beyond h (reach' h' q)"
    by (auto simp: reach view inv)
qed

subsection \<open>The types of the client libraries\<close>

record library =
  lcResources :: "hResources \<Rightarrow> heap \<Rightarrow> hResources \<times> heap"
  lcMeta :: "hMeta \<Rightarrow> heap \<Rightarrow> hMeta \<times> heap"
  lcListMeta :: "hListMeta \<Rightarrow> heap \<Rightarrow> hListMeta \<times> heap"
  lcCondition :: "Condition \<Rightarrow> heap \<Rightarrow> Condition \<times> heap"

definition reach_Resources :: "heap \<Rightarrow> hResources \<Rightarrow> addr list" where
  "reach_Resources h r = reach_cell h (hrLimits r) @ reach_cell h (hrRequests r) @ reach_cell h (hrClaims r)"

definition view_Resources :: "heap \<Rightarrow> hResources \<Rightarrow> ResourceRequirements" where
  "view_Resources h r = \<lparr>rrLimits = view_cell the_quantities h (hrLimits r),
     rrRequests = view_cell the_quantities h (hrRequests r), rrClaims = view_cell the_strings h (hrClaims r)\<rparr>"

text \<open>\<open>Api_Types\<close> does not tell nil from empty in the metadata.\<close>

definition reach_Meta :: "heap \<Rightarrow> hMeta \<Rightarrow> addr list" where
  "reach_Meta h m = reach_cell h (hmLabels m) @ reach_cell h (hmFinalizers m)
     @ reach_cell h (hmDeletionTimestamp m) @ reach_cell h (hmOwnerReferences m)"

definition view_Meta :: "heap \<Rightarrow> hMeta \<Rightarrow> ObjectMeta" where
  "view_Meta h m = \<lparr>omName = hmName m, omNamespace = hmNamespace m, omUID = hmUID m,
     omLabels = (case view_cell the_labels h (hmLabels m) of None \<Rightarrow> fmempty | Some l \<Rightarrow> l),
     omFinalizers = slice_items (view_cell the_strings h (hmFinalizers m)),
     omDeletionTimestamp = Option.bind (view_cell the_time h (hmDeletionTimestamp m)) id,
     omOwnerReferences = slice_items (view_cell the_owners h (hmOwnerReferences m))\<rparr>"

definition reach_ListMeta :: "heap \<Rightarrow> hListMeta \<Rightarrow> addr list" where
  "reach_ListMeta h m = reach_cell h (hlRemainingItemCount m)"

definition view_ListMeta :: "heap \<Rightarrow> hListMeta \<Rightarrow> string \<times> 64 word option" where
  "view_ListMeta h m = (hlResourceVersion m, view_cell the_int64 h (hlRemainingItemCount m))"

subsection \<open>The types of the repository\<close>

text \<open>A struct without references.\<close>

definition DeepCopyInto_ComponentsStatus :: "ComponentsStatus \<Rightarrow> heap \<Rightarrow> ComponentsStatus \<times> heap" where
  "DeepCopyInto_ComponentsStatus x h = (x, h)"

definition DeepCopyInto_PodConfig :: "library \<Rightarrow> hPodConfig \<Rightarrow> heap \<Rightarrow> hPodConfig \<times> heap" where
  "DeepCopyInto_PodConfig L x h =
     (case copy_cell (hpName x) h of (name, h) \<Rightarrow>
      case copy_cell (hpPartitions x) h of (partitions, h) \<Rightarrow>
      case lcResources L (hpResources x) h of (resources, h) \<Rightarrow>
        (x\<lparr>hpName := name, hpPartitions := partitions, hpResources := resources\<rparr>, h))"

definition reach_PodConfig :: "heap \<Rightarrow> hPodConfig \<Rightarrow> addr list" where
  "reach_PodConfig h x = reach_cell h (hpName x) @ reach_cell h (hpPartitions x) @ reach_Resources h (hpResources x)"

definition view_PodConfig :: "heap \<Rightarrow> hPodConfig \<Rightarrow> PodConfig" where
  "view_PodConfig h x = \<lparr>pcName = view_cell the_string h (hpName x),
     pcPartitions = view_cell the_strings h (hpPartitions x), pcResources = view_Resources h (hpResources x)\<rparr>"

definition DeepCopyInto_StatefulEntity :: "library \<Rightarrow> hEntity \<Rightarrow> heap \<Rightarrow> hEntity \<times> heap" where
  "DeepCopyInto_StatefulEntity L x h =
     (case copy_cell (heName x) h of (name, h) \<Rightarrow>
      case copy_cell (heExecutorImage x) h of (executorImage, h) \<Rightarrow>
      case copy_cell (heIOImage x) h of (ioImage, h) \<Rightarrow>
      case copy_cell (heStateImage x) h of (stateImage, h) \<Rightarrow>
      case copy_cell (heIOAddress x) h of (ioAddress, h) \<Rightarrow>
      case copy_cell (heInputTopic x) h of (inputTopic, h) \<Rightarrow>
      case copy_cell (heOutputTopic x) h of (outputTopic, h) \<Rightarrow>
      case copy_slice CPodConfigs the_pod_configs (DeepCopyInto_PodConfig L) (hePods x) h of (pods, h) \<Rightarrow>
        (x\<lparr>heName := name, heExecutorImage := executorImage, heIOImage := ioImage,
           heStateImage := stateImage, heIOAddress := ioAddress, heInputTopic := inputTopic,
           heOutputTopic := outputTopic, hePods := pods\<rparr>, h))"

definition reach_StatefulEntity :: "heap \<Rightarrow> hEntity \<Rightarrow> addr list" where
  "reach_StatefulEntity h x = reach_cell h (heName x) @ reach_cell h (heExecutorImage x)
     @ reach_cell h (heIOImage x) @ reach_cell h (heStateImage x) @ reach_cell h (heIOAddress x)
     @ reach_cell h (heInputTopic x) @ reach_cell h (heOutputTopic x)
     @ reach_slice the_pod_configs reach_PodConfig h (hePods x)"

definition view_StatefulEntity :: "heap \<Rightarrow> hEntity \<Rightarrow> StatefulEntity" where
  "view_StatefulEntity h x = \<lparr>seName = view_cell the_string h (heName x),
     seExecutorImage = view_cell the_string h (heExecutorImage x),
     seIOImage = view_cell the_string h (heIOImage x), seStateImage = view_cell the_string h (heStateImage x),
     seIOAddress = view_cell the_string h (heIOAddress x), seInputTopic = view_cell the_string h (heInputTopic x),
     seOutputTopic = view_cell the_string h (heOutputTopic x),
     sePods = view_slice the_pod_configs view_PodConfig h (hePods x)\<rparr>"

definition DeepCopyInto_InvokerDeploymentSpec :: "library \<Rightarrow> hSpec \<Rightarrow> heap \<Rightarrow> hSpec \<times> heap" where
  "DeepCopyInto_InvokerDeploymentSpec L x h =
     (case copy_cell (hsImagePullSecrets x) h of (secrets, h) \<Rightarrow>
      case copy_slice CEntities the_entities (DeepCopyInto_StatefulEntity L) (hsStatefulEntities x) h of (entities, h) \<Rightarrow>
      case copy_cell (hsHistoryLimit x) h of (limit, h) \<Rightarrow>
        (x\<lparr>hsImagePullSecrets := secrets, hsStatefulEntities := entities, hsHistoryLimit := limit\<rparr>, h))"

definition reach_Spec :: "heap \<Rightarrow> hSpec \<Rightarrow> addr list" where
  "reach_Spec h x = reach_cell h (hsImagePullSecrets x)
     @ reach_slice the_entities reach_StatefulEntity h (hsStatefulEntities x) @ reach_cell h (hsHistoryLimit x)"

definition view_Spec :: "heap \<Rightarrow> hSpec \<Rightarrow> InvokerDeploymentSpec" where
  "view_Spec h x = \<lparr>idVersion = hsVersion x, idImagePullPolicy = hsImagePullPolicy x,
     idImagePullSecrets = view_cell the_secret_refs h (hsImagePullSecrets x),
     idStatefulEntities = view_slice the_entities view_StatefulEntity h (hsStatefulEntities x),
     idHistoryLimit = view_cell the_int32 h (hsHistoryLimit x)\<rparr>"

definition DeepCopyInto_InvokerDeploymentStatus :: "library \<Rightarrow> hStatus \<Rightarrow> heap \<Rightarrow> hStatus \<times> heap" where
  "DeepCopyInto_InvokerDeploymentStatus L x h =
     (case copy_slice CConditions the_conditions (lcCondition L) (htConditions x) h of (conditions, h) \<Rightarrow>
        (x\<lparr>htConditions := conditions, htComponents := htComponents x\<rparr>, h))"

definition reach_Status :: "heap \<Rightarrow> hStatus \<Rightarrow> addr list" where
  "reach_Status h x = reach_slice the_conditions (\<lambda>h c. []) h (htConditions x)"

definition view_Status :: "heap \<Rightarrow> hStatus \<Rightarrow> InvokerDeploymentStatus" where
  "view_Status h x = \<lparr>stConditions = slice_items (view_slice the_conditions (\<lambda>h c. c) h (htConditions x)),
     stComponents = htComponents x, stState = htState x, stLastUpdateTime = htLastUpdateTime x,
     stCurrentRevision = htCurrentRevision x, stNextRevision = htNextRevision x\<rparr>"

definition DeepCopyInto_InvokerDeployment :: "library \<Rightarrow> hDeployment \<Rightarrow> heap \<Rightarrow> hDeployment \<times> heap" where
  "DeepCopyInto_InvokerDeployment L x h =
     (case lcMeta L (hdMeta x) h of (meta, h) \<Rightarrow>
      case DeepCopyInto_InvokerDeploymentSpec L (hdSpec x) h of (spec, h) \<Rightarrow>
      case DeepCopyInto_InvokerDeploymentStatus L (hdStatus x) h of (status, h) \<Rightarrow>
        (x\<lparr>hdMeta := meta, hdSpec := spec, hdStatus := status\<rparr>, h))"

definition reach_InvokerDeployment :: "heap \<Rightarrow> hDeployment \<Rightarrow> addr list" where
  "reach_InvokerDeployment h x = reach_Meta h (hdMeta x) @ reach_Spec h (hdSpec x) @ reach_Status h (hdStatus x)"

definition view_InvokerDeployment :: "heap \<Rightarrow> hDeployment \<Rightarrow> InvokerDeployment" where
  "view_InvokerDeployment h x = \<lparr>crAPIVersion = hdAPIVersion x, crKind = hdKind x,
     crMeta = view_Meta h (hdMeta x), crSpec = view_Spec h (hdSpec x), crStatus = view_Status h (hdStatus x)\<rparr>"

record InvokerDeploymentList =
  ilAPIVersion :: string
  ilKind :: string
  ilListMeta :: "string \<times> 64 word option"
  ilItems :: "InvokerDeployment list option"

definition DeepCopyInto_InvokerDeploymentList :: "library \<Rightarrow> hList \<Rightarrow> heap \<Rightarrow> hList \<times> heap" where
  "DeepCopyInto_InvokerDeploymentList L x h =
     (case lcListMeta L (hiListMeta x) h of (meta, h) \<Rightarrow>
      case copy_slice CDeployments the_deployments (DeepCopyInto_InvokerDeployment L) (hiItems x) h of (items, h) \<Rightarrow>
        (x\<lparr>hiListMeta := meta, hiItems := items\<rparr>, h))"

definition reach_InvokerDeploymentList :: "heap \<Rightarrow> hList \<Rightarrow> addr list" where
  "reach_InvokerDeploymentList h x = reach_ListMeta h (hiListMeta x)
     @ reach_slice the_deployments reach_InvokerDeployment h (hiItems x)"

definition view_InvokerDeploymentList :: "heap \<Rightarrow> hList \<Rightarrow> InvokerDeploymentList" where
  "view_InvokerDeploymentList h x = \<lparr>ilAPIVersion = hiAPIVersion x, ilKind = hiKind x,
     ilListMeta = view_ListMeta h (hiListMeta x),
     ilItems = view_slice the_deployments view_InvokerDeployment h (hiItems x)\<rparr>"

subsection \<open>\<open>DeepCopy\<close> and \<open>DeepCopyObject\<close>\<close>

text \<open>
  \<open>if in == nil { return nil }; out := new(T); in.DeepCopyInto(out); return out\<close>.  The zero
  values are what \<open>new\<close> puts into the cell before it is overwritten.
\<close>

definition zero_hResources :: hResources where
  "zero_hResources = \<lparr>hrLimits = None, hrRequests = None, hrClaims = None\<rparr>"

definition zero_hPodConfig :: hPodConfig where
  "zero_hPodConfig = \<lparr>hpName = None, hpPartitions = None, hpResources = zero_hResources\<rparr>"

definition zero_hEntity :: hEntity where
  "zero_hEntity = \<lparr>heName = None, heExecutorImage = None, heIOImage = None, heStateImage = None,
     heIOAddress = None, heInputTopic = None, heOutputTopic = None, hePods = None\<rparr>"

definition zero_hSpec :: hSpec where
  "zero_hSpec = \<lparr>hsVersion = [], hsImagePullPolicy = [], hsImagePullSecrets = None,
     hsStatefulEntities = None, hsHistoryLimit = None\<rparr>"

definition zero_components :: ComponentsStatus where
  "zero_components = \<lparr>csConfigMap = [], csStatefulEntities = [], csSecret = []\<rparr>"

definition zero_hStatus :: hStatus where
  "zero_hStatus = \<lparr>htConditions = None, htComponents = zero_components, htState = [],
     htLastUpdateTime = [], htCurrentRevision = [], htNextRevision = []\<rparr>"

definition zero_hMeta :: hMeta where
  "zero_hMeta = \<lparr>hmName = [], hmNamespace = [], hmUID = [], hmLabels = None, hmFinalizers = None,
     hmDeletionTimestamp = None, hmOwnerReferences = None\<rparr>"

definition zero_hDeployment :: hDeployment where
  "zero_hDeployment = \<lparr>hdAPIVersion = [], hdKind = [], hdMeta = zero_hMeta, hdSpec = zero_hSpec,
     hdStatus = zero_hStatus\<rparr>"

definition zero_hList :: hList where
  "zero_hList = \<lparr>hiAPIVersion = [], hiKind = [],
     hiListMeta = \<lparr>hlResourceVersion = [], hlRemainingItemCount = None\<rparr>, hiItems = None\<rparr>"

fun the_components :: "cell \<Rightarrow> ComponentsStatus" where
  "the_components (CComponents x) = x" | "the_components _ = zero_components"
fun the_pod_config :: "cell \<Rightarrow> hPodConfig" where
  "the_pod_config (CPodConfig x) = x" | "the_pod_config _ = zero_hPodConfig"
fun the_entity :: "cell \<Rightarrow> hEntity" where "the_entity (CEntity x) = x" | "the_entity _ = zero_hEntity"
fun the_spec :: "cell \<Rightarrow> hSpec" where "the_spec (CSpec x) = x" | "the_spec _ = zero_hSpec"
fun the_status :: "cell \<Rightarrow> hStatus" where "the_status (CStatus x) = x" | "the_status _ = zero_hStatus"
fun the_deployment :: "cell \<Rightarrow> hDeployment" where
  "the_deployment (CDeployment x) = x" | "the_deployment _ = zero_hDeployment"
fun the_list :: "cell \<Rightarrow> hList" where "the_list (CList x) = x" | "the_list _ = zero_hList"

definition DeepCopy_ComponentsStatus :: "addr option \<Rightarrow> heap \<Rightarrow> addr option \<times> heap" where
  "DeepCopy_ComponentsStatus =
     new_copy CComponents the_components zero_components DeepCopyInto_ComponentsStatus"

definition DeepCopy_PodConfig :: "library \<Rightarrow> addr option \<Rightarrow> heap \<Rightarrow> addr option \<times> heap" where
  "DeepCopy_PodConfig L = new_copy CPodConfig the_pod_config zero_hPodConfig (DeepCopyInto_PodConfig L)"

definition DeepCopy_StatefulEntity :: "library \<Rightarrow> addr option \<Rightarrow> heap \<Rightarrow> addr option \<times> heap" where
  "DeepCopy_StatefulEntity L = new_copy CEntity the_entity zero_hEntity (DeepCopyInto_StatefulEntity L)"

definition DeepCopy_InvokerDeploymentSpec :: "library \<Rightarrow> addr option \<Rightarrow> heap \<Rightarrow> addr option \<times> heap" where
  "DeepCopy_InvokerDeploymentSpec L = new_copy CSpec the_spec zero_hSpec (DeepCopyInto_InvokerDeploymentSpec L)"

definition DeepCopy_InvokerDeploymentStatus :: "library \<Rightarrow> addr option \<Rightarrow> heap \<Rightarrow> addr option \<times> heap" where
  "DeepCopy_InvokerDeploymentStatus L =
     new_copy CStatus the_status zero_hStatus (DeepCopyInto_InvokerDeploymentStatus L)"

definition DeepCopy_InvokerDeployment :: "library \<Rightarrow> addr option \<Rightarrow> heap \<Rightarrow> addr option \<times> heap" where
  "DeepCopy_InvokerDeployment L =
     new_copy CDeployment the_deployment zero_hDeployment (DeepCopyInto_InvokerDeployment L)"

definition DeepCopy_InvokerDeploymentList :: "library \<Rightarrow> addr option \<Rightarrow> heap \<Rightarrow> addr option \<times> heap" where
  "DeepCopy_InvokerDeploymentList L = new_copy CList the_list zero_hList (DeepCopyInto_InvokerDeploymentList L)"

text \<open>\<open>DeepCopyObject\<close> returns the copy as a \<open>runtime.Object\<close>, and a nil interface for a nil copy.\<close>

definition DeepCopyObject_InvokerDeployment :: "library \<Rightarrow> addr option \<Rightarrow> heap \<Rightarrow> addr option \<times> heap" where
  "DeepCopyObject_InvokerDeployment L p h =
     (case DeepCopy_InvokerDeployment L p h of
        (Some c, h) \<Rightarrow> (Some c, h)
      | (None, h) \<Rightarrow> (None, h))"

definition DeepCopyObject_InvokerDeploymentList :: "library \<Rightarrow> addr option \<Rightarrow> heap \<Rightarrow> addr option \<times> heap" where
  "DeepCopyObject_InvokerDeploymentList L p h =
     (case DeepCopy_InvokerDeploymentList L p h of
        (Some c, h) \<Rightarrow> (Some c, h)
      | (None, h) \<Rightarrow> (None, h))"

subsection \<open>Every type keeps the contract\<close>

text \<open>What is required of the client libraries.\<close>

locale library_copies =
  fixes L :: library
  assumes resources: "deep_copier (lcResources L) reach_Resources view_Resources"
    and metadata: "deep_copier (lcMeta L) reach_Meta view_Meta"
    and list_metadata: "deep_copier (lcListMeta L) reach_ListMeta view_ListMeta"
    and condition: "deep_copier (lcCondition L) (\<lambda>h c. []) (\<lambda>h c. c)"

sublocale library_copies \<subseteq> pod_config: deep_copier "DeepCopyInto_PodConfig L" reach_PodConfig view_PodConfig
  by (rule deep_copier_struct [where f = "\<lambda>x. (hpName x, hpPartitions x, hpResources x)"
        and g = "\<lambda>(n, p, r). \<lparr>hpName = n, hpPartitions = p, hpResources = r\<rparr>"
        and V = "\<lambda>(n, p, r). \<lparr>pcName = n, pcPartitions = p, pcResources = r\<rparr>",
        OF deep_copier_pair [OF deep_copier_cell deep_copier_pair [OF deep_copier_cell resources]]])
    (auto simp: DeepCopyInto_PodConfig_def reach_PodConfig_def view_PodConfig_def copy_pair_def
      reach_pair_def view_pair_def split: prod.splits)

lemmas struct_simps = copy_pair_def reach_pair_def view_pair_def

sublocale library_copies \<subseteq> entity: deep_copier "DeepCopyInto_StatefulEntity L" reach_StatefulEntity view_StatefulEntity
  by (rule deep_copier_struct [where
        f = "\<lambda>x. (heName x, heExecutorImage x, heIOImage x, heStateImage x, heIOAddress x, heInputTopic x,
          heOutputTopic x, hePods x)"
        and g = "\<lambda>(n, e, i, s, a, it, ot, p). \<lparr>heName = n, heExecutorImage = e, heIOImage = i, heStateImage = s,
          heIOAddress = a, heInputTopic = it, heOutputTopic = ot, hePods = p\<rparr>"
        and V = "\<lambda>(n, e, i, s, a, it, ot, p). \<lparr>seName = n, seExecutorImage = e, seIOImage = i, seStateImage = s,
          seIOAddress = a, seInputTopic = it, seOutputTopic = ot, sePods = p\<rparr>",
        OF deep_copier_pair [OF deep_copier_cell deep_copier_pair [OF deep_copier_cell
          deep_copier_pair [OF deep_copier_cell deep_copier_pair [OF deep_copier_cell
          deep_copier_pair [OF deep_copier_cell deep_copier_pair [OF deep_copier_cell
          deep_copier_pair [OF deep_copier_cell deep_copier_slice [OF pod_config.deep_copier_axioms
            the_pod_configs.simps(1)]]]]]]]]])
    (auto simp: DeepCopyInto_StatefulEntity_def reach_StatefulEntity_def view_StatefulEntity_def struct_simps
      split: prod.splits)

sublocale library_copies \<subseteq> spec: deep_copier "DeepCopyInto_InvokerDeploymentSpec L" reach_Spec view_Spec
  by (rule deep_copier_struct [where
        f = "\<lambda>x. (hsVersion x, hsImagePullPolicy x, hsImagePullSecrets x, hsStatefulEntities x, hsHistoryLimit x)"
        and g = "\<lambda>(v, p, s, e, l). \<lparr>hsVersion = v, hsImagePullPolicy = p, hsImagePullSecrets = s,
          hsStatefulEntities = e, hsHistoryLimit = l\<rparr>"
        and V = "\<lambda>(v, p, s, e, l). \<lparr>idVersion = v, idImagePullPolicy = p, idImagePullSecrets = s,
          idStatefulEntities = e, idHistoryLimit = l\<rparr>",
        OF deep_copier_pair [OF deep_copier_plain deep_copier_pair [OF deep_copier_plain
          deep_copier_pair [OF deep_copier_cell deep_copier_pair [OF
            deep_copier_slice [OF entity.deep_copier_axioms the_entities.simps(1)] deep_copier_cell]]]]])
    (auto simp: DeepCopyInto_InvokerDeploymentSpec_def reach_Spec_def view_Spec_def struct_simps
      split: prod.splits)

sublocale library_copies \<subseteq> status: deep_copier "DeepCopyInto_InvokerDeploymentStatus L" reach_Status view_Status
  by (rule deep_copier_struct [where
        f = "\<lambda>x. (htConditions x, htComponents x, htState x, htLastUpdateTime x, htCurrentRevision x, htNextRevision x)"
        and g = "\<lambda>(c, k, s, l, cr, nr). \<lparr>htConditions = c, htComponents = k, htState = s,
          htLastUpdateTime = l, htCurrentRevision = cr, htNextRevision = nr\<rparr>"
        and V = "\<lambda>(c, k, s, l, cr, nr). \<lparr>stConditions = slice_items c, stComponents = k, stState = s,
          stLastUpdateTime = l, stCurrentRevision = cr, stNextRevision = nr\<rparr>",
        OF deep_copier_pair [OF deep_copier_slice [OF condition the_conditions.simps(1)]
          deep_copier_pair [OF deep_copier_plain deep_copier_pair [OF deep_copier_plain
          deep_copier_pair [OF deep_copier_plain deep_copier_pair [OF deep_copier_plain deep_copier_plain]]]]]])
    (auto simp: DeepCopyInto_InvokerDeploymentStatus_def reach_Status_def view_Status_def struct_simps
      split: prod.splits)

sublocale library_copies \<subseteq> deployment: deep_copier "DeepCopyInto_InvokerDeployment L"
    reach_InvokerDeployment view_InvokerDeployment
  by (rule deep_copier_struct [where
        f = "\<lambda>x. (hdAPIVersion x, hdKind x, hdMeta x, hdSpec x, hdStatus x)"
        and g = "\<lambda>(a, k, m, sp, st). \<lparr>hdAPIVersion = a, hdKind = k, hdMeta = m, hdSpec = sp, hdStatus = st\<rparr>"
        and V = "\<lambda>(a, k, m, sp, st). \<lparr>crAPIVersion = a, crKind = k, crMeta = m, crSpec = sp, crStatus = st\<rparr>",
        OF deep_copier_pair [OF deep_copier_plain deep_copier_pair [OF deep_copier_plain
          deep_copier_pair [OF metadata deep_copier_pair [OF spec.deep_copier_axioms status.deep_copier_axioms]]]]])
    (auto simp: DeepCopyInto_InvokerDeployment_def reach_InvokerDeployment_def view_InvokerDeployment_def
      struct_simps split: prod.splits)

sublocale library_copies \<subseteq> list: deep_copier "DeepCopyInto_InvokerDeploymentList L"
    reach_InvokerDeploymentList view_InvokerDeploymentList
  by (rule deep_copier_struct [where
        f = "\<lambda>x. (hiAPIVersion x, hiKind x, hiListMeta x, hiItems x)"
        and g = "\<lambda>(a, k, m, i). \<lparr>hiAPIVersion = a, hiKind = k, hiListMeta = m, hiItems = i\<rparr>"
        and V = "\<lambda>(a, k, m, i). \<lparr>ilAPIVersion = a, ilKind = k, ilListMeta = m, ilItems = i\<rparr>",
        OF deep_copier_pair [OF deep_copier_plain deep_copier_pair [OF deep_copier_plain
          deep_copier_pair [OF list_metadata deep_copier_slice [OF deployment.deep_copier_axioms
            the_deployments.simps(1)]]]]])
    (auto simp: DeepCopyInto_InvokerDeploymentList_def reach_InvokerDeploymentList_def
      view_InvokerDeploymentList_def struct_simps split: prod.splits)

text \<open>Behind a pointer.\<close>

abbreviation reach_pointer :: "heap \<Rightarrow> addr option \<Rightarrow> addr list" where
  "reach_pointer \<equiv> reach_new the_deployment reach_InvokerDeployment"

abbreviation view_pointer :: "heap \<Rightarrow> addr option \<Rightarrow> InvokerDeployment option" where
  "view_pointer \<equiv> view_new the_deployment view_InvokerDeployment"

lemma DeepCopyObject_eq: "DeepCopyObject_InvokerDeployment = DeepCopy_InvokerDeployment"
  by (intro ext) (auto simp: DeepCopyObject_InvokerDeployment_def split: prod.splits option.splits)

sublocale library_copies \<subseteq> pointer: deep_copier "DeepCopyObject_InvokerDeployment L" reach_pointer view_pointer
  unfolding DeepCopyObject_eq DeepCopy_InvokerDeployment_def
  by (rule deep_copier_new [OF deployment.deep_copier_axioms the_deployment.simps(1)])

subsection \<open>A library that copies\<close>

definition copy_Resources :: "hResources \<Rightarrow> heap \<Rightarrow> hResources \<times> heap" where
  "copy_Resources r h =
     (case copy_cell (hrLimits r) h of (l, h) \<Rightarrow>
      case copy_cell (hrRequests r) h of (q, h) \<Rightarrow>
      case copy_cell (hrClaims r) h of (c, h) \<Rightarrow> (\<lparr>hrLimits = l, hrRequests = q, hrClaims = c\<rparr>, h))"

definition copy_Meta :: "hMeta \<Rightarrow> heap \<Rightarrow> hMeta \<times> heap" where
  "copy_Meta m h =
     (case copy_cell (hmLabels m) h of (l, h) \<Rightarrow>
      case copy_cell (hmFinalizers m) h of (f, h) \<Rightarrow>
      case copy_cell (hmDeletionTimestamp m) h of (d, h) \<Rightarrow>
      case copy_cell (hmOwnerReferences m) h of (r, h) \<Rightarrow>
        (m\<lparr>hmLabels := l, hmFinalizers := f, hmDeletionTimestamp := d, hmOwnerReferences := r\<rparr>, h))"

definition copy_ListMeta :: "hListMeta \<Rightarrow> heap \<Rightarrow> hListMeta \<times> heap" where
  "copy_ListMeta m h =
     (case copy_cell (hlRemainingItemCount m) h of (r, h) \<Rightarrow> (m\<lparr>hlRemainingItemCount := r\<rparr>, h))"

definition copying_library :: library where
  "copying_library = \<lparr>lcResources = copy_Resources, lcMeta = copy_Meta, lcListMeta = copy_ListMeta,
     lcCondition = Pair\<rparr>"

lemma deep_copier_Resources: "deep_copier copy_Resources reach_Resources view_Resources"
  by (rule deep_copier_struct [where f = "\<lambda>r. (hrLimits r, hrRequests r, hrClaims r)"
        and g = "\<lambda>(l, q, c). \<lparr>hrLimits = l, hrRequests = q, hrClaims = c\<rparr>"
        and V = "\<lambda>(l, q, c). \<lparr>rrLimits = l, rrRequests = q, rrClaims = c\<rparr>",
        OF deep_copier_pair [OF deep_copier_cell deep_copier_pair [OF deep_copier_cell deep_copier_cell]]])
    (auto simp: copy_Resources_def reach_Resources_def view_Resources_def struct_simps split: prod.splits)

lemma deep_copier_Meta: "deep_copier copy_Meta reach_Meta view_Meta"
  by (rule deep_copier_struct [where
        f = "\<lambda>m. (hmName m, hmNamespace m, hmUID m, hmLabels m, hmFinalizers m, hmDeletionTimestamp m, hmOwnerReferences m)"
        and g = "\<lambda>(n, s, u, l, f, d, r). \<lparr>hmName = n, hmNamespace = s, hmUID = u, hmLabels = l,
          hmFinalizers = f, hmDeletionTimestamp = d, hmOwnerReferences = r\<rparr>"
        and V = "\<lambda>(n, s, u, l, f, d, r). \<lparr>omName = n, omNamespace = s, omUID = u,
          omLabels = (case l of None \<Rightarrow> fmempty | Some l \<Rightarrow> l), omFinalizers = slice_items f,
          omDeletionTimestamp = Option.bind d id, omOwnerReferences = slice_items r\<rparr>",
        OF deep_copier_pair [OF deep_copier_plain deep_copier_pair [OF deep_copier_plain
          deep_copier_pair [OF deep_copier_plain deep_copier_pair [OF deep_copier_cell deep_copier_pair [OF
          deep_copier_cell deep_copier_pair [OF deep_copier_cell deep_copier_cell]]]]]]])
    (auto simp: copy_Meta_def reach_Meta_def view_Meta_def struct_simps split: prod.splits)

lemma deep_copier_ListMeta: "deep_copier copy_ListMeta reach_ListMeta view_ListMeta"
  by (rule deep_copier_struct [where f = "\<lambda>m. (hlResourceVersion m, hlRemainingItemCount m)"
        and g = "\<lambda>(v, r). \<lparr>hlResourceVersion = v, hlRemainingItemCount = r\<rparr>" and V = "\<lambda>(v, r). (v, r)",
        OF deep_copier_pair [OF deep_copier_plain deep_copier_cell]])
    (auto simp: copy_ListMeta_def reach_ListMeta_def view_ListMeta_def struct_simps split: prod.splits)

interpretation copying: library_copies copying_library
  by (rule library_copies.intro) (simp_all add: copying_library_def deep_copier_Resources deep_copier_Meta
    deep_copier_ListMeta deep_copier_plain)

subsection \<open>Copies are equal and independent\<close>

lemma DeepCopyObject_list_eq: "DeepCopyObject_InvokerDeploymentList = DeepCopy_InvokerDeploymentList"
  by (intro ext) (auto simp: DeepCopyObject_InvokerDeploymentList_def split: prod.splits option.splits)

lemma deep_copier_components: "deep_copier DeepCopyInto_ComponentsStatus (\<lambda>h x. []) (\<lambda>h x. x)"
  by unfold_locales (auto simp: DeepCopyInto_ComponentsStatus_def)

context library_copies begin

lemma all_structs:
  "deep_copier (DeepCopyInto_PodConfig L) reach_PodConfig view_PodConfig"
  "deep_copier (DeepCopyInto_StatefulEntity L) reach_StatefulEntity view_StatefulEntity"
  "deep_copier (DeepCopyInto_InvokerDeploymentSpec L) reach_Spec view_Spec"
  "deep_copier (DeepCopyInto_InvokerDeploymentStatus L) reach_Status view_Status"
  "deep_copier (DeepCopyInto_InvokerDeployment L) reach_InvokerDeployment view_InvokerDeployment"
  "deep_copier (DeepCopyInto_InvokerDeploymentList L) reach_InvokerDeploymentList view_InvokerDeploymentList"
  by (rule pod_config.deep_copier_axioms entity.deep_copier_axioms spec.deep_copier_axioms
      status.deep_copier_axioms deployment.deep_copier_axioms list.deep_copier_axioms)+

lemma all_pointers:
  "deep_copier DeepCopy_ComponentsStatus (reach_new the_components (\<lambda>h x. [])) (view_new the_components (\<lambda>h x. x))"
  "deep_copier (DeepCopy_PodConfig L) (reach_new the_pod_config reach_PodConfig) (view_new the_pod_config view_PodConfig)"
  "deep_copier (DeepCopy_StatefulEntity L) (reach_new the_entity reach_StatefulEntity)
     (view_new the_entity view_StatefulEntity)"
  "deep_copier (DeepCopy_InvokerDeploymentSpec L) (reach_new the_spec reach_Spec) (view_new the_spec view_Spec)"
  "deep_copier (DeepCopy_InvokerDeploymentStatus L) (reach_new the_status reach_Status)
     (view_new the_status view_Status)"
  "deep_copier (DeepCopyObject_InvokerDeployment L) reach_pointer view_pointer"
  "deep_copier (DeepCopyObject_InvokerDeploymentList L) (reach_new the_list reach_InvokerDeploymentList)
     (view_new the_list view_InvokerDeploymentList)"
  unfolding DeepCopyObject_list_eq DeepCopy_ComponentsStatus_def DeepCopy_PodConfig_def
    DeepCopy_StatefulEntity_def DeepCopy_InvokerDeploymentSpec_def DeepCopy_InvokerDeploymentStatus_def
    DeepCopy_InvokerDeploymentList_def
  by (rule deep_copier_new all_structs deep_copier_components pointer.deep_copier_axioms | simp)+

end

text \<open>
  C10: Deep copies, for every type of the API group: each \<open>DeepCopyInto\<close>, each \<open>DeepCopy\<close> and each
  \<open>DeepCopyObject\<close> keeps the contract of a copier (the old cells unchanged, the same value, nil
  against empty slices included, and only new cells reached), provided the copies of the client
  libraries do.
\<close>

theorem deep_copies_all_types:
  assumes "library_copies L"
  shows "deep_copier DeepCopyInto_ComponentsStatus (\<lambda>h x. []) (\<lambda>h x. x) \<and>
    deep_copier (DeepCopyInto_PodConfig L) reach_PodConfig view_PodConfig \<and>
    deep_copier (DeepCopyInto_StatefulEntity L) reach_StatefulEntity view_StatefulEntity \<and>
    deep_copier (DeepCopyInto_InvokerDeploymentSpec L) reach_Spec view_Spec \<and>
    deep_copier (DeepCopyInto_InvokerDeploymentStatus L) reach_Status view_Status \<and>
    deep_copier (DeepCopyInto_InvokerDeployment L) reach_InvokerDeployment view_InvokerDeployment \<and>
    deep_copier (DeepCopyInto_InvokerDeploymentList L) reach_InvokerDeploymentList view_InvokerDeploymentList \<and>
    deep_copier DeepCopy_ComponentsStatus (reach_new the_components (\<lambda>h x. []))
      (view_new the_components (\<lambda>h x. x)) \<and>
    deep_copier (DeepCopy_PodConfig L) (reach_new the_pod_config reach_PodConfig)
      (view_new the_pod_config view_PodConfig) \<and>
    deep_copier (DeepCopy_StatefulEntity L) (reach_new the_entity reach_StatefulEntity)
      (view_new the_entity view_StatefulEntity) \<and>
    deep_copier (DeepCopy_InvokerDeploymentSpec L) (reach_new the_spec reach_Spec) (view_new the_spec view_Spec) \<and>
    deep_copier (DeepCopy_InvokerDeploymentStatus L) (reach_new the_status reach_Status)
      (view_new the_status view_Status) \<and>
    deep_copier (DeepCopyObject_InvokerDeployment L) reach_pointer view_pointer \<and>
    deep_copier (DeepCopyObject_InvokerDeploymentList L) (reach_new the_list reach_InvokerDeploymentList)
      (view_new the_list view_InvokerDeploymentList)"
  using library_copies.all_structs [OF assms] library_copies.all_pointers [OF assms] deep_copier_components
  by blast

theorem deep_copies_all_types_witness:
  "deep_copier (DeepCopyInto_InvokerDeployment copying_library) reach_InvokerDeployment view_InvokerDeployment \<and>
   deep_copier (DeepCopyObject_InvokerDeploymentList copying_library)
     (reach_new the_list reach_InvokerDeploymentList) (view_new the_list view_InvokerDeploymentList)"
  using deep_copies_all_types [OF copying.library_copies_axioms] by blast

text \<open>
  C9: A copied resource is independent of the original: whatever is written afterwards to any cell
  the copy reaches, the original stands for the same resource, and whatever is written to any cell
  that was there before the copy, the copy stands for the same resource.
\<close>

theorem deep_copy_independent:
  assumes "library_copies L" and "within h (reach_pointer h p)"
    and "DeepCopyObject_InvokerDeployment L p h = (q, h')"
  shows "list_all (\<lambda>a. view_pointer (h'[a := c]) p = view_pointer h p) (reach_pointer h' q) \<and>
    list_all (\<lambda>a. view_pointer (h'[a := c]) q = view_pointer h p) [0..<length h]"
proof -
  note copier = library_copies.all_pointers(6) [OF assms(1)]
  show ?thesis
    using deep_copier.copy_independent [OF copier assms(2,3)]
      deep_copier.original_independent [OF copier assms(2,3)]
    by (auto simp: list_all_iff)
qed

definition demo_heap :: heap where
  "demo_heap =
     [CDeployment \<lparr>hdAPIVersion = ''v1alpha1'', hdKind = ''InvokerDeployment'',
        hdMeta = zero_hMeta\<lparr>hmName := ''sample'', hmLabels := Some 1\<rparr>,
        hdSpec = zero_hSpec\<lparr>hsVersion := ''testv1'', hsStatefulEntities := Some 2, hsHistoryLimit := Some 6\<rparr>,
        hdStatus = zero_hStatus\<rparr>,
      CLabels (fmupd ''app'' ''invoker'' fmempty),
      CEntities [zero_hEntity\<lparr>heName := Some 3, hePods := Some 4\<rparr>, zero_hEntity],
      CString ''sum'',
      CPodConfigs [zero_hPodConfig\<lparr>hpPartitions := Some 5\<rparr>],
      CStrings [''0'', ''1''],
      CInt32 3]"

definition demo_copy :: "addr option \<times> heap" where
  "demo_copy = DeepCopyObject_InvokerDeployment copying_library (Some 0) demo_heap"

text \<open>The copy occupies the cells from 7 on; 10 is its entity's name.\<close>

theorem deep_copy_independent_witness:
  "reach_pointer (snd demo_copy) (fst demo_copy) = [7, 8, 9, 10, 11, 12, 13] \<and>
   view_pointer ((snd demo_copy)[10 := CString ''product'']) (Some 0) = view_pointer demo_heap (Some 0) \<and>
   view_pointer ((snd demo_copy)[3 := CString ''product'']) (fst demo_copy) = view_pointer demo_heap (Some 0)"
proof -
  have within: "within demo_heap (reach_pointer demo_heap (Some 0))" by code_simp
  have reach: "reach_pointer (snd demo_copy) (fst demo_copy) = [7, 8, 9, 10, 11, 12, 13]" by code_simp
  have "DeepCopyObject_InvokerDeployment copying_library (Some 0) demo_heap = (fst demo_copy, snd demo_copy)"
    by (simp add: demo_copy_def)
  note both = deep_copy_independent [OF copying.library_copies_axioms within this, of "CString ''product''"]
  have "3 \<in> set [0..<length demo_heap]" by (simp add: demo_heap_def)
  with both reach show ?thesis unfolding list_all_iff by auto
qed

text \<open>
  \<open>updateClusterStatus\<close> with its references, up to the request: \<open>cr\<close> is the pointer \<open>observed.cr\<close>; a
  new cell holds the local struct \<open>cluster\<close>, \<open>DeepCopyInto\<close> writes the copy into it, and the
  assignment to its status overwrites that field.  The result is \<open>&cluster\<close>.
\<close>

definition cluster_with_status :: "library \<Rightarrow> addr \<Rightarrow> hStatus \<Rightarrow> heap \<Rightarrow> addr \<times> heap" where
  "cluster_with_status L cr status h =
     (let cluster = length h
      in case DeepCopyInto_InvokerDeployment L (the_deployment (h ! cr)) (h @ [CDeployment zero_hDeployment]) of
           (out, h1) \<Rightarrow>
             (let h2 = h1[cluster := CDeployment out]
              in (cluster, h2[cluster := CDeployment ((the_deployment (h2 ! cluster))\<lparr>hdStatus := status\<rparr>)])))"

text \<open>The cells of the resource behind a pointer, but for those of its status.\<close>

definition own_cells :: "heap \<Rightarrow> addr \<Rightarrow> addr list" where
  "own_cells h p = p # reach_Meta h (hdMeta (the_deployment (h ! p))) @ reach_Spec h (hdSpec (the_deployment (h ! p)))"

text \<open>
  C11: The status is written on a copy: what \<open>updateClusterStatus\<close> sends is the observed resource with
  the new status, as the value model has it; the observed resource is as it was; and whatever the
  client then writes through the pointer it was given, to the struct itself or to any cell of its
  metadata and spec, as it does when it decodes the server's answer, the observed resource does
  not change.
\<close>

theorem status_written_on_copy:
  assumes "library_copies L" and "within h (reach_pointer h (Some cr))" and "within h (reach_Status h status)"
    and "cluster_with_status L cr status h = (cluster, h')"
  shows "client_status_update E (view_InvokerDeployment h' (the_deployment (h' ! cluster))) =
      updateClusterStatus E (view_InvokerDeployment h (the_deployment (h ! cr))) (view_Status h status) \<and>
    view_pointer h' (Some cr) = view_pointer h (Some cr) \<and>
    list_all (\<lambda>a. view_pointer (h'[a := c]) (Some cr) = view_pointer h (Some cr)) (own_cells h' cluster)"
proof -
  note structs = library_copies.all_structs [OF assms(1)] and pointer = library_copies.all_pointers(6) [OF assms(1)]
  let ?x = "the_deployment (h ! cr)" and ?h0 = "h @ [CDeployment zero_hDeployment]"
  have x: "cr < length h" "within h (reach_InvokerDeployment h ?x)"
    using assms(2) by (simp_all add: reach_new_def)
  obtain out h1 where out: "DeepCopyInto_InvokerDeployment L ?x ?h0 = (out, h1)" by fastforce
  from deep_copier.later [OF structs(5) x(2)]
  have x0: "view_InvokerDeployment ?h0 ?x = view_InvokerDeployment h ?x"
    "reach_InvokerDeployment ?h0 ?x = reach_InvokerDeployment h ?x" by simp_all
  have "within ?h0 (reach_InvokerDeployment ?h0 ?x)" using within_append [OF x(2)] by (simp only: x0(2))
  from deep_copier.copies [OF structs(5) this out] obtain new where h1: "h1 = ?h0 @ new"
    and copy: "view_InvokerDeployment h1 out = view_InvokerDeployment h ?x"
      "within h1 (reach_InvokerDeployment h1 out)" "beyond ?h0 (reach_InvokerDeployment h1 out)"
    by (auto simp: x0)
  let ?cl = "out\<lparr>hdStatus := status\<rparr>"
  have cluster: "cluster = length h" and h': "h' = h1[length h := CDeployment ?cl]"
    using assms(4) by (auto simp: cluster_with_status_def out h1 Let_def)
  have prefix: "h' = h @ CDeployment ?cl # new" by (simp add: h' h1)
  have cell: "the_deployment (h' ! cluster) = ?cl" by (simp add: cluster prefix)
  have "length h \<notin> set (reach_InvokerDeployment h1 out)" using copy(3) by (auto simp: beyond_def list_all_iff)
  from deep_copier.frame [OF structs(5) agree_update [OF copy(2) this]]
  have same: "view_InvokerDeployment h' out = view_InvokerDeployment h ?x"
    "reach_InvokerDeployment h' out = reach_InvokerDeployment h1 out"
    by (simp_all add: h' copy(1))
  have "view_Status h' status = view_Status h status"
    using deep_copier.later [OF structs(4) assms(3)] by (simp add: prefix)
  then have sent: "view_InvokerDeployment h' ?cl = (view_InvokerDeployment h ?x)\<lparr>crStatus := view_Status h status\<rparr>"
    using same(1) by (auto simp: view_InvokerDeployment_def)
  have original: "view_pointer h' (Some cr) = view_pointer h (Some cr)"
    using deep_copier.later [OF pointer assms(2)] by (simp add: prefix)
  have "length h \<le> cluster" and "beyond h (reach_InvokerDeployment h' out)"
    using beyond_prefix [OF copy(3)] by (simp_all only: same(2) cluster order_refl)
  then have "beyond h (own_cells h' cluster)"
    by (simp add: own_cells_def cell reach_InvokerDeployment_def)
  moreover have "view_pointer (h'[a := c]) (Some cr) = view_pointer h (Some cr)" if "length h \<le> a" for a
  proof -
    have "h'[a := c] = h @ (CDeployment ?cl # new)[a - length h := c]"
      using that by (simp add: prefix list_update_append)
    then show ?thesis using deep_copier.later [OF pointer assms(2)] by simp
  qed
  ultimately show ?thesis
    using sent original by (auto simp: cell updateClusterStatus_def beyond_def list_all_iff)
qed

definition demo_cluster :: "addr \<times> heap" where
  "demo_cluster = cluster_with_status copying_library 0 (zero_hStatus\<lparr>htState := ''Running''\<rparr>) demo_heap"

text \<open>The copy is cell 7; 11 holds the pods of its entity.\<close>

theorem status_written_on_copy_witness:
  "stState (crStatus (view_InvokerDeployment (snd demo_cluster) (the_deployment (snd demo_cluster ! 7)))) = ''Running'' \<and>
   view_pointer (snd demo_cluster) (Some 0) = view_pointer demo_heap (Some 0) \<and>
   view_pointer ((snd demo_cluster)[11 := CPodConfigs []]) (Some 0) = view_pointer demo_heap (Some 0)"
proof -
  let ?st = "zero_hStatus\<lparr>htState := ''Running''\<rparr>"
  have 1: "within demo_heap (reach_pointer demo_heap (Some 0))" by code_simp
  have 2: "within demo_heap (reach_Status demo_heap ?st)" by code_simp
  have 3: "cluster_with_status copying_library 0 ?st demo_heap = (fst demo_cluster, snd demo_cluster)"
    by (simp add: demo_cluster_def)
  have "stState (crStatus (view_InvokerDeployment (snd demo_cluster) (the_deployment (snd demo_cluster ! 7)))) = ''Running''"
    by code_simp
  moreover have "11 \<in> set (own_cells (snd demo_cluster) (fst demo_cluster))" by code_simp
  ultimately show ?thesis
    using status_written_on_copy [OF copying.library_copies_axioms 1 2 3, of _ "CPodConfigs []"]
    by (auto simp: list_all_iff)
qed

end
