(* ===== verification/Startup.thy ===== *)
theory Startup
  imports Controller_Properties
begin

section \<open>cmd/main.go: start-up, watches and permissions\<close>

text \<open>
  The program's \<open>init\<close> functions and \<open>main\<close>: registering the counter and the API types, reading the flags, building the
  manager, the controller and the probes, and running the manager.  Every step is a call into
  the libraries that may fail; the record \<open>boot\<close> holds their answers.  Also here are the group
  version of \<open>groupversion_info.go\<close>, what \<open>SetupWithManager\<close> watches, and the permissions that the
  \<open>kubebuilder:rbac\<close> markers of the controller ask for.
\<close>

subsection \<open>The API group\<close>

record GroupVersion =
  gvGroup :: string
  gvVersion :: string

definition api_group_version :: GroupVersion where
  "api_group_version = \<lparr>gvGroup = ''invokeroperator.invoker.io'', gvVersion = ''v1alpha1''\<rparr>"

text \<open>
  \<open>SchemeBuilder.Register\<close> in the \<open>init\<close> of \<open>invokerdeployment_types.go\<close>, and \<open>AddToScheme\<close>: the
  kinds of the API group, each under the group version.
\<close>

definition registered_kinds :: "string list" where
  "registered_kinds = [''InvokerDeployment'', ''InvokerDeploymentList'']"

definition SchemeBuilder :: "(GroupVersion \<times> string) list" where
  "SchemeBuilder = map (Pair api_group_version) registered_kinds"

subsection \<open>Options and watches\<close>

record Flags =
  flMetricsAddr :: string
  flProbeAddr :: string
  flEnableLeaderElection :: bool
  flEnableHTTP2 :: bool

definition default_flags :: Flags where
  "default_flags = \<lparr>flMetricsAddr = '':8080'', flProbeAddr = '':8081'', flEnableLeaderElection = False,
     flEnableHTTP2 = False\<rparr>"

record ManagerOptions =
  moMetricsBindAddress :: string
  moPort :: int
  moHealthProbeBindAddress :: string
  moLeaderElection :: bool
  moLeaderElectionID :: string

definition manager_options :: "Flags \<Rightarrow> ManagerOptions" where
  "manager_options fl = \<lparr>moMetricsBindAddress = flMetricsAddr fl, moPort = 9443,
     moHealthProbeBindAddress = flProbeAddr fl, moLeaderElection = flEnableLeaderElection fl,
     moLeaderElectionID = ''03c45e30.invoker.io''\<rparr>"

text \<open>\<open>For\<close> and \<open>Owns\<close>.\<close>

record Watches =
  waFor :: string
  waOwns :: "string list"

definition watches :: Watches where
  "watches = \<lparr>waFor = ''InvokerDeployment'', waOwns = [''Pod'', ''Service'']\<rparr>"

subsection \<open>The steps\<close>

text \<open>The counter of \<open>metrics.go\<close>, registered when the package is initialised.\<close>

record CounterOpts =
  coName :: string
  coHelp :: string

definition ApplicationUpgradeCounter :: CounterOpts where
  "ApplicationUpgradeCounter = \<lparr>coName = ''invoker_deployment_upgrade_counter'',
     coHelp = ''Number of successful upgrades processed''\<rparr>"

datatype boot_call =
    MustRegister CounterOpts
  | AddToScheme "(GroupVersion \<times> string) list"
  | AddClientGoToScheme
  | GetConfig
  | NewManager ManagerOptions
  | CompleteController Watches
  | AddHealthzCheck string
  | AddReadyzCheck string
  | StartManager

text \<open>
  \<open>bParse\<close> is \<open>flag.Parse\<close> on the command line, with the flags of the logging library beside the
  program's own: the values of the program's flags, or \<open>None\<close> when it ends the process with
  code 2 (or 0, for help).  \<open>bStep\<close> is a fallible call.
\<close>

record 's boot =
  bParse :: "Flags \<Rightarrow> int + Flags"
  bStep :: "boot_call \<Rightarrow> 's \<Rightarrow> go_error option \<times> 's"

text \<open>How the process ends: by a panic, or with an exit code.\<close>

datatype process_end = Crashed | ExitCode int

type_synonym 's boot_state = "boot_call list \<times> 's"

definition boot_step :: "'s boot \<Rightarrow> boot_call \<Rightarrow> ('s boot_state, go_error option) state" where
  "boot_step B c = State (\<lambda>(tr, s). case bStep B c s of (r, s') \<Rightarrow> (r, (tr @ [c], s')))"

text \<open>\<open>utilruntime.Must\<close> panics on an error; the other steps log it and exit with code 1.\<close>

definition must :: "'s boot \<Rightarrow> boot_call \<Rightarrow> ('s boot_state, process_end) state \<Rightarrow> ('s boot_state, process_end) state" where
  "must B c rest = do {
     err \<leftarrow> boot_step B c;
     case err of Some _ \<Rightarrow> ret Crashed | None \<Rightarrow> rest
   }"

definition or_exit :: "'s boot \<Rightarrow> boot_call \<Rightarrow> ('s boot_state, process_end) state \<Rightarrow> ('s boot_state, process_end) state" where
  "or_exit B c rest = do {
     err \<leftarrow> boot_step B c;
     case err of Some _ \<Rightarrow> ret (ExitCode 1) | None \<Rightarrow> rest
   }"

text \<open>\<open>SetupWithManager\<close>: the watches, completed with the reconciler.\<close>

definition SetupWithManager :: boot_call where
  "SetupWithManager = CompleteController watches"

text \<open>\<open>GetConfigOrDie\<close> exits with code 1 when there is no configuration.\<close>

definition main :: "'s boot \<Rightarrow> ('s boot_state, process_end) state" where
  "main B =
     (case bParse B default_flags of
        Inl code \<Rightarrow> ret (ExitCode code)
      | Inr fl \<Rightarrow>
          or_exit B GetConfig (
          or_exit B (NewManager (manager_options fl)) (
          or_exit B SetupWithManager (
          or_exit B (AddHealthzCheck ''healthz'') (
          or_exit B (AddReadyzCheck ''readyz'') (
          or_exit B StartManager (
            ret (ExitCode 0))))))))"

text \<open>The packages are initialised before the package that imports them.\<close>

definition metrics_init :: "'s boot \<Rightarrow> ('s boot_state, process_end) state \<Rightarrow> ('s boot_state, process_end) state" where
  "metrics_init B rest = must B (MustRegister ApplicationUpgradeCounter) rest"

definition init :: "'s boot \<Rightarrow> ('s boot_state, process_end) state \<Rightarrow> ('s boot_state, process_end) state" where
  "init B rest = must B AddClientGoToScheme (must B (AddToScheme SchemeBuilder) rest)"

definition process :: "'s boot \<Rightarrow> ('s boot_state, process_end) state" where
  "process B = metrics_init B (init B (main B))"

text \<open>
  What the process is to do: two lists of steps, each carried out up to its first failure.
\<close>

definition registration_steps :: "boot_call list" where
  "registration_steps = [MustRegister ApplicationUpgradeCounter, AddClientGoToScheme, AddToScheme SchemeBuilder]"

definition service_steps :: "Flags \<Rightarrow> boot_call list" where
  "service_steps fl = [GetConfig, NewManager (manager_options fl), CompleteController watches,
     AddHealthzCheck ''healthz'', AddReadyzCheck ''readyz'', StartManager]"

text \<open>The steps made, whether all went well, and the state reached.\<close>

fun until_failure :: "'s boot \<Rightarrow> boot_call list \<Rightarrow> 's \<Rightarrow> boot_call list \<times> bool \<times> 's" where
  "until_failure B [] s = ([], True, s)"
| "until_failure B (c # cs) s =
     (case bStep B c s of
        (Some e, s') \<Rightarrow> ([c], False, s')
      | (None, s') \<Rightarrow> (case until_failure B cs s' of (tr, ok, s'') \<Rightarrow> (c # tr, ok, s'')))"

lemma run_boot_step [simp]:
  "run_state (boot_step B c) (tr, s) = (fst (bStep B c s), (tr @ [c], snd (bStep B c s)))"
  by (simp add: boot_step_def case_prod_beta)

lemma run_must [simp]:
  "run_state (must B c rest) (tr, s) =
     (case bStep B c s of
        (Some e, s') \<Rightarrow> (Crashed, (tr @ [c], s'))
      | (None, s') \<Rightarrow> run_state rest (tr @ [c], s'))"
  by (cases "bStep B c s") (simp add: must_def split: option.splits)

lemma run_or_exit [simp]:
  "run_state (or_exit B c rest) (tr, s) =
     (case bStep B c s of
        (Some e, s') \<Rightarrow> (ExitCode 1, (tr @ [c], s'))
      | (None, s') \<Rightarrow> run_state rest (tr @ [c], s'))"
  by (cases "bStep B c s") (simp add: or_exit_def split: option.splits)

text \<open>
  C19: The steps of the process, for all answers of the libraries: it registers the counter and the
  types up to the first failure, on which it crashes; then it reads the flags, and ends there
  with the code of the flag package when they are refused; then it builds and runs the manager
  up to the first failure, on which it exits with code 1; it exits with code 0 exactly when no
  step failed, the run of the manager included.
\<close>

theorem process_follows_plan:
  "run_state (process B) ([], s) =
     (case until_failure B registration_steps s of
        (tr, False, s1) \<Rightarrow> (Crashed, (tr, s1))
      | (tr, True, s1) \<Rightarrow>
        (case bParse B default_flags of
           Inl code \<Rightarrow> (ExitCode code, (tr, s1))
         | Inr fl \<Rightarrow>
           (case until_failure B (service_steps fl) s1 of
              (tr', ok, s2) \<Rightarrow> (if ok then ExitCode 0 else ExitCode 1, (tr @ tr', s2)))))"
  by (auto simp: process_def metrics_init_def init_def main_def registration_steps_def service_steps_def
      SetupWithManager_def split: prod.splits option.splits sum.splits)

text \<open>Libraries in which one step fails.\<close>

definition failing_boot :: "boot_call option \<Rightarrow> unit boot" where
  "failing_boot bad = \<lparr>bParse = Inr,
     bStep = (\<lambda>c s. (if bad = Some c then Some (OtherError ''failed'') else None, s))\<rparr>"

theorem process_follows_plan_witness:
  "run_state (process (failing_boot (Some StartManager))) ([], ()) =
     (ExitCode 1, (registration_steps @ service_steps default_flags, ())) \<and>
   run_state (process (failing_boot None)) ([], ()) =
     (ExitCode 0, (registration_steps @ service_steps default_flags, ()))"
  unfolding process_follows_plan
  by (simp add: failing_boot_def registration_steps_def service_steps_def)

subsection \<open>Permissions\<close>

text \<open>
  A rule of the role: API group, resource, verbs.  The group \<open>core\<close> of the markers is the empty
  group name.
\<close>

definition all_verbs :: "string list" where
  "all_verbs = [''get'', ''list'', ''watch'', ''create'', ''update'', ''patch'', ''delete'']"

definition manager_role :: "(string \<times> string \<times> string list) list" where
  "manager_role =
     [(''invokeroperator.invoker.io'', ''invokerdeployments'', all_verbs),
      (''invokeroperator.invoker.io'', ''invokerdeployments/status'', [''get'', ''update'', ''patch'']),
      (''invokeroperator.invoker.io'', ''invokerdeployments/finalizers'', [''update'']),
      (''apps'', ''deployments'', all_verbs),
      (''apps'', ''deployments/status'', [''get'']),
      (''apps'', ''statefulsets'', all_verbs),
      (''apps'', ''statefulsets/status'', [''get'']),
      (''apps'', ''controllerrevisions'', all_verbs),
      (''apps'', ''controllerrevisions/status'', [''get'']),
      ('''', ''configmaps'', all_verbs),
      ('''', ''services'', all_verbs),
      ('''', ''services/status'', [''get'']),
      ('''', ''pods'', all_verbs),
      ('''', ''pods/status'', [''get'']),
      ('''', ''secrets'', all_verbs),
      (''networking.k8s.io'', ''ingresses'', all_verbs),
      (''networking.k8s.io'', ''ingresses/status'', [''get''])]"

fun object_resource :: "k8s_object \<Rightarrow> string \<times> string" where
  "object_resource (ObjCR _) = (''invokeroperator.invoker.io'', ''invokerdeployments'')"
| "object_resource (ObjPod _) = ('''', ''pods'')"
| "object_resource (ObjConfigMap _) = ('''', ''configmaps'')"
| "object_resource (ObjSecret _) = ('''', ''secrets'')"
| "object_resource (ObjRevision _) = (''apps'', ''controllerrevisions'')"
| "object_resource (ObjDeployment _) = (''apps'', ''deployments'')"
| "object_resource (ObjStatefulSet _) = (''apps'', ''statefulsets'')"
| "object_resource (ObjService _) = ('''', ''services'')"
| "object_resource (ObjIngress _) = (''networking.k8s.io'', ''ingresses'')"

text \<open>
  The permission a call needs: group, resource and verb.  An event is created in the core group; a
  counter needs none.
\<close>

fun needs :: "api_call \<Rightarrow> (string \<times> string \<times> string) option" where
  "needs (GetCR _ _) = Some (''invokeroperator.invoker.io'', ''invokerdeployments'', ''get'')"
| "needs (GetSecret _ _) = Some ('''', ''secrets'', ''get'')"
| "needs (GetRevision _ _) = Some (''apps'', ''controllerrevisions'', ''get'')"
| "needs (GetDeployment _ _) = Some (''apps'', ''deployments'', ''get'')"
| "needs (GetStatefulSet _ _) = Some (''apps'', ''statefulsets'', ''get'')"
| "needs (GetService _ _) = Some ('''', ''services'', ''get'')"
| "needs (GetIngress _ _) = Some (''networking.k8s.io'', ''ingresses'', ''get'')"
| "needs (ListConfigMaps _ _) = Some ('''', ''configmaps'', ''list'')"
| "needs (ListPods _ _) = Some ('''', ''pods'', ''list'')"
| "needs (ListRevisions _ _) = Some (''apps'', ''controllerrevisions'', ''list'')"
| "needs (CreateCall ob) = (case object_resource ob of (g, r) \<Rightarrow> Some (g, r, ''create''))"
| "needs (UpdateCall ob) = (case object_resource ob of (g, r) \<Rightarrow> Some (g, r, ''update''))"
| "needs (DeleteCall ob) = (case object_resource ob of (g, r) \<Rightarrow> Some (g, r, ''delete''))"
| "needs (StatusUpdateCall _) = Some (''invokeroperator.invoker.io'', ''invokerdeployments/status'', ''update'')"
| "needs (EventCall _ _ _ _) = Some ('''', ''events'', ''create'')"
| "needs IncUpgradeCounter = None"

definition permits :: "(string \<times> string \<times> string list) list \<Rightarrow> string \<times> string \<times> string \<Rightarrow> bool" where
  "permits role p =
     (case p of (g, r, v) \<Rightarrow> list_ex (\<lambda>(g', r', vs). g' = g \<and> r' = r \<and> v \<in> set vs) role)"

definition used_permissions :: "(string \<times> string \<times> string) list" where
  "used_permissions =
     [(''invokeroperator.invoker.io'', ''invokerdeployments'', ''get''),
      (''invokeroperator.invoker.io'', ''invokerdeployments'', ''update''),
      (''invokeroperator.invoker.io'', ''invokerdeployments/status'', ''update''),
      ('''', ''secrets'', ''get''),
      ('''', ''configmaps'', ''list''), ('''', ''configmaps'', ''create''),
      ('''', ''configmaps'', ''update''), ('''', ''configmaps'', ''delete''),
      ('''', ''pods'', ''list''), ('''', ''pods'', ''create''), ('''', ''pods'', ''delete''),
      (''apps'', ''controllerrevisions'', ''get''), (''apps'', ''controllerrevisions'', ''list''),
      (''apps'', ''controllerrevisions'', ''create''), (''apps'', ''controllerrevisions'', ''update''),
      (''apps'', ''controllerrevisions'', ''delete''),
      ('''', ''events'', ''create'')]"

lemma allowed_uses:
  "allowed c \<Longrightarrow> (case needs c of None \<Rightarrow> True | Some p \<Rightarrow> p \<in> set used_permissions)"
  by (induction c rule: allowed.induct) (simp_all add: used_permissions_def)

text \<open>
  C18: The permissions a reconciliation uses: every request it can make needs one of seventeen
  permissions, and of these the role the controller asks for lacks exactly one, the creation of
  events.
\<close>

theorem requests_permitted:
  "emits (\<lambda>c. case needs c of None \<Rightarrow> True | Some p \<Rightarrow> p \<in> set used_permissions) (Reconcile E req) \<and>
   filter (\<lambda>p. \<not> permits manager_role p) used_permissions = [('''', ''events'', ''create'')]"
proof
  show "emits (\<lambda>c. case needs c of None \<Rightarrow> True | Some p \<Rightarrow> p \<in> set used_permissions) (Reconcile E req)"
    by (rule emits_mono [OF emits_Reconcile_allowed allowed_uses])
  show "filter (\<lambda>p. \<not> permits manager_role p) used_permissions = [('''', ''events'', ''create'')]"
    by (simp add: used_permissions_def manager_role_def permits_def all_verbs_def)
qed

end
