(* ===== verification/Autoscaler.thy ===== *)
theory Autoscaler
  imports Mem_Server
begin

section \<open>The autoscaler package\<close>

text \<open>
  A \<open>float32\<close> value, and its conversion \<open>int32(f)\<close>: truncation towards zero where the result
  fits, and otherwise (NaN, infinities, out of range) a value the language leaves to the
  implementation, the parameter \<open>conv\<close>.
\<close>

datatype float32 = Finite rat | Infinite bool | NaN

record EvaluatedMetrics =
  emPodMetrics :: "float32 gomap gomap"
  emGlobalMetrics :: "float32 gomap"

text \<open>\<open>new(EvaluatedMetrics)\<close>: both maps nil, which read as empty.\<close>

definition new_EvaluatedMetrics :: EvaluatedMetrics where
  "new_EvaluatedMetrics = \<lparr>emPodMetrics = fmempty, emGlobalMetrics = fmempty\<rparr>"

text \<open>The bodies of \<open>evaluate\<close> and \<open>collect\<close> are empty.\<close>

definition evaluate :: "EvaluatedMetrics \<Rightarrow> EvaluatedMetrics" where
  "evaluate metrics = metrics"

datatype CollectedMetrics = CollectedMetrics

definition collect :: "CollectedMetrics \<Rightarrow> CollectedMetrics" where
  "collect metrics = metrics"

definition truncate_rat :: "rat \<Rightarrow> int" where
  "truncate_rat q = (if q < 0 then - floor (- q) else floor q)"

definition to_int32 :: "(float32 \<Rightarrow> 32 word) \<Rightarrow> float32 \<Rightarrow> 32 word" where
  "to_int32 conv f =
     (case f of
        Finite q \<Rightarrow>
          (if - (2 ^ 31) \<le> truncate_rat q \<and> truncate_rat q < 2 ^ 31 then word_of_int (truncate_rat q)
           else conv f)
      | _ \<Rightarrow> conv f)"

definition global_metric :: "EvaluatedMetrics \<Rightarrow> string \<Rightarrow> float32" where
  "global_metric m k = (case fmlookup (emGlobalMetrics m) k of None \<Rightarrow> Finite 0 | Some f \<Rightarrow> f)"

definition evaluateNewScaling ::
  "'s env \<Rightarrow> (float32 \<Rightarrow> 32 word) \<Rightarrow> InvokerDeployment \<Rightarrow> EvaluatedMetrics \<Rightarrow>
   ('s world, bool \<times> go_error option) state" where
  "evaluateNewScaling E conv executorCR metrics =
     (let cpu = global_metric metrics ''CPU'';
          newSpec = executorCR;
          changed = (sint (to_int32 conv cpu) > 500)
      in if changed then do {
           err \<leftarrow> client_update E (ObjCR newSpec);
           ret (changed, err)
         }
         else ret (changed, None))"

definition scale ::
  "'s env \<Rightarrow> (float32 \<Rightarrow> 32 word) \<Rightarrow> InvokerDeployment \<Rightarrow> ('s world, bool \<times> go_error option) state" where
  "scale E conv executorCR = do {
     let evaluatedMetrics = evaluate new_EvaluatedMetrics;
     (changed, err) \<leftarrow> evaluateNewScaling E conv executorCR evaluatedMetrics;
     if err \<noteq> None then ret (False, err) else ret (changed, None)
   }"

subsection \<open>Properties\<close>

text \<open>
  The autoscaler never scales: it evaluates fresh, empty metrics, in which the CPU value reads
  as 0, so for every resource it reports no change, no error, and makes no request.
\<close>

theorem scale_never_scales: "scale E conv executorCR = ret (False, None)"
  by (simp add: scale_def evaluate_def evaluateNewScaling_def global_metric_def new_EvaluatedMetrics_def
      to_int32_def truncate_rat_def Let_def)

lemma truncate_rat_negative: "q < 0 \<Longrightarrow> truncate_rat q = - floor (- q) \<and> truncate_rat q \<le> 0"
  by (simp add: truncate_rat_def)

lemma truncate_rat_above: "500 < truncate_rat q \<longleftrightarrow> 501 \<le> q"
proof (cases "q < 0")
  case True
  with truncate_rat_negative [OF True] show ?thesis by linarith
next
  case False
  have "500 < floor q \<longleftrightarrow> 501 \<le> floor q" by linarith
  with False show ?thesis by (simp add: truncate_rat_def le_floor_iff)
qed

lemma truncate_rat_range:
  assumes "- (2 ^ 31) \<le> q" and "q < 2 ^ 31"
  shows "- (2 ^ 31) \<le> truncate_rat q \<and> truncate_rat q < 2 ^ 31"
proof (cases "q < 0")
  case True
  have "floor (- q) \<le> floor (2 ^ 31 :: rat)" by (rule floor_mono) (use assms(1) in simp)
  with truncate_rat_negative [OF True] show ?thesis by simp
next
  case False
  then have "0 \<le> floor q" by simp
  moreover have "floor q < 2 ^ 31" using assms(2) by (simp add: floor_less_iff)
  ultimately show ?thesis using False by (simp add: truncate_rat_def)
qed

lemma sint_word_of_int32: "- (2 ^ 31) \<le> n \<Longrightarrow> n < 2 ^ 31 \<Longrightarrow> sint (word_of_int n :: 32 word) = n"
  by (simp add: signed_of_int signed_take_bit_int_eq_self)

lemma scaling_condition:
  "- (2 ^ 31) \<le> q \<Longrightarrow> q < 2 ^ 31 \<Longrightarrow> 500 < sint (to_int32 conv (Finite q)) \<longleftrightarrow> 501 \<le> q"
  using truncate_rat_range [of q] by (simp add: to_int32_def sint_word_of_int32 truncate_rat_above)

text \<open>
  C38: Given metrics, the decision is a threshold: for a finite CPU value inside the \<open>int32\<close> range,
  scaling is reported exactly from 501 on, and then the resource is written, as it was; below,
  nothing is requested.
\<close>

theorem scaling_threshold:
  assumes "fmlookup (emGlobalMetrics metrics) ''CPU'' = Some (Finite q)"
    and "- (2 ^ 31) \<le> q" and "q < 2 ^ 31"
    and "run_state (evaluateNewScaling E conv executorCR metrics) w = ((changed, err), w')"
  shows "(changed \<longleftrightarrow> 501 \<le> q) \<and>
    wTrace w' = wTrace w @ (if 501 \<le> q then [UpdateCall (ObjCR executorCR)] else []) \<and>
    (\<not> changed \<longrightarrow> err = None)"
  using assms(4) scaling_condition [OF assms(2,3), of conv]
  by (auto simp: evaluateNewScaling_def global_metric_def assms(1) Let_def client_defs split: if_splits)

definition demo_metrics :: EvaluatedMetrics where
  "demo_metrics = \<lparr>emPodMetrics = fmempty, emGlobalMetrics = fmupd ''CPU'' (Finite 612) fmempty\<rparr>"

definition demo_scaling :: "(bool \<times> go_error option) \<times> store world" where
  "demo_scaling = run_state (evaluateNewScaling mem_env (\<lambda>_. 0) demo_cr demo_metrics) (start_world demo_store)"

theorem scaling_threshold_witness:
  "fst (fst demo_scaling) \<and> wTrace (snd demo_scaling) = [UpdateCall (ObjCR demo_cr)]"
proof -
  have cpu: "fmlookup (emGlobalMetrics demo_metrics) ''CPU'' = Some (Finite 612)" by (simp add: demo_metrics_def)
  obtain changed err v where run: "run_state (evaluateNewScaling mem_env (\<lambda>_. 0) demo_cr demo_metrics)
      (start_world demo_store) = ((changed, err), v)" by (metis prod.collapse)
  from scaling_threshold [OF cpu _ _ run] run show ?thesis
    by (simp add: demo_scaling_def) (simp add: start_world_def)
qed

end
