(* ===== verification/Spec2Isabelle.thy ===== *)
theory Spec2Isabelle
  imports
    Sha256 Spec_Json
    Json_Parser Json_Roundtrip Spec_Decoder Spec_Roundtrip
    Restart_Properties Reconcile_Effect
    Status_Properties Revision_Properties
    Converter_Properties Controller_Properties
    Server_Effect Graceful_Server Cluster_Refinement Reliable_Server
    Deep_Copy Startup Autoscaler
begin

text \<open>
  The Kubernetes operator for \<open>InvokerDeployment\<close> resources, modelled and verified.

  \<^bold>\<open>The program.\<close>  An \<open>InvokerDeployment\<close> (\<open>api/v1alpha1/invokerdeployment_types.go\<close>) lists
  stateful entities, each with images, topics and pods.  For every event the controller
  (\<open>internal/controller\<close>) runs one reconciliation: the observer reads the resource, the registry
  secret, the config maps, the pods and the recorded revisions; the finalizer is added, or, for a
  deletion, removed; the status updater derives a status from the observation and, if it
  changed, writes it and waits; otherwise the converter computes the desired config maps and pods
  from the spec, the resource reconciler creates, updates and deletes until the cluster has them
  and promotes the revision in the status, the updater records the spec as a revision, and old
  revisions are deleted.  \<open>cmd/main.go\<close> starts the manager that runs the controller.  The autoscaler
  package (\<open>autoscaler\<close>) is a stub beside it.

  \<^bold>\<open>The theories\<close>, in the order of their imports.

  \<^item> \<open>Go_Prelude\<close>: the fragment of Go the program uses: errors, panics, nil, maps, slices, loops
    in the state monad.
  \<^item> \<open>Api_Types\<close>: the resource, field by field, and the Kubernetes objects with the fields the
    program reads or writes.
  \<^item> \<open>Sha256\<close>, \<open>Spec_Json\<close>: what \<open>crypto/sha256\<close>, \<open>encoding/hex\<close> and \<open>encoding/json\<close> compute on a
    spec; the revision names depend on it.
  \<^item> \<open>Json_Parser\<close>, \<open>Json_Roundtrip\<close>, \<open>Spec_Decoder\<close>, \<open>Spec_Roundtrip\<close>: the other direction, the reading of
    a recorded spec: a parser for JSON texts (escapes, surrogates, invalid UTF-8, the nesting
    limit), the decoding of a value into the spec under the struct tags (\<open>UnmarshalSpec\<close>), and the
    proof that reading what was written gives the spec with nil for empty slices and lists.
  \<^item> \<open>Api_Client\<close>: the outside world as a record of functions (\<open>env\<close>), the trace of requests, and
    the calculus \<open>emits\<close> for what a computation may request.
  \<^item> \<open>Common\<close>, \<open>Observer\<close>, \<open>Converter\<close>, \<open>Status_Updater\<close>, \<open>Resource_Reconciler\<close>, \<open>Controller\<close>: one
    theory per file of \<open>internal/controller\<close>, one definition per function, under the function's
    name; where a function is one long body, its loops and stages have definitions of their own.
    \<open>reconcileResources\<close> is the reconciler's \<open>reconcile\<close>, \<open>handler_reconcile\<close> the controller's.
  \<^item> \<open>Component_Contract\<close>: the contract that the six component reconcilers share, as a locale;
    \<open>Resource_Reconciler\<close> interprets it on each of them.
  \<^item> \<open>Autoscaler\<close>: the autoscaler package and its two properties.
  \<^item> \<open>Mem_Server\<close>: one concrete environment, a server with its objects in a map; the witnesses
    run on it.
  \<^item> \<open>Reconcile_Plan\<close>, \<open>Reconcile_Effect\<close>: the requests of a resource reconciliation as a list
    (\<open>plan_calls\<close>), and what that list does to the set of objects (\<open>names_after\<close>), the abstract
    specification of the reconciler: after it, the names in use are the desired ones.
  \<^item> \<open>Server_Effect\<close>, \<open>Cluster_Refinement\<close>: the same on a server: its state is abstracted to the keys of
    the objects it holds, the locales \<open>object_store\<close> (the writes) and \<open>labelled_store\<close> (the reads)
    say what it promises, both are interpreted on the in-memory server, and observer, converter
    and reconciler together take the server to the names the spec asks for.  The desired state is
    a fixed point of that pass.
  \<^item> \<open>Graceful_Server\<close>: deletion that takes time.  The keys of \<open>object_store\<close> are read as those of the
    objects not marked for deletion, and an observation may still list marked pods
    (\<open>gone_names\<close>); a server with grace periods is a second interpretation, and rolling restarts
    are followed over two reconciliations.
  \<^item> \<open>Reliable_Server\<close>: the locale \<open>reliable_store\<close> adds that requests succeed when their object is
    (or is not yet) there; then a reconciliation does end without error.
  \<^item> \<open>Deep_Copy\<close>: \<open>api/v1alpha1/zz_generated.deepcopy.go\<close> on a heap of cells: the structs with their
    pointers, slices and maps, every generated function, and one contract (\<open>deep_copier\<close>) proved
    for all of them from the contract of the client libraries' copies (\<open>library_copies\<close>).
  \<^item> \<open>Startup\<close>: \<open>cmd/main.go\<close>, \<open>groupversion_info.go\<close>, \<open>metrics.go\<close>, \<open>SetupWithManager\<close> and the RBAC markers
    of the controller.
  \<^item> \<open>Restart_Properties\<close>, \<open>Status_Properties\<close>, \<open>Revision_Properties\<close>, \<open>Converter_Properties\<close>,
    \<open>Controller_Properties\<close>: the properties of the other parts.  \<open>Revision_Properties\<close> states the
    interface to the revision store as a locale (\<open>revision_store\<close>), interpreted on the in-memory
    server.

  \<^bold>\<open>State.\<close>  The observed state of a run is \<open>ObservedInvokerDeploymentState\<close>, as in the code.  The
  code shares a pointer to the observed resource between the observer, the updater and the
  reconciler; the only write through it after the observation is \<open>NextRevision\<close>, in
  \<open>createControllerRevision\<close>, so \<open>syncRevisions\<close> returns the resource and the controller hands it on.
  A request may fill in fields of the object passed to it from the server's answer; no such object
  is read again within a run.  That values suffice otherwise is what \<open>Deep_Copy\<close> shows: a copy shares
  nothing with its original, and the status is written on a copy.  Log output is not modelled.

  \<^bold>\<open>The outside.\<close>  The API server, the client libraries, the clock, the order of iteration over maps,
  \<open>sort.Slice\<close> and the capacity that \<open>append\<close> gives a slice (it shows with a negative history limit)
  are the fields of \<open>env\<close>.  Most theorems hold for every \<open>env\<close>, hence for a server
  that fails, lies or changes at any point; the ones that need more say it in a hypothesis:
  \<open>range_ok\<close> (iteration visits each key once), \<open>only_owner_references\<close> (what
  \<open>SetControllerReference\<close> may edit), \<open>revision_store\<close> (a written revision can be read),
  \<open>lists_by_labels\<close> (label selectors are honoured), \<open>object_store\<close>, \<open>labelled_store\<close> and \<open>reliable_store\<close>
  (what writes do to the objects, what reads say of them, when requests succeed), \<open>canonical_spec\<close> (the quantities of the spec survive their
  own printing and parsing, its strings are UTF-8), \<open>readable_revisions\<close> (no recorded revision reads
  as null).  The start-up has its own record of answers, \<open>boot\<close>, the deep copies have \<open>library\<close>.

  \<^bold>\<open>Termination and panics.\<close>  Every loop of the program runs over a finite slice or map, so all
  definitions are total functions and no fuel is needed.  The JSON parser is mutually recursive
  with the depth of nesting as an argument; it terminates because every value takes at least one
  character of the text, which is proved together with its domain.  A nil dereference, an explicit \<open>panic\<close>
  and a slice out of range are the value \<open>Panicked\<close> (or \<open>None\<close> in the converter), and the
  properties say exactly when it occurs.  Revision numbers and the history limit are machine
  words; the comparison with the history limit is made in \<open>int\<close>, as it is in the code.

  \<^bold>\<open>What the properties show.\<close>  The reconciler converges (the requests of a run without error lead
  from the observed to the desired names, in a fixed order, with the promotion last), takes a
  server to the pods and config maps of the spec, on a reliable server without error, finishes a
  rolling restart with the first run that no longer sees the deleted pods, makes no request
  without a reason, and rests when the desired state is reached; the status never leaves
  its five live states, settles after two writes, and gates the actions; revisions settle,
  and a recorded spec reads back; copies are independent; the start-up follows its list of steps;
  the operator panics only on resources with missing fields and on an unreadable revision.  Some properties state what the code
  does where that is not what it means to do: its own revisions are never listed
  (\<open>own_revisions\<close>), the error of a failed action is lost (\<open>action_error\<close>), pods of other
  resources in the namespace are deleted (\<open>undesired_pod\<close>), an image change does not reach running
  pods (\<open>image_change\<close>), explicitly empty slices are recorded again and again (\<open>empty_slices\<close>), the
  autoscaler never scales, the role lacks the permission to create events.

  \<^bold>\<open>Not modelled.\<close>  The test suite; the command line of the logging library and the logger; the text
  of JSON errors, and \<open>json.Unmarshal\<close> of a text that names a field of one object twice
  (\<open>eUnmarshalRepeated\<close>; the operator never writes one); the printing and parsing of quantities
  (\<open>eQuantityJSON\<close>, \<open>eQuantityParse\<close>).  The concurrent runs of several reconciliations are covered as
  far as the server may change arbitrarily between two requests.
\<close>

end
